theory Spec2Isabelle
  imports Main
begin

section \<open>Data model of the executor manager\<close>

text \<open>
  The embedding follows \<^verbatim>\<open>src/executor/executorManager.ts\<close>. Hex strings and addresses
  are strings compared with \<^verbatim>\<open>===\<close>; \<^verbatim>\<open>bigint\<close> values are unbounded integers. A
  \<^verbatim>\<open>TransactionInfo\<close> is a mutable object that the mempool's submitted entries share by
  reference, so transaction infos live in an explicit store and are named by a reference.
\<close>

type_synonym Hex = string
type_synonym Address = string
type_synonym txref = nat

datatype error =
    Error string
  | TypeError string
  | TransactionReceiptNotFoundError
  | RpcError string
  | ZodError string

record MempoolUserOperation =
  isCompressedType :: bool
  opData :: string

record UserOperationInfo =
  mempoolUserOperation :: MempoolUserOperation
  userOperationHash :: Hex
  entryPoint :: Address
  firstSubmitted :: int

record TransactionRequest =
  gas :: int
  nonce :: int
  maxFeePerGas :: int
  maxPriorityFeePerGas :: int

record TransactionInfo =
  transactionHash :: Hex
  previousTransactionHashes :: "Hex list"
  transactionRequest :: TransactionRequest
  userOperationInfos :: "UserOperationInfo list"
  executor :: Address
  isVersion06 :: bool
  lastReplaced :: int
  timesPotentiallyIncluded :: int

type_synonym Heap = "txref \<Rightarrow> TransactionInfo"

record SubmittedUserOperation =
  userOperation :: UserOperationInfo
  transactionInfo :: txref

record UserOperationDetails =
  detailStatus :: string
  accountDeployed :: bool
  revertReason :: "Hex option"

datatype BundlingStatus =
    NotFound
  | Included "Hex \<Rightarrow> UserOperationDetails option"
  | Reverted bool "string option"

record BundleStatusResult =
  bundlingStatus :: BundlingStatus
  blockNumber :: "int option"

record TransactionDetails =
  detailHash :: Hex
  detailBundlingStatus :: BundlingStatus
  detailBlockNumber :: "int option"

record GasPriceParameters =
  oracleMaxFeePerGas :: int
  oracleMaxPriorityFeePerGas :: int

datatype ReplaceTransactionResult =
    Failed
  | PotentiallyAlreadyIncluded
  | Replaced txref

datatype BundleResult =
    Success UserOperationInfo txref
  | Failure Hex string
  | Resubmit Hex MempoolUserOperation Address string

datatype level = Trace | Debug | Info | Warn

text \<open>
  Every call that the manager makes on a collaborator (logger, metrics, mempool, executor,
  monitor, reputation manager, event manager, public client) is recorded, in order, in a
  trace of events.
\<close>

datatype event =
    Log level string "Hex list"
  | MetricInc string "string list" int
  | MetricObserve string int
  | MempoolMarkSubmitted Hex txref
  | MempoolRemoveProcessing Hex
  | MempoolRemoveSubmitted Hex
  | MempoolReplaceSubmitted UserOperationInfo txref
  | MempoolAdd MempoolUserOperation Address
  | ExecutorBundle Address "MempoolUserOperation list"
  | ExecutorBundleCompressed Address "MempoolUserOperation list"
  | ExecutorReplaceTransaction txref
  | ExecutorMarkWalletProcessed Address
  | MonitorSetUserOperationStatus Hex string "Hex option"
  | ReputationUpdateIncluded MempoolUserOperation Address bool
  | EmitDropped Hex string
  | EmitIncludedOnChain Hex Hex "int option"
  | EmitExecutionRevertedOnChain Hex Hex Hex "int option"
  | EmitFailedOnChain Hex Hex "int option"
  | WatchBlocks
  | UnwatchBlocks
  | WatchBlockNumber Hex Hex "int option"

text \<open>
  The collaborators are not part of the source file: the configuration, the chain, the gas
  oracle, the executor and the mempool are parameters of the model. The executor receives
  and returns the store, since it reads the transaction info it is given through its
  reference and allocates the transaction infos it returns; a call that throws leaves
  the store as it was. The mempool is an abstract state \<open>'m\<close> with the operations of its
  interface. \<open>dateNow\<close> is the reading of \<^verbatim>\<open>Date.now()\<close> during the call that is modelled.
\<close>

record 'm Env =
  entryPoints :: "Address list"
  aa95ResubmitMultiplier :: int
  maxGasLimitPerBundle :: int
  dateNow :: int
  getBundleStatus :: "bool \<Rightarrow> Hex \<Rightarrow> Address \<Rightarrow> error + BundleStatusResult"
  getGasPrice :: "error + GasPriceParameters"
  executorReplaceTransaction :: "Heap \<Rightarrow> txref \<Rightarrow> error + (ReplaceTransactionResult \<times> Heap)"
  executorBundle :: "Heap \<Rightarrow> Address \<Rightarrow> MempoolUserOperation list \<Rightarrow> error + (BundleResult list \<times> Heap)"
  executorBundleCompressed :: "Heap \<Rightarrow> Address \<Rightarrow> MempoolUserOperation list \<Rightarrow> error + (BundleResult list \<times> Heap)"
  mempoolProcess :: "int \<Rightarrow> nat \<Rightarrow> 'm \<Rightarrow> UserOperationInfo list \<times> 'm"
  mempoolDumpSubmittedOps :: "'m \<Rightarrow> SubmittedUserOperation list"
  mempoolMarkSubmitted :: "Hex \<Rightarrow> txref \<Rightarrow> 'm \<Rightarrow> 'm"
  mempoolRemoveProcessing :: "Hex \<Rightarrow> 'm \<Rightarrow> 'm"
  mempoolRemoveSubmitted :: "Hex \<Rightarrow> 'm \<Rightarrow> 'm"
  mempoolReplaceSubmitted :: "UserOperationInfo \<Rightarrow> txref \<Rightarrow> 'm \<Rightarrow> 'm"
  mempoolAdd :: "MempoolUserOperation \<Rightarrow> Address \<Rightarrow> 'm \<Rightarrow> 'm"

record 'm State =
  currentlyHandlingBlock :: bool
  unWatch :: bool
  heap :: Heap
  mempool :: 'm
  trace :: "event list"

definition emit :: "event \<Rightarrow> 'm State \<Rightarrow> 'm State" where
  "emit ev s = s\<lparr>trace := trace s @ [ev]\<rparr>"

text \<open>
  \<^verbatim>\<open>await Promise.all(xs.map(async (x) => ...))\<close>: every callback is started, whatever the
  others do, and the awaiting caller receives the first rejection. \<open>promiseAll\<close> runs the
  callbacks one after the other in the order of the array and reports the first error.
\<close>

fun promiseAll :: "('a \<Rightarrow> 's \<Rightarrow> error option \<times> 's) \<Rightarrow> 'a list \<Rightarrow> 's \<Rightarrow> error option \<times> 's" where
  "promiseAll f [] s = (None, s)"
| "promiseAll f (x # xs) s =
     (case f x s of (e, s') \<Rightarrow>
        (case promiseAll f xs s' of (e', s'') \<Rightarrow>
           ((case e of None \<Rightarrow> e' | Some err \<Rightarrow> Some err), s'')))"

text \<open>
  \<^verbatim>\<open>map\<close> runs each \<^verbatim>\<open>async\<close> callback up to its first \<^verbatim>\<open>await\<close> before it calls the next
  one, and no callback is resumed before \<^verbatim>\<open>map\<close> has returned. Where the order matters
  (the two replacement passes of a tick) a callback is given in two parts: \<open>start\<close> is the
  part that runs inside \<^verbatim>\<open>map\<close> and answers either that the callback returned without
  awaiting (\<open>None\<close>) or what it awaits; the awaited calls are then resumed with
  \<open>promiseAll\<close>, in the order in which they were made.
\<close>

fun startAll :: "('a \<Rightarrow> 's \<Rightarrow> 'p option \<times> 's) \<Rightarrow> 'a list \<Rightarrow> 's \<Rightarrow> 'p list \<times> 's" where
  "startAll start [] s = ([], s)"
| "startAll start (x # xs) s =
     (case start x s of (p, s') \<Rightarrow>
        (case startAll start xs s' of (ps, s'') \<Rightarrow>
           ((case p of None \<Rightarrow> ps | Some q \<Rightarrow> q # ps), s'')))"

text \<open>\<^verbatim>\<open>Array.from(new Set(entries.map((entry) => entry.transactionInfo)))\<close>: the distinct
  references, in the order of their first occurrence.\<close>

definition setAdd :: "'a \<Rightarrow> 'a list \<Rightarrow> 'a list" where
  "setAdd x acc = (if x \<in> set acc then acc else acc @ [x])"

definition getTransactionsFromUserOperationEntries :: "SubmittedUserOperation list \<Rightarrow> txref list" where
  "getTransactionsFromUserOperationEntries entries = fold setAdd (map transactionInfo entries) []"

section \<open>Replacement policy\<close>

definition removeSubmittedOp :: "'m Env \<Rightarrow> Hex \<Rightarrow> 'm State \<Rightarrow> 'm State" where
  "removeSubmittedOp env h s =
     emit (MempoolRemoveSubmitted h) (s\<lparr>mempool := mempoolRemoveSubmitted env h (mempool s)\<rparr>)"

definition removeSubmittedOps :: "'m Env \<Rightarrow> UserOperationInfo list \<Rightarrow> 'm State \<Rightarrow> 'm State" where
  "removeSubmittedOps env ops s = fold (\<lambda>opInfo. removeSubmittedOp env (userOperationHash opInfo)) ops s"

definition replaceSubmittedOp :: "'m Env \<Rightarrow> txref \<Rightarrow> UserOperationInfo \<Rightarrow> 'm State \<Rightarrow> 'm State" where
  "replaceSubmittedOp env newTxInfo opInfo s =
     emit (MempoolReplaceSubmitted opInfo newTxInfo)
       (s\<lparr>mempool := mempoolReplaceSubmitted env opInfo newTxInfo (mempool s)\<rparr>)"

definition markWalletProcessed :: "Address \<Rightarrow> 'm State \<Rightarrow> 'm State" where
  "markWalletProcessed w s = emit (ExecutorMarkWalletProcessed w) s"

definition resultStatus :: "ReplaceTransactionResult \<Rightarrow> string" where
  "resultStatus r = (case r of Failed \<Rightarrow> ''failed''
      | PotentiallyAlreadyIncluded \<Rightarrow> ''potentially_already_included''
      | Replaced _ \<Rightarrow> ''replaced'')"

definition missingOps :: "TransactionInfo \<Rightarrow> TransactionInfo \<Rightarrow> UserOperationInfo list" where
  "missingOps txInfo newTxInfo =
     filter (\<lambda>info. userOperationHash info \<notin> set (map userOperationHash (userOperationInfos newTxInfo)))
       (userOperationInfos txInfo)"

definition matchingOps :: "TransactionInfo \<Rightarrow> TransactionInfo \<Rightarrow> UserOperationInfo list" where
  "matchingOps txInfo newTxInfo =
     filter (\<lambda>info. userOperationHash info \<in> set (map userOperationHash (userOperationInfos newTxInfo)))
       (userOperationInfos txInfo)"

definition removeMissingOp :: "'m Env \<Rightarrow> Hex \<Rightarrow> Hex \<Rightarrow> UserOperationInfo \<Rightarrow> 'm State \<Rightarrow> 'm State" where
  "removeMissingOp env oldTxHash newTxHash opInfo s =
     emit (Log Warn ''missing op in new tx'' [oldTxHash, newTxHash])
       (removeSubmittedOp env (userOperationHash opInfo) s)"

definition incTimesPotentiallyIncluded :: "txref \<Rightarrow> 'm State \<Rightarrow> 'm State" where
  "incTimesPotentiallyIncluded r s =
     s\<lparr>heap := (heap s)(r := (heap s r)\<lparr>timesPotentiallyIncluded := timesPotentiallyIncluded (heap s r) + 1\<rparr>)\<rparr>"

text \<open>
  \<^verbatim>\<open>replaceTransaction\<close> calls the executor at once and is suspended until the executor
  answers: \<open>callExecutorReplace\<close> is the call, \<open>resumeReplaceTransaction\<close> everything from
  the answer on (the \<^verbatim>\<open>finally\<close> block with the metric first).
\<close>

definition callExecutorReplace :: "txref \<Rightarrow> 'm State \<Rightarrow> 'm State" where
  "callExecutorReplace txInfo s = emit (ExecutorReplaceTransaction txInfo) s"

definition resumeReplaceTransaction :: "'m Env \<Rightarrow> txref \<Rightarrow> string \<Rightarrow> 'm State \<Rightarrow> error option \<times> 'm State" where
  "resumeReplaceTransaction env txInfo reason s =
     (case executorReplaceTransaction env (heap s) txInfo of
        Inl e \<Rightarrow>
          (Some e, emit (MetricInc ''replacedTransactions'' [reason, ''failed''] 1) s)
      | Inr (replaceResult, h) \<Rightarrow>
          (let s1 = emit (MetricInc ''replacedTransactions'' [reason, resultStatus replaceResult] 1)
                      (s\<lparr>heap := h\<rparr>)
           in case replaceResult of
                Failed \<Rightarrow>
                  (None, emit (Log Warn ''failed to replace transaction'' [transactionHash (heap s1 txInfo)])
                           (removeSubmittedOps env (userOperationInfos (heap s1 txInfo)) s1))
              | PotentiallyAlreadyIncluded \<Rightarrow>
                  (let s2 = incTimesPotentiallyIncluded txInfo
                              (emit (Log Info ''transaction potentially already included''
                                       [transactionHash (heap s1 txInfo)]) s1)
                   in if timesPotentiallyIncluded (heap s2 txInfo) \<ge> 3
                      then (None,
                        emit (Log Warn ''transaction potentially already included too many times, removing''
                                [transactionHash (heap s2 txInfo)])
                          (markWalletProcessed (executor (heap s2 txInfo))
                            (removeSubmittedOps env (userOperationInfos (heap s2 txInfo)) s2)))
                      else (None, s2))
              | Replaced newTxInfo \<Rightarrow>
                  (let old = heap s1 txInfo;
                       new = heap s1 newTxInfo;
                       s2 = fold (replaceSubmittedOp env newTxInfo) (matchingOps old new) s1;
                       s3 = fold (removeMissingOp env (transactionHash old) (transactionHash new))
                              (missingOps old new) s2
                   in (None, emit (Log Info ''replaced transaction''
                                [transactionHash old, transactionHash new]) s3))))"

definition replaceTransaction :: "'m Env \<Rightarrow> txref \<Rightarrow> string \<Rightarrow> 'm State \<Rightarrow> error option \<times> 'm State" where
  "replaceTransaction env txInfo reason s =
     resumeReplaceTransaction env txInfo reason (callExecutorReplace txInfo s)"

section \<open>Transaction status resolver\<close>

definition txHashesToCheck :: "TransactionInfo \<Rightarrow> Hex list" where
  "txHashesToCheck ti = transactionHash ti # previousTransactionHashes ti"

text \<open>The statuses of all candidate hashes are awaited together; a failing lookup rejects
  the whole refresh.\<close>

fun resolveStatuses :: "'m Env \<Rightarrow> bool \<Rightarrow> Address \<Rightarrow> Hex list \<Rightarrow> error + TransactionDetails list" where
  "resolveStatuses env v06 ep [] = Inr []"
| "resolveStatuses env v06 ep (h # hs) =
     (case getBundleStatus env v06 h ep of
        Inl e \<Rightarrow> Inl e
      | Inr r \<Rightarrow>
          (case resolveStatuses env v06 ep hs of
             Inl e \<Rightarrow> Inl e
           | Inr ds \<Rightarrow>
               Inr (\<lparr>detailHash = h, detailBundlingStatus = bundlingStatus r,
                     detailBlockNumber = blockNumber r\<rparr> # ds)))"

definition statusString :: "BundlingStatus \<Rightarrow> string" where
  "statusString b = (case b of NotFound \<Rightarrow> ''not_found'' | Included _ \<Rightarrow> ''included''
      | Reverted _ _ \<Rightarrow> ''reverted'')"

definition isIncluded :: "TransactionDetails \<Rightarrow> bool" where
  "isIncluded d = (statusString (detailBundlingStatus d) = ''included'')"

definition isReverted :: "TransactionDetails \<Rightarrow> bool" where
  "isReverted d = (statusString (detailBundlingStatus d) = ''reverted'')"

definition finalizedTransaction :: "TransactionDetails list \<Rightarrow> TransactionDetails option" where
  "finalizedTransaction transactionDetails =
     (case find isIncluded transactionDetails of
        Some mined \<Rightarrow> Some mined
      | None \<Rightarrow> find isReverted transactionDetails)"

text \<open>A synchronous \<^verbatim>\<open>map\<close> whose callback may throw: the first exception leaves the
  loop.\<close>

fun forEachSync :: "('a \<Rightarrow> 's \<Rightarrow> error option \<times> 's) \<Rightarrow> 'a list \<Rightarrow> 's \<Rightarrow> error option \<times> 's" where
  "forEachSync f [] s = (None, s)"
| "forEachSync f (x # xs) s =
     (case f x s of
        (Some e, s') \<Rightarrow> (Some e, s')
      | (None, s') \<Rightarrow> forEachSync f xs s')"

text \<open>The inclusion duration is observed in seconds by the source; the trace keeps the
  difference in milliseconds. Reading a field of \<^verbatim>\<open>userOperationDetails[userOpHash]\<close>
  when the chain reported no details for the hash is a \<^verbatim>\<open>TypeError\<close>.\<close>

definition orElse0x :: "Hex option \<Rightarrow> Hex" where
  "orElse0x r = (case r of None \<Rightarrow> ''0x'' | Some x \<Rightarrow> (if x = [] then ''0x'' else x))"

definition handleIncludedOp ::
  "'m Env \<Rightarrow> (Hex \<Rightarrow> UserOperationDetails option) \<Rightarrow> Hex \<Rightarrow> int option \<Rightarrow> UserOperationInfo
     \<Rightarrow> 'm State \<Rightarrow> error option \<times> 'm State" where
  "handleIncludedOp env userOperationDetails txHash blockNo opInfo s =
     (let userOpHash = userOperationHash opInfo;
          s1 = removeSubmittedOp env userOpHash
                 (emit (MetricObserve ''userOperationInclusionDuration''
                          (dateNow env - firstSubmitted opInfo)) s)
      in case userOperationDetails userOpHash of
           None \<Rightarrow> (Some (TypeError ''opDetails is undefined''), s1)
         | Some opDetails \<Rightarrow>
             (None,
              emit (Log Info ''user op included'' [userOpHash, txHash])
                (emit (MonitorSetUserOperationStatus userOpHash ''included'' (Some txHash))
                  (emit (if detailStatus opDetails = ''succesful''
                         then EmitIncludedOnChain userOpHash txHash blockNo
                         else EmitExecutionRevertedOnChain userOpHash txHash
                                (orElse0x (revertReason opDetails)) blockNo)
                    (emit (ReputationUpdateIncluded (mempoolUserOperation opInfo)
                             (entryPoint opInfo) (accountDeployed opDetails)) s1)))))"

definition rejectOp :: "'m Env \<Rightarrow> Hex \<Rightarrow> int option \<Rightarrow> UserOperationInfo \<Rightarrow> 'm State \<Rightarrow> 'm State" where
  "rejectOp env txHash blockNo opInfo s =
     (let h = userOperationHash opInfo
      in emit (Log Info ''user op failed onchain'' [h, txHash])
           (emit (EmitFailedOnChain h txHash blockNo)
             (emit (MonitorSetUserOperationStatus h ''rejected'' (Some txHash))
               (removeSubmittedOp env h s))))"

definition failedOnChain :: "'m Env \<Rightarrow> txref \<Rightarrow> Hex \<Rightarrow> int option \<Rightarrow> UserOperationInfo list
     \<Rightarrow> 'm State \<Rightarrow> 'm State" where
  "failedOnChain env txInfo txHash blockNo opInfos s =
     (let s1 = fold (rejectOp env txHash blockNo) opInfos s
      in markWalletProcessed (executor (heap s1 txInfo)) s1)"

text \<open>Division of \<^verbatim>\<open>bigint\<close> values truncates towards zero.\<close>

definition bigintDiv :: "int \<Rightarrow> int \<Rightarrow> int" where
  "bigintDiv a b = sgn a * sgn b * (\<bar>a\<bar> div \<bar>b\<bar>)"

text \<open>
  The nonce of a transaction request is a JavaScript \<^verbatim>\<open>number\<close>, a double that holds an
  integer. The sum of two such numbers is the double nearest to the exact sum, the one
  with the even significand when two are equally near. \<open>ulp n\<close> is the distance between
  neighbouring doubles at the magnitude \<open>n\<close>: 1 below \<open>2 ^ 53\<close>, doubling with every further
  binary digit. \<^verbatim>\<open>Number.isSafeInteger\<close> holds up to \<open>2 ^ 53 - 1\<close> in absolute value.
\<close>

function ulp :: "nat \<Rightarrow> nat" where
  "ulp n = (if n < 2 ^ 53 then 1 else 2 * ulp (n div 2))"
  by pat_completeness auto
termination
  by (relation "measure id") auto

declare ulp.simps [simp del]

definition roundToDouble :: "int \<Rightarrow> int" where
  "roundToDouble x =
     (let a = nat \<bar>x\<bar>; u = ulp a; q = a div u; r = a mod u;
          m = (if 2 * r < u then q else if u < 2 * r then q + 1 else if even q then q else q + 1)
      in sgn x * int (m * u))"

definition numberAdd :: "int \<Rightarrow> int \<Rightarrow> int" where
  "numberAdd a b = roundToDouble (a + b)"

definition isSafeInteger :: "int \<Rightarrow> bool" where
  "isSafeInteger n = (\<bar>n\<bar> \<le> 2 ^ 53 - 1)"

definition bumpGasAndNonce :: "'m Env \<Rightarrow> txref \<Rightarrow> 'm State \<Rightarrow> 'm State" where
  "bumpGasAndNonce env r s =
     (let ti = heap s r; req = transactionRequest ti;
          req' = req\<lparr>gas := bigintDiv (gas req * aa95ResubmitMultiplier env) 100,
                     nonce := numberAdd (nonce req) 1\<rparr>
      in s\<lparr>heap := (heap s)(r := ti\<lparr>transactionRequest := req'\<rparr>)\<rparr>)"

fun includesStr :: "string \<Rightarrow> string \<Rightarrow> bool" where
  "includesStr [] p = (p = [])"
| "includesStr (c # cs) p = (take (length p) (c # cs) = p \<or> includesStr cs p)"

definition reasonIncludes :: "string option \<Rightarrow> string \<Rightarrow> bool" where
  "reasonIncludes r p = (case r of None \<Rightarrow> False | Some str \<Rightarrow> includesStr str p)"

definition logPending :: "Hex \<Rightarrow> UserOperationInfo \<Rightarrow> 'm State \<Rightarrow> 'm State" where
  "logPending currentTransactionHash opInfo s =
     emit (Log Trace ''user op still pending'' [userOperationHash opInfo, currentTransactionHash]) s"

definition startFrontrunWatcher :: "Hex \<Rightarrow> int option \<Rightarrow> UserOperationInfo \<Rightarrow> 'm State \<Rightarrow> 'm State" where
  "startFrontrunWatcher txHash blockNo opInfo s =
     emit (WatchBlockNumber (userOperationHash opInfo) txHash blockNo) s"

text \<open>What \<^verbatim>\<open>refreshTransactionStatus\<close> does once a candidate has been selected, from the
  destructuring of \<^verbatim>\<open>finalizedTransaction\<close> on.\<close>

definition handleFinalizedTransaction ::
  "'m Env \<Rightarrow> txref \<Rightarrow> TransactionDetails \<Rightarrow> 'm State \<Rightarrow> error option \<times> 'm State" where
  "handleFinalizedTransaction env txInfo fin s =
     (let opInfos = userOperationInfos (heap s txInfo);
          status = detailBundlingStatus fin;
          txHash = detailHash fin;
          blockNo = detailBlockNumber fin;
          s1 = emit (MetricInc ''userOperationsOnChain'' [statusString status]
                       (int (length opInfos)))
                 (emit (Log Info ''finalizedTransaction'' [txHash]) s)
      in case status of
           Included userOperationDetails \<Rightarrow>
             (case forEachSync (handleIncludedOp env userOperationDetails txHash blockNo)
                     opInfos s1 of
                (Some e, s2) \<Rightarrow> (Some e, s2)
              | (None, s2) \<Rightarrow> (None, markWalletProcessed (executor (heap s2 txInfo)) s2))
         | Reverted isAA95 reason \<Rightarrow>
             (if isAA95
              then replaceTransaction env txInfo ''AA95''
                     (removeSubmittedOps env opInfos (bumpGasAndNonce env txInfo s1))
              else if reasonIncludes reason ''AA25''
              then (None, fold (startFrontrunWatcher txHash blockNo) opInfos s1)
              else (None, failedOnChain env txInfo txHash blockNo opInfos s1))
         | NotFound \<Rightarrow> (None, failedOnChain env txInfo txHash blockNo opInfos s1))"

definition refreshTransactionStatus :: "'m Env \<Rightarrow> Address \<Rightarrow> txref \<Rightarrow> 'm State \<Rightarrow> error option \<times> 'm State" where
  "refreshTransactionStatus env ep txInfo s =
     (let ti = heap s txInfo;
          currentTransactionHash = transactionHash ti;
          opInfos = userOperationInfos ti
      in case resolveStatuses env (isVersion06 ti) ep (txHashesToCheck ti) of
           Inl e \<Rightarrow> (Some e, s)
         | Inr transactionDetails \<Rightarrow>
             (case finalizedTransaction transactionDetails of
                None \<Rightarrow> (None, fold (logPending currentTransactionHash) opInfos s)
              | Some fin \<Rightarrow> handleFinalizedTransaction env txInfo fin s))"

section \<open>Block handler\<close>

text \<open>\<^verbatim>\<open>if (!map.has(k)) map.set(k, []); map.get(k)?.push(v)\<close>\<close>

definition mapPush :: "'k \<Rightarrow> 'v \<Rightarrow> ('k \<Rightarrow> 'v list option) \<Rightarrow> ('k \<Rightarrow> 'v list option)" where
  "mapPush k v m = (case m k of None \<Rightarrow> m(k \<mapsto> [v]) | Some vs \<Rightarrow> m(k \<mapsto> vs @ [v]))"

definition refreshUserOperationStatuses :: "'m Env \<Rightarrow> 'm State \<Rightarrow> error option \<times> 'm State" where
  "refreshUserOperationStatuses env s =
     (let ops = mempoolDumpSubmittedOps env (mempool s);
          opEntryPointMap = fold (\<lambda>opn. mapPush (entryPoint (userOperation opn)) opn) ops Map.empty
      in promiseAll
           (\<lambda>ep st. case opEntryPointMap ep of
               Some epOps \<Rightarrow>
                 promiseAll (refreshTransactionStatus env ep)
                   (getTransactionsFromUserOperationEntries epOps) st
             | None \<Rightarrow> (None, emit (Log Warn ''no user operations for entry point'' [ep]) st))
           (entryPoints env) s)"

definition stopWatchingBlocks :: "'m State \<Rightarrow> 'm State" where
  "stopWatchingBlocks s =
     (if unWatch s
      then (emit UnwatchBlocks (emit (Log Debug ''stopped watching blocks'' []) s))\<lparr>unWatch := False\<rparr>
      else s)"

definition startWatchingBlocks :: "'m State \<Rightarrow> 'm State" where
  "startWatchingBlocks s =
     (if unWatch s then s
      else emit (Log Debug ''started watching blocks'' []) ((emit WatchBlocks s)\<lparr>unWatch := True\<rparr>))"

definition feesSufficient :: "GasPriceParameters \<Rightarrow> TransactionInfo \<Rightarrow> bool" where
  "feesSufficient gasPriceParameters ti =
     (maxFeePerGas (transactionRequest ti) \<ge> oracleMaxFeePerGas gasPriceParameters \<and>
      maxPriorityFeePerGas (transactionRequest ti) \<ge> oracleMaxPriorityFeePerGas gasPriceParameters)"

text \<open>
  The two replacement passes. A callback tests the transaction inside \<^verbatim>\<open>map\<close> and either
  returns or calls \<^verbatim>\<open>replaceTransaction\<close>, which calls the executor at once; the
  continuations of \<^verbatim>\<open>replaceTransaction\<close> run when the answers arrive.
\<close>

definition gasPriceStart :: "GasPriceParameters \<Rightarrow> txref \<Rightarrow> 'm State \<Rightarrow> txref option \<times> 'm State" where
  "gasPriceStart gasPriceParameters txInfo s =
     (if feesSufficient gasPriceParameters (heap s txInfo) then (None, s)
      else (Some txInfo, callExecutorReplace txInfo s))"

definition gasPricePass :: "'m Env \<Rightarrow> GasPriceParameters \<Rightarrow> 'm State \<Rightarrow> error option \<times> 'm State" where
  "gasPricePass env gasPriceParameters s =
     (case startAll (gasPriceStart gasPriceParameters)
             (getTransactionsFromUserOperationEntries (mempoolDumpSubmittedOps env (mempool s))) s of
        (pending, s1) \<Rightarrow>
          promiseAll (\<lambda>txInfo. resumeReplaceTransaction env txInfo ''gas_price'') pending s1)"

definition stuckStart :: "'m Env \<Rightarrow> txref \<Rightarrow> 'm State \<Rightarrow> txref option \<times> 'm State" where
  "stuckStart env txInfo s =
     (if dateNow env - lastReplaced (heap s txInfo) < 5 * 60 * 1000 then (None, s)
      else (Some txInfo, callExecutorReplace txInfo s))"

definition stuckPass :: "'m Env \<Rightarrow> 'm State \<Rightarrow> error option \<times> 'm State" where
  "stuckPass env s =
     (case startAll (stuckStart env)
             (getTransactionsFromUserOperationEntries (mempoolDumpSubmittedOps env (mempool s))) s of
        (pending, s1) \<Rightarrow>
          promiseAll (\<lambda>txInfo. resumeReplaceTransaction env txInfo ''stuck'') pending s1)"

text \<open>
  What a trace shows of the replacements: the transactions handed to
  \<^verbatim>\<open>executor.replaceTransaction\<close>, and the \<^verbatim>\<open>reason\<close> labels of the increments of the
  metric \<^verbatim>\<open>replacedTransactions\<close>, of which every \<^verbatim>\<open>replaceTransaction\<close> makes one.
\<close>

definition replaceCalls :: "event list \<Rightarrow> txref list" where
  "replaceCalls evs =
     concat (map (\<lambda>ev. case ev of ExecutorReplaceTransaction txInfo \<Rightarrow> [txInfo] | _ \<Rightarrow> []) evs)"

definition replacementReasons :: "event list \<Rightarrow> string list" where
  "replacementReasons evs =
     concat (map (\<lambda>ev. case ev of
                MetricInc name labels n \<Rightarrow> (if name = ''replacedTransactions'' then take 1 labels else [])
              | _ \<Rightarrow> []) evs)"

text \<open>A tick returns the error that leaves \<^verbatim>\<open>handleBlock\<close> (if any) and the state it
  leaves behind. The block itself only feeds the debug log.\<close>

definition handleBlock :: "'m Env \<Rightarrow> 'm State \<Rightarrow> error option \<times> 'm State" where
  "handleBlock env s =
     (if currentlyHandlingBlock s then (None, s)
      else
        (let s1 = emit (Log Debug ''handling block'' []) (s\<lparr>currentlyHandlingBlock := True\<rparr>);
             submittedEntries = mempoolDumpSubmittedOps env (mempool s1)
         in if length submittedEntries = 0
            then (None, (stopWatchingBlocks s1)\<lparr>currentlyHandlingBlock := False\<rparr>)
            else
              (case refreshUserOperationStatuses env s1 of
                 (Some e, s2) \<Rightarrow> (Some e, s2)
               | (None, s2) \<Rightarrow>
                   (case getGasPrice env of
                      Inl e \<Rightarrow> (Some e, s2)
                    | Inr gasPriceParameters \<Rightarrow>
                        (case gasPricePass env gasPriceParameters
                                (emit (Log Trace ''fetched gas price parameters'' []) s2) of
                           (Some e, s3) \<Rightarrow> (Some e, s3)
                         | (None, s3) \<Rightarrow>
                             (case stuckPass env s3 of
                                (Some e, s4) \<Rightarrow> (Some e, s4)
                              | (None, s4) \<Rightarrow> (None, s4\<lparr>currentlyHandlingBlock := False\<rparr>)))))))"


section \<open>Receipt reconstructor\<close>

text \<open>
  A log of a transaction receipt, a receipt and a transaction as the RPC client returns
  them. A field that may be \<^verbatim>\<open>null\<close> or absent is an option. \<open>receiptGasPrice\<close> is the
  field the source reads as \<^verbatim>\<open>(transactionReceipt as any).gasPrice\<close>.
\<close>

record RpcLog =
  logAddress :: Address
  logTopics :: "Hex list"
  logData :: Hex
  logBlockHash :: "Hex option"
  logBlockNumber :: "int option"
  logTransactionIndex :: "int option"
  logTransactionHash :: "Hex option"
  logIndex :: "int option"

record TransactionReceipt =
  receiptTransactionHash :: Hex
  receiptBlockNumber :: int
  receiptStatus :: string
  effectiveGasPrice :: "int option"
  receiptGasPrice :: "int option"
  receiptLogs :: "RpcLog list"

record RpcTransaction =
  txGasPrice :: "int option"

record UserOperationEventArgs =
  argUserOpHash :: "Hex option"
  argSender :: "Address option"
  argPaymaster :: "Address option"
  argNonce :: "int option"
  argSuccess :: "bool option"
  argActualGasCost :: "int option"
  argActualGasUsed :: "int option"

record UserOperationEventLog =
  eventArgs :: UserOperationEventArgs
  eventTransactionHash :: "Hex option"
  eventTopics :: "Hex list"

record UserOperationReceipt =
  resUserOpHash :: Hex
  resEntryPoint :: Address
  resSender :: Address
  resNonce :: int
  resPaymaster :: "Address option"
  resActualGasUsed :: int
  resActualGasCost :: int
  resSuccess :: bool
  resReason :: "Hex option"
  resLogs :: "RpcLog list"
  resReceipt :: TransactionReceipt

text \<open>
  The public client, the ABI helpers and the two schemas are parameters. Successive
  calls of one RPC method may answer differently, so the answers to the receipt and
  transaction lookups are indexed by the number of the attempt they belong to.
\<close>

record Rpc =
  rpcEntryPoints :: "Address list"
  rpcMaxBlockRange :: "int option"
  getBlockNumber :: "error + int"
  getLogs :: "Address list \<Rightarrow> int option \<Rightarrow> bool \<Rightarrow> Hex \<Rightarrow> error + UserOperationEventLog list"
  getTransactionReceiptRpc :: "nat \<Rightarrow> Hex \<Rightarrow> error + TransactionReceipt"
  getTransactionRpc :: "nat \<Rightarrow> Hex \<Rightarrow> error + RpcTransaction"
  revertReasonTopic :: "Hex option"
  decodeRevertReason :: "RpcLog \<Rightarrow> error + Hex"
  parseLogs :: "RpcLog list \<Rightarrow> error + RpcLog list"
  parseReceipt :: "int \<Rightarrow> TransactionReceipt \<Rightarrow> error + TransactionReceipt"

definition zeroAddress :: Address where
  "zeroAddress = ''0x0000000000000000000000000000000000000000''"

text \<open>\<^verbatim>\<open>a ?? b\<close>\<close>

definition nullish :: "'a option \<Rightarrow> 'a option \<Rightarrow> 'a option" where
  "nullish a b = (case a of Some x \<Rightarrow> Some x | None \<Rightarrow> b)"

text \<open>\<^verbatim>\<open>if (effectiveGasPrice) { transactionReceipt.effectiveGasPrice = effectiveGasPrice }\<close>:
  the \<^verbatim>\<open>bigint\<close> zero is falsy.\<close>

definition setEffectiveGasPrice :: "int option \<Rightarrow> TransactionReceipt \<Rightarrow> TransactionReceipt" where
  "setEffectiveGasPrice p r =
     (case p of None \<Rightarrow> r | Some v \<Rightarrow> (if v \<noteq> 0 then r\<lparr>effectiveGasPrice := Some v\<rparr> else r))"

text \<open>One pass through the body of the \<^verbatim>\<open>try\<close> block, at attempt \<open>k\<close>.\<close>

definition receiptAttempt :: "Rpc \<Rightarrow> Hex \<Rightarrow> nat \<Rightarrow> error + TransactionReceipt" where
  "receiptAttempt rpc txHash k =
     (case getTransactionReceiptRpc rpc k txHash of
        Inl e \<Rightarrow> Inl e
      | Inr transactionReceipt \<Rightarrow>
          (case nullish (effectiveGasPrice transactionReceipt) (receiptGasPrice transactionReceipt) of
             Some p \<Rightarrow> Inr (setEffectiveGasPrice (Some p) transactionReceipt)
           | None \<Rightarrow>
               (case getTransactionRpc rpc k txHash of
                  Inl e \<Rightarrow> Inl e
                | Inr tx \<Rightarrow> Inr (setEffectiveGasPrice (txGasPrice tx) transactionReceipt))))"

text \<open>The \<^verbatim>\<open>while (true)\<close> loop around it: \<open>None\<close> is a loop that never returns.\<close>

partial_function (option) getTransactionReceipt :: "Rpc \<Rightarrow> Hex \<Rightarrow> nat \<Rightarrow> (error + TransactionReceipt) option" where
  "getTransactionReceipt rpc txHash k =
     (if receiptAttempt rpc txHash k = Inl TransactionReceiptNotFoundError
      then getTransactionReceipt rpc txHash (Suc k)
      else Some (receiptAttempt rpc txHash k))"

text \<open>\<^verbatim>\<open>topics[i]\<close> is \<^verbatim>\<open>undefined\<close> past the end of the array.\<close>

definition topicAt :: "Hex list \<Rightarrow> nat \<Rightarrow> Hex option" where
  "topicAt ts i = (if i < length ts then Some (ts ! i) else None)"

definition isPendingLog :: "RpcLog \<Rightarrow> bool" where
  "isPendingLog l =
     (logBlockHash l = None \<or> logBlockNumber l = None \<or> logTransactionIndex l = None \<or>
      logTransactionHash l = None \<or> logIndex l = None \<or> length (logTopics l) = 0)"

record ScanState =
  startIndex :: int
  endIndex :: int
  scanEntryPoint :: Address
  scanRevertReason :: "Hex option"

definition isUserOperationEvent :: "Hex list \<Rightarrow> RpcLog \<Rightarrow> bool" where
  "isUserOperationEvent evTopics l = (topicAt (logTopics l) 0 = topicAt evTopics 0)"

definition hasOurHash :: "Hex list \<Rightarrow> RpcLog \<Rightarrow> bool" where
  "hasOurHash evTopics l = (topicAt (logTopics l) 1 = topicAt evTopics 1)"

text \<open>A \<^verbatim>\<open>UserOperationEvent\<close> log of the queried operation, and one of another
  operation.\<close>

definition ourEvent :: "Hex list \<Rightarrow> RpcLog \<Rightarrow> bool" where
  "ourEvent evTopics l = (isUserOperationEvent evTopics l \<and> hasOurHash evTopics l)"

definition otherEvent :: "Hex list \<Rightarrow> RpcLog \<Rightarrow> bool" where
  "otherEvent evTopics l = (isUserOperationEvent evTopics l \<and> \<not> hasOurHash evTopics l)"

text \<open>The first \<^verbatim>\<open>if\<close> of the \<^verbatim>\<open>forEach\<close> callback.\<close>

definition indexStep :: "Hex list \<Rightarrow> nat \<Rightarrow> RpcLog \<Rightarrow> ScanState \<Rightarrow> ScanState" where
  "indexStep evTopics i l st =
     (if isUserOperationEvent evTopics l
      then (if hasOurHash evTopics l
            then st\<lparr>endIndex := int i, scanEntryPoint := logAddress l\<rparr>
            else if endIndex st = -1 then st\<lparr>startIndex := int i\<rparr>
            else st)
      else st)"

text \<open>The second \<^verbatim>\<open>if\<close>: decoding the revert reason may throw.\<close>

definition revertStep :: "Rpc \<Rightarrow> Hex list \<Rightarrow> RpcLog \<Rightarrow> ScanState \<Rightarrow> error + ScanState" where
  "revertStep rpc evTopics l st =
     (if topicAt (logTopics l) 0 = revertReasonTopic rpc \<and> hasOurHash evTopics l
      then (case decodeRevertReason rpc l of
              Inl e \<Rightarrow> Inl e
            | Inr reason \<Rightarrow> Inr (st\<lparr>scanRevertReason := Some reason\<rparr>))
      else Inr st)"

fun scanLogs :: "Rpc \<Rightarrow> Hex list \<Rightarrow> nat \<Rightarrow> RpcLog list \<Rightarrow> ScanState \<Rightarrow> error + ScanState" where
  "scanLogs rpc evTopics i [] st = Inr st"
| "scanLogs rpc evTopics i (l # ls) st =
     (case revertStep rpc evTopics l (indexStep evTopics i l st) of
        Inl e \<Rightarrow> Inl e
      | Inr st' \<Rightarrow> scanLogs rpc evTopics (Suc i) ls st')"

definition initialScan :: ScanState where
  "initialScan = \<lparr>startIndex = -1, endIndex = -1, scanEntryPoint = zeroAddress, scanRevertReason = None\<rparr>"

text \<open>\<^verbatim>\<open>Array.prototype.slice(start, end)\<close>, negative arguments counting from the end.\<close>

definition sliceIndex :: "nat \<Rightarrow> int \<Rightarrow> nat" where
  "sliceIndex len i = (if i < 0 then nat (max (int len + i) 0) else min (nat i) len)"

definition slice :: "'a list \<Rightarrow> int \<Rightarrow> int \<Rightarrow> 'a list" where
  "slice xs start stop =
     take (sliceIndex (length xs) stop - sliceIndex (length xs) start)
       (drop (sliceIndex (length xs) start) xs)"

definition filteredLogs :: "RpcLog list \<Rightarrow> ScanState \<Rightarrow> RpcLog list" where
  "filteredLogs logs st = slice logs (startIndex st + 1) (endIndex st)"

record DecodedArgs =
  decSender :: Address
  decPaymaster :: Address
  decNonce :: int
  decSuccess :: bool
  decActualGasCost :: int
  decActualGasUsed :: int

text \<open>The check that no member of the decoded event is \<^verbatim>\<open>undefined\<close>; \<open>None\<close> when one
  is.\<close>

definition definedArgs :: "UserOperationEventArgs \<Rightarrow> DecodedArgs option" where
  "definedArgs a =
     (case (argActualGasCost a, argSender a, argNonce a, argUserOpHash a, argSuccess a,
            argPaymaster a, argActualGasUsed a) of
        (Some cost, Some sender, Some n, Some h, Some ok, Some pm, Some used) \<Rightarrow>
          Some \<lparr>decSender = sender, decPaymaster = pm, decNonce = n, decSuccess = ok,
                 decActualGasCost = cost, decActualGasUsed = used\<rparr>
      | _ \<Rightarrow> None)"

definition blockRange :: "Rpc \<Rightarrow> error + (int option \<times> bool)" where
  "blockRange rpc =
     (case rpcMaxBlockRange rpc of
        None \<Rightarrow> Inr (None, False)
      | Some maxRange \<Rightarrow>
          (case getBlockNumber rpc of
             Inl e \<Rightarrow> Inl e
           | Inr latestBlock \<Rightarrow>
               Inr (Some (if latestBlock - maxRange < 0 then 0 else latestBlock - maxRange), True)))"

text \<open>What follows the receipt fetch. The receipt schema is applied to the receipt with
  its status normalised to 1 for \<^verbatim>\<open>"success"\<close> and 0 otherwise.\<close>

definition buildReceipt ::
  "Rpc \<Rightarrow> Hex \<Rightarrow> Hex list \<Rightarrow> DecodedArgs \<Rightarrow> TransactionReceipt \<Rightarrow> error + UserOperationReceipt option" where
  "buildReceipt rpc userOpHash evTopics args receipt =
     (let logs = receiptLogs receipt
      in if list_ex isPendingLog logs then Inr None
         else
           (case scanLogs rpc evTopics 0 logs initialScan of
              Inl e \<Rightarrow> Inl e
            | Inr st \<Rightarrow>
                if endIndex st = -1 then Inl (Error ''fatal: no UserOperationEvent in logs'')
                else
                  (case parseLogs rpc (filteredLogs logs st) of
                     Inl e \<Rightarrow> Inl e
                   | Inr parsedLogs \<Rightarrow>
                       (case parseReceipt rpc (if receiptStatus receipt = ''success'' then 1 else 0) receipt of
                          Inl e \<Rightarrow> Inl e
                        | Inr parsedReceipt \<Rightarrow>
                            Inr (Some
                              \<lparr>resUserOpHash = userOpHash,
                               resEntryPoint = scanEntryPoint st,
                               resSender = decSender args,
                               resNonce = decNonce args,
                               resPaymaster = (if decPaymaster args = zeroAddress then None
                                               else Some (decPaymaster args)),
                               resActualGasUsed = decActualGasUsed args,
                               resActualGasCost = decActualGasCost args,
                               resSuccess = decSuccess args,
                               resReason = scanRevertReason st,
                               resLogs = parsedLogs,
                               resReceipt = parsedReceipt\<rparr>)))))"

text \<open>\<open>None\<close>: the receipt fetch never returns. \<open>Some (Inr None)\<close>: the source returns
  \<^verbatim>\<open>null\<close>.\<close>

definition getUserOperationReceipt :: "Rpc \<Rightarrow> Hex \<Rightarrow> (error + UserOperationReceipt option) option" where
  "getUserOperationReceipt rpc userOpHash =
     (case blockRange rpc of
        Inl e \<Rightarrow> Some (Inl e)
      | Inr (fromBlock, toLatest) \<Rightarrow>
          (case getLogs rpc (rpcEntryPoints rpc) fromBlock toLatest userOpHash of
             Inl e \<Rightarrow> Some (Inl e)
           | Inr filterResult \<Rightarrow>
               (case filterResult of
                  [] \<Rightarrow> Some (Inr None)
                | userOperationEvent # _ \<Rightarrow>
                    (case definedArgs (eventArgs userOperationEvent) of
                       None \<Rightarrow> Some (Inl (Error ''userOperationEvent has undefined members''))
                     | Some args \<Rightarrow>
                         (case eventTransactionHash userOperationEvent of
                            None \<Rightarrow> Some (Inr None)
                          | Some txHash \<Rightarrow>
                              (case getTransactionReceipt rpc txHash 0 of
                                 None \<Rightarrow> None
                               | Some (Inl e) \<Rightarrow> Some (Inl e)
                               | Some (Inr receipt) \<Rightarrow>
                                   Some (buildReceipt rpc userOpHash
                                           (eventTopics userOperationEvent) args receipt)))))))"


section \<open>Bundling loop\<close>

definition isSuccess :: "BundleResult \<Rightarrow> bool" where
  "isSuccess r = (case r of Success _ _ \<Rightarrow> True | _ \<Rightarrow> False)"

definition bundleMetric :: "BundleResult list \<Rightarrow> 'm State \<Rightarrow> 'm State" where
  "bundleMetric bundle s =
     emit (MetricInc ''bundlesSubmitted'' [if list_all isSuccess bundle then ''success'' else ''failed''] 1) s"

text \<open>One round of the loop over the results; the accumulator is the \<^verbatim>\<open>txHash\<close> variable
  and the state.\<close>

definition handleResult :: "'m Env \<Rightarrow> BundleResult \<Rightarrow> Hex option \<times> 'm State \<Rightarrow> Hex option \<times> 'm State" where
  "handleResult env result acc =
     (case acc of (txHash, s) \<Rightarrow>
        (case result of
           Success res ti \<Rightarrow>
             (let h = userOperationHash res;
                  newHash = transactionHash (heap s ti);
                  s1 = emit (MempoolMarkSubmitted h ti)
                         (s\<lparr>mempool := mempoolMarkSubmitted env h ti (mempool s)\<rparr>);
                  s2 = emit (MonitorSetUserOperationStatus h ''submitted'' (Some newHash)) s1;
                  s3 = startWatchingBlocks s2
              in (Some newHash, emit (MetricInc ''userOperationsSubmitted'' [''success''] 1) s3))
         | Failure userOpHash reason \<Rightarrow>
             (let s1 = emit (MempoolRemoveProcessing userOpHash)
                         (s\<lparr>mempool := mempoolRemoveProcessing env userOpHash (mempool s)\<rparr>);
                  s2 = emit (EmitDropped userOpHash reason) s1;
                  s3 = emit (MonitorSetUserOperationStatus userOpHash ''rejected'' None) s2;
                  s4 = emit (Log Warn ''user operation rejected'' [userOpHash]) s3
              in (txHash, emit (MetricInc ''userOperationsSubmitted'' [''failed''] 1) s4))
         | Resubmit userOpHash uo ep reason \<Rightarrow>
             (let s1 = emit (Log Info ''resubmitting user operation'' [userOpHash]) s;
                  s2 = emit (MempoolRemoveProcessing userOpHash)
                         (s1\<lparr>mempool := mempoolRemoveProcessing env userOpHash (mempool s1)\<rparr>);
                  s3 = emit (MempoolAdd uo ep) (s2\<lparr>mempool := mempoolAdd env uo ep (mempool s2)\<rparr>)
              in (txHash, emit (MetricInc ''userOperationsResubmitted'' [] 1) s3))))"

definition runBundle ::
  "'m Env \<Rightarrow> Address \<Rightarrow> MempoolUserOperation list \<Rightarrow> BundleResult list list \<times> 'm State
     \<Rightarrow> (error + BundleResult list list) \<times> 'm State" where
  "runBundle env ep ops acc =
     (case acc of (bundles, s) \<Rightarrow>
        if length ops > 0
        then (case executorBundle env (heap s) ep ops of
                Inl e \<Rightarrow> (Inl e, emit (ExecutorBundle ep ops) s)
              | Inr (rs, h) \<Rightarrow> (Inr (bundles @ [rs]), emit (ExecutorBundle ep ops) (s\<lparr>heap := h\<rparr>)))
        else (Inr bundles, s))"

definition runBundleCompressed ::
  "'m Env \<Rightarrow> Address \<Rightarrow> MempoolUserOperation list \<Rightarrow> BundleResult list list \<times> 'm State
     \<Rightarrow> (error + BundleResult list list) \<times> 'm State" where
  "runBundleCompressed env ep compressedOps acc =
     (case acc of (bundles, s) \<Rightarrow>
        if length compressedOps > 0
        then (case executorBundleCompressed env (heap s) ep compressedOps of
                Inl e \<Rightarrow> (Inl e, emit (ExecutorBundleCompressed ep compressedOps) s)
              | Inr (rs, h) \<Rightarrow>
                  (Inr (bundles @ [rs]), emit (ExecutorBundleCompressed ep compressedOps) (s\<lparr>heap := h\<rparr>)))
        else (Inr bundles, s))"

definition noteFilteredOut :: "nat \<Rightarrow> nat \<Rightarrow> 'm State \<Rightarrow> 'm State" where
  "noteFilteredOut supplied returned s =
     (let filteredOutOps = int supplied - int returned
      in if filteredOutOps > 0
         then emit (MetricInc ''userOperationsSubmitted'' [''filtered''] filteredOutOps)
                (emit (Log Debug ''user operations filtered out'' []) s)
         else s)"

definition sendToExecutor ::
  "'m Env \<Rightarrow> Address \<Rightarrow> MempoolUserOperation list \<Rightarrow> 'm State \<Rightarrow> (error + Hex option) \<times> 'm State" where
  "sendToExecutor env ep mempoolOps s =
     (let ops = filter (\<lambda>opn. \<not> isCompressedType opn) mempoolOps;
          compressedOps = filter isCompressedType mempoolOps
      in case runBundle env ep ops ([], s) of
           (Inl e, s1) \<Rightarrow> (Inl e, s1)
         | (Inr bundles1, s1) \<Rightarrow>
             (case runBundleCompressed env ep compressedOps (bundles1, s1) of
                (Inl e, s2) \<Rightarrow> (Inl e, s2)
              | (Inr bundles, s2) \<Rightarrow>
                  (let s3 = fold bundleMetric bundles s2;
                       results = concat bundles;
                       s4 = noteFilteredOut (length mempoolOps) (length results) s3
                   in case fold (handleResult env) results (None, s4) of
                        (txHash, s5) \<Rightarrow> (Inr txHash, s5))))"

definition groupByEntryPoint :: "UserOperationInfo list \<Rightarrow> Address \<Rightarrow> MempoolUserOperation list option" where
  "groupByEntryPoint ops = fold (\<lambda>opn. mapPush (entryPoint opn) (mempoolUserOperation opn)) ops Map.empty"

text \<open>The callback of \<^verbatim>\<open>bundleNow\<close> for one configured entry point; \<^verbatim>\<open>!txHash\<close> holds for
  \<^verbatim>\<open>undefined\<close> and for the empty string.\<close>

definition dispatchNow ::
  "'m Env \<Rightarrow> (Address \<Rightarrow> MempoolUserOperation list option) \<Rightarrow> Address \<Rightarrow> Hex list \<times> 'm State
     \<Rightarrow> error option \<times> (Hex list \<times> 'm State)" where
  "dispatchNow env opEntryPointMap ep acc =
     (case acc of (txHashes, s) \<Rightarrow>
        (case opEntryPointMap ep of
           Some ops \<Rightarrow>
             (case sendToExecutor env ep ops s of
                (Inl e, s') \<Rightarrow> (Some e, (txHashes, s'))
              | (Inr None, s') \<Rightarrow> (Some (Error ''no tx hash''), (txHashes, s'))
              | (Inr (Some txHash), s') \<Rightarrow>
                  if txHash = [] then (Some (Error ''no tx hash''), (txHashes, s'))
                  else (None, (txHashes @ [txHash], s')))
         | None \<Rightarrow> (None, (txHashes, emit (Log Warn ''no user operations for entry point'' [ep]) s))))"

definition bundleNowBatch :: "'m Env \<Rightarrow> UserOperationInfo list \<Rightarrow> 'm State \<Rightarrow> (error + Hex list) \<times> 'm State" where
  "bundleNowBatch env ops s =
     (case promiseAll (dispatchNow env (groupByEntryPoint ops)) (entryPoints env) ([], s) of
        (Some e, (txHashes, s')) \<Rightarrow> (Inl e, s')
      | (None, (txHashes, s')) \<Rightarrow> (Inr txHashes, s'))"

definition bundleNow :: "'m Env \<Rightarrow> 'm State \<Rightarrow> (error + Hex list) \<times> 'm State" where
  "bundleNow env s =
     (case mempoolProcess env (maxGasLimitPerBundle env) 1 (mempool s) of
        (ops, m) \<Rightarrow>
          if length ops = 0 then (Inl (Error ''no ops to bundle''), s\<lparr>mempool := m\<rparr>)
          else bundleNowBatch env ops (s\<lparr>mempool := m\<rparr>))"

text \<open>The \<^verbatim>\<open>while (true)\<close> loop of \<^verbatim>\<open>bundle\<close> ends when the mempool returns an empty
  batch; \<open>None\<close> is a mempool that never does.\<close>

partial_function (option) drainMempool ::
  "'m Env \<Rightarrow> UserOperationInfo list list \<Rightarrow> 'm \<Rightarrow> (UserOperationInfo list list \<times> 'm) option" where
  "drainMempool env opsToBundle m =
     (let r = mempoolProcess env 5000000 1 m
      in if length (fst r) > 0 then drainMempool env (opsToBundle @ [fst r]) (snd r)
         else Some (opsToBundle, snd r))"

definition dispatchEntryPoint ::
  "'m Env \<Rightarrow> (Address \<Rightarrow> MempoolUserOperation list option) \<Rightarrow> Address \<Rightarrow> 'm State
     \<Rightarrow> error option \<times> 'm State" where
  "dispatchEntryPoint env opEntryPointMap ep s =
     (case opEntryPointMap ep of
        Some userOperations \<Rightarrow>
          (case sendToExecutor env ep userOperations s of
             (Inl e, s') \<Rightarrow> (Some e, s')
           | (Inr txHash, s') \<Rightarrow> (None, s'))
      | None \<Rightarrow> (None, emit (Log Warn ''no user operations for entry point'' [ep]) s))"

definition bundleBatch :: "'m Env \<Rightarrow> UserOperationInfo list \<Rightarrow> 'm State \<Rightarrow> error option \<times> 'm State" where
  "bundleBatch env ops s =
     promiseAll (dispatchEntryPoint env (groupByEntryPoint ops)) (entryPoints env) s"

text \<open>\<^verbatim>\<open>bundle()\<close>; the name \<open>bundle\<close> is reserved in Isabelle.\<close>

definition bundleLoop :: "'m Env \<Rightarrow> 'm State \<Rightarrow> (error option \<times> 'm State) option" where
  "bundleLoop env s =
     (case drainMempool env [] (mempool s) of
        None \<Rightarrow> None
      | Some (opsToBundle, m) \<Rightarrow>
          Some (if length opsToBundle = 0 then (None, s\<lparr>mempool := m\<rparr>)
                else promiseAll (bundleBatch env) opsToBundle (s\<lparr>mempool := m\<rparr>)))"


text \<open>An operation whose entry point is one of the configured ones.\<close>

definition configured :: "'m Env \<Rightarrow> UserOperationInfo \<Rightarrow> bool" where
  "configured env opn = (entryPoint opn \<in> set (entryPoints env))"

text \<open>The warning logged for a configured entry point without operations in the batch.\<close>

definition warnNoOps :: "Address \<Rightarrow> 'm State \<Rightarrow> 'm State" where
  "warnNoOps ep s = emit (Log Warn ''no user operations for entry point'' [ep]) s"


section \<open>A small in-memory instance\<close>

text \<open>
  Modelled from the spec: the mempool (\<^verbatim>\<open>MemoryMempool\<close> of \<^verbatim>\<open>@alto/mempool\<close>) is not part
  of the source file; the spec gives its interface only. The instance below is the
  simplest store with that interface, used to run the model on concrete inputs: batches
  waiting to be processed, the operations being processed, the submitted entries and the
  operations that were added again.
\<close>

record SimpleMempool =
  batches :: "UserOperationInfo list list"
  processingOps :: "UserOperationInfo list"
  submittedOps :: "SubmittedUserOperation list"
  addedOps :: "(MempoolUserOperation \<times> Address) list"

definition simpleProcess :: "int \<Rightarrow> nat \<Rightarrow> SimpleMempool \<Rightarrow> UserOperationInfo list \<times> SimpleMempool" where
  "simpleProcess maxGas minOps m =
     (case batches m of
        [] \<Rightarrow> ([], m)
      | b # bs \<Rightarrow> (b, m\<lparr>batches := bs, processingOps := processingOps m @ b\<rparr>))"

definition simpleMarkSubmitted :: "Hex \<Rightarrow> txref \<Rightarrow> SimpleMempool \<Rightarrow> SimpleMempool" where
  "simpleMarkSubmitted h ti m =
     m\<lparr>processingOps := filter (\<lambda>opn. userOperationHash opn \<noteq> h) (processingOps m),
       submittedOps := submittedOps m @
          map (\<lambda>opn. \<lparr>userOperation = opn, transactionInfo = ti\<rparr>)
            (filter (\<lambda>opn. userOperationHash opn = h) (processingOps m))\<rparr>"

definition simpleRemoveProcessing :: "Hex \<Rightarrow> SimpleMempool \<Rightarrow> SimpleMempool" where
  "simpleRemoveProcessing h m =
     m\<lparr>processingOps := filter (\<lambda>opn. userOperationHash opn \<noteq> h) (processingOps m)\<rparr>"

definition simpleRemoveSubmitted :: "Hex \<Rightarrow> SimpleMempool \<Rightarrow> SimpleMempool" where
  "simpleRemoveSubmitted h m =
     m\<lparr>submittedOps := filter (\<lambda>e. userOperationHash (userOperation e) \<noteq> h) (submittedOps m)\<rparr>"

definition simpleReplaceSubmitted :: "UserOperationInfo \<Rightarrow> txref \<Rightarrow> SimpleMempool \<Rightarrow> SimpleMempool" where
  "simpleReplaceSubmitted opInfo ti m =
     m\<lparr>submittedOps :=
         map (\<lambda>e. if userOperationHash (userOperation e) = userOperationHash opInfo
                  then \<lparr>userOperation = opInfo, transactionInfo = ti\<rparr> else e)
           (submittedOps m)\<rparr>"

definition simpleAdd :: "MempoolUserOperation \<Rightarrow> Address \<Rightarrow> SimpleMempool \<Rightarrow> SimpleMempool" where
  "simpleAdd uo ep m = m\<lparr>addedOps := addedOps m @ [(uo, ep)]\<rparr>"

text \<open>An environment with one configured entry point, a chain that knows no transaction,
  and an executor that fails every request.\<close>

definition demoEnv :: "SimpleMempool Env" where
  "demoEnv =
     \<lparr>entryPoints = [''0xE1''],
      aa95ResubmitMultiplier = 125,
      maxGasLimitPerBundle = 5000000,
      dateNow = 1000,
      getBundleStatus = (\<lambda>v06 h ep. Inr \<lparr>bundlingStatus = NotFound, blockNumber = None\<rparr>),
      getGasPrice = Inr \<lparr>oracleMaxFeePerGas = 10, oracleMaxPriorityFeePerGas = 2\<rparr>,
      executorReplaceTransaction = (\<lambda>h r. Inr (Failed, h)),
      executorBundle = (\<lambda>h ep ops. Inr ([], h)),
      executorBundleCompressed = (\<lambda>h ep ops. Inr ([], h)),
      mempoolProcess = simpleProcess,
      mempoolDumpSubmittedOps = submittedOps,
      mempoolMarkSubmitted = simpleMarkSubmitted,
      mempoolRemoveProcessing = simpleRemoveProcessing,
      mempoolRemoveSubmitted = simpleRemoveSubmitted,
      mempoolReplaceSubmitted = simpleReplaceSubmitted,
      mempoolAdd = simpleAdd\<rparr>"

definition demoOp :: "Hex \<Rightarrow> Address \<Rightarrow> UserOperationInfo" where
  "demoOp h ep =
     \<lparr>mempoolUserOperation = \<lparr>isCompressedType = False, opData = h\<rparr>,
      userOperationHash = h, entryPoint = ep, firstSubmitted = 0\<rparr>"

definition demoTx :: "Hex \<Rightarrow> UserOperationInfo list \<Rightarrow> TransactionInfo" where
  "demoTx h ops =
     \<lparr>transactionHash = h, previousTransactionHashes = [],
      transactionRequest = \<lparr>gas = 1000, nonce = 7, maxFeePerGas = 10, maxPriorityFeePerGas = 2\<rparr>,
      userOperationInfos = ops, executor = ''0xW1'', isVersion06 = True,
      lastReplaced = 1000, timesPotentiallyIncluded = 0\<rparr>"

text \<open>One operation \<open>0xA1\<close> submitted in transaction \<open>0xT1\<close> (reference 0); reference 1 holds
  the transaction an executor may replace it with.\<close>

definition demoHeap :: Heap where
  "demoHeap = (\<lambda>r. demoTx ''0xT2'' [demoOp ''0xA1'' ''0xE1''])(0 := demoTx ''0xT1'' [demoOp ''0xA1'' ''0xE1''])"

definition demoMempool :: SimpleMempool where
  "demoMempool =
     \<lparr>batches = [], processingOps = [],
      submittedOps = [\<lparr>userOperation = demoOp ''0xA1'' ''0xE1'', transactionInfo = 0\<rparr>],
      addedOps = []\<rparr>"

definition demoState :: "SimpleMempool State" where
  "demoState =
     \<lparr>currentlyHandlingBlock = False, unWatch = True, heap = demoHeap,
      mempool = demoMempool, trace = []\<rparr>"

text \<open>The executor answers that the transaction is potentially already included, or
  replaces it by the transaction at reference 1.\<close>

definition includedEnv :: "SimpleMempool Env" where
  "includedEnv = demoEnv\<lparr>executorReplaceTransaction := (\<lambda>h r. Inr (PotentiallyAlreadyIncluded, h))\<rparr>"

definition replacingEnv :: "SimpleMempool Env" where
  "replacingEnv = demoEnv\<lparr>executorReplaceTransaction := (\<lambda>h r. Inr (Replaced 1, h))\<rparr>"

text \<open>The transaction at reference 0 was already reported twice as potentially included.\<close>

definition twiceState :: "SimpleMempool State" where
  "twiceState = demoState\<lparr>heap := demoHeap(0 := (demoHeap 0)\<lparr>timesPotentiallyIncluded := 2\<rparr>)\<rparr>"

text \<open>The chain reports the transaction \<open>0xT1\<close> as reverted with AA95.\<close>

definition aa95Env :: "SimpleMempool Env" where
  "aa95Env = demoEnv\<lparr>getBundleStatus :=
     (\<lambda>v06 h ep. Inr \<lparr>bundlingStatus = Reverted True None, blockNumber = Some 5\<rparr>)\<rparr>"

text \<open>Two operations submitted in the transaction at reference 0, of which the replacement
  at reference 1 keeps only \<open>0xA1\<close>.\<close>

definition pairState :: "SimpleMempool State" where
  "pairState = demoState
     \<lparr>heap := demoHeap(0 := demoTx ''0xT1'' [demoOp ''0xA1'' ''0xE1'', demoOp ''0xA2'' ''0xE1'']),
      mempool := demoMempool\<lparr>submittedOps :=
        [\<lparr>userOperation = demoOp ''0xA1'' ''0xE1'', transactionInfo = 0\<rparr>,
         \<lparr>userOperation = demoOp ''0xA2'' ''0xE1'', transactionInfo = 0\<rparr>]\<rparr>\<rparr>"

text \<open>A transaction that was replaced once: the chain reports its current hash \<open>0xT1\<close> as
  reverted and its previous hash \<open>0xT0\<close> as included, with the operation \<open>0xA1\<close> executed
  in it.\<close>

definition replacedOnceState :: "SimpleMempool State" where
  "replacedOnceState = demoState
     \<lparr>heap := demoHeap(0 := (demoHeap 0)\<lparr>previousTransactionHashes := [''0xT0'']\<rparr>)\<rparr>"

definition includedDetails :: "Hex \<Rightarrow> UserOperationDetails option" where
  "includedDetails u =
     (if u = ''0xA1''
      then Some \<lparr>detailStatus = ''succesful'', accountDeployed = False, revertReason = None\<rparr>
      else None)"

definition mixedEnv :: "SimpleMempool Env" where
  "mixedEnv = demoEnv\<lparr>getBundleStatus :=
     (\<lambda>v06 h ep. if h = ''0xT0''
        then Inr \<lparr>bundlingStatus = Included includedDetails, blockNumber = Some 4\<rparr>
        else Inr \<lparr>bundlingStatus = Reverted False None, blockNumber = Some 5\<rparr>)\<rparr>"

text \<open>The gas oracle is unreachable during the tick.\<close>

definition gasFailEnv :: "SimpleMempool Env" where
  "gasFailEnv = demoEnv\<lparr>getGasPrice := Inl (RpcError ''gas price unavailable'')\<rparr>"

text \<open>The oracle asks for a higher \<open>maxFeePerGas\<close> than the 10 of the demo transactions; and
  two submitted operations in two transactions, of which the second one (reference 1)
  already pays 12.\<close>

definition risingEnv :: "SimpleMempool Env" where
  "risingEnv = demoEnv\<lparr>getGasPrice := Inr \<lparr>oracleMaxFeePerGas = 11, oracleMaxPriorityFeePerGas = 2\<rparr>\<rparr>"

definition twoTxState :: "SimpleMempool State" where
  "twoTxState = demoState
     \<lparr>heap := demoHeap(1 := (demoTx ''0xT2'' [demoOp ''0xA2'' ''0xE1''])
        \<lparr>transactionRequest := \<lparr>gas = 1000, nonce = 8, maxFeePerGas = 12, maxPriorityFeePerGas = 2\<rparr>\<rparr>),
      mempool := demoMempool\<lparr>submittedOps :=
        [\<lparr>userOperation = demoOp ''0xA1'' ''0xE1'', transactionInfo = 0\<rparr>,
         \<lparr>userOperation = demoOp ''0xA2'' ''0xE1'', transactionInfo = 1\<rparr>]\<rparr>\<rparr>"

text \<open>A receipt with a token transfer log followed by the \<^verbatim>\<open>UserOperationEvent\<close> of the
  only operation \<open>0xA1\<close> of the transaction. The first two receipt lookups do not find
  the receipt.\<close>

definition demoLog :: "Address \<Rightarrow> Hex list \<Rightarrow> int \<Rightarrow> RpcLog" where
  "demoLog a ts i =
     \<lparr>logAddress = a, logTopics = ts, logData = ''0x'', logBlockHash = Some ''0xB5'',
      logBlockNumber = Some 5, logTransactionIndex = Some 0, logTransactionHash = Some ''0xT1'',
      logIndex = Some i\<rparr>"

definition demoTopics :: "Hex list" where
  "demoTopics = [''0xUSEROPEVENT'', ''0xA1'']"

definition transferLog :: RpcLog where
  "transferLog = demoLog ''0xTOKEN'' [''0xTRANSFER'', ''0xFROM'', ''0xTO''] 0"

definition ourLog :: RpcLog where
  "ourLog = demoLog ''0xE1'' demoTopics 1"

definition demoReceipt :: TransactionReceipt where
  "demoReceipt =
     \<lparr>receiptTransactionHash = ''0xT1'', receiptBlockNumber = 5, receiptStatus = ''success'',
      effectiveGasPrice = None, receiptGasPrice = None, receiptLogs = [transferLog, ourLog]\<rparr>"

definition demoEvent :: UserOperationEventLog where
  "demoEvent =
     \<lparr>eventArgs = \<lparr>argUserOpHash = Some ''0xA1'', argSender = Some ''0xS1'',
                   argPaymaster = Some zeroAddress, argNonce = Some 0, argSuccess = Some True,
                   argActualGasCost = Some 21, argActualGasUsed = Some 3\<rparr>,
      eventTransactionHash = Some ''0xT1'', eventTopics = demoTopics\<rparr>"

definition demoRpc :: Rpc where
  "demoRpc =
     \<lparr>rpcEntryPoints = [''0xE1''], rpcMaxBlockRange = None, getBlockNumber = Inr 10,
      getLogs = (\<lambda>addrs fromBlock toLatest h. Inr [demoEvent]),
      getTransactionReceiptRpc =
        (\<lambda>k h. if k < 2 then Inl TransactionReceiptNotFoundError else Inr demoReceipt),
      getTransactionRpc = (\<lambda>k h. Inr \<lparr>txGasPrice = Some 7\<rparr>),
      revertReasonTopic = Some ''0xREVERTREASON'',
      decodeRevertReason = (\<lambda>l. Inr (logData l)),
      parseLogs = Inr,
      parseReceipt = (\<lambda>st r. Inr r)\<rparr>"

text \<open>The same client when the receipt carries a gas price of its own, and when the
  second lookup fails for another reason.\<close>

definition pricedRpc :: Rpc where
  "pricedRpc = demoRpc\<lparr>getTransactionReceiptRpc := (\<lambda>k h. Inr (demoReceipt\<lparr>receiptGasPrice := Some 5\<rparr>))\<rparr>"

definition failingRpc :: Rpc where
  "failingRpc = demoRpc\<lparr>getTransactionReceiptRpc :=
     (\<lambda>k h. if k = 0 then Inl TransactionReceiptNotFoundError else Inl (RpcError ''connection reset''))\<rparr>"

text \<open>Logs of a transaction with three operations, the queried one in the middle.\<close>

definition threeOpLogs :: "RpcLog list" where
  "threeOpLogs =
     [demoLog ''0xE1'' [''0xUSEROPEVENT'', ''0xA0''] 0, transferLog, ourLog,
      demoLog ''0xE1'' [''0xUSEROPEVENT'', ''0xA2''] 3]"




definition strayBatch :: "UserOperationInfo list" where
  "strayBatch = [demoOp ''0xA9'' ''0xE9'', demoOp ''0xA1'' ''0xE1'']"

definition strayState :: "SimpleMempool State" where
  "strayState = demoState\<lparr>mempool :=
     \<lparr>batches = [strayBatch], processingOps = [], submittedOps = [], addedOps = []\<rparr>\<rparr>"


section \<open>Effects of the elementary steps\<close>

lemma emit_fields:
  "trace (emit ev s) = trace s @ [ev]"
  "heap (emit ev s) = heap s"
  "mempool (emit ev s) = mempool s"
  "currentlyHandlingBlock (emit ev s) = currentlyHandlingBlock s"
  "unWatch (emit ev s) = unWatch s"
  by (simp_all add: emit_def)

lemma removeSubmittedOp_fields:
  "trace (removeSubmittedOp env h s) = trace s @ [MempoolRemoveSubmitted h]"
  "heap (removeSubmittedOp env h s) = heap s"
  "mempool (removeSubmittedOp env h s) = mempoolRemoveSubmitted env h (mempool s)"
  "currentlyHandlingBlock (removeSubmittedOp env h s) = currentlyHandlingBlock s"
  "unWatch (removeSubmittedOp env h s) = unWatch s"
  by (simp_all add: removeSubmittedOp_def emit_fields)

lemma removeSubmittedOps_fields:
  "trace (removeSubmittedOps env ops s) =
     trace s @ map (\<lambda>opInfo. MempoolRemoveSubmitted (userOperationHash opInfo)) ops"
  "heap (removeSubmittedOps env ops s) = heap s"
  "mempool (removeSubmittedOps env ops s) =
     fold (\<lambda>opInfo. mempoolRemoveSubmitted env (userOperationHash opInfo)) ops (mempool s)"
  "currentlyHandlingBlock (removeSubmittedOps env ops s) = currentlyHandlingBlock s"
  "unWatch (removeSubmittedOps env ops s) = unWatch s"
  unfolding removeSubmittedOps_def
  by (induction ops arbitrary: s; simp add: removeSubmittedOp_fields)+

lemma markWalletProcessed_fields:
  "trace (markWalletProcessed w s) = trace s @ [ExecutorMarkWalletProcessed w]"
  "heap (markWalletProcessed w s) = heap s"
  "mempool (markWalletProcessed w s) = mempool s"
  "currentlyHandlingBlock (markWalletProcessed w s) = currentlyHandlingBlock s"
  "unWatch (markWalletProcessed w s) = unWatch s"
  by (simp_all add: markWalletProcessed_def emit_fields)

lemma incTimesPotentiallyIncluded_fields:
  "trace (incTimesPotentiallyIncluded r s) = trace s"
  "heap (incTimesPotentiallyIncluded r s) =
     (heap s)(r := (heap s r)\<lparr>timesPotentiallyIncluded := timesPotentiallyIncluded (heap s r) + 1\<rparr>)"
  "mempool (incTimesPotentiallyIncluded r s) = mempool s"
  "currentlyHandlingBlock (incTimesPotentiallyIncluded r s) = currentlyHandlingBlock s"
  "unWatch (incTimesPotentiallyIncluded r s) = unWatch s"
  by (simp_all add: incTimesPotentiallyIncluded_def)

lemma replaceSubmittedOp_fields:
  "trace (replaceSubmittedOp env n opInfo s) = trace s @ [MempoolReplaceSubmitted opInfo n]"
  "heap (replaceSubmittedOp env n opInfo s) = heap s"
  "mempool (replaceSubmittedOp env n opInfo s) = mempoolReplaceSubmitted env opInfo n (mempool s)"
  "currentlyHandlingBlock (replaceSubmittedOp env n opInfo s) = currentlyHandlingBlock s"
  "unWatch (replaceSubmittedOp env n opInfo s) = unWatch s"
  by (simp_all add: replaceSubmittedOp_def emit_fields)

lemma fold_replaceSubmittedOp_fields:
  "trace (fold (replaceSubmittedOp env n) ops s) =
     trace s @ map (\<lambda>opInfo. MempoolReplaceSubmitted opInfo n) ops"
  "heap (fold (replaceSubmittedOp env n) ops s) = heap s"
  "mempool (fold (replaceSubmittedOp env n) ops s) =
     fold (\<lambda>opInfo. mempoolReplaceSubmitted env opInfo n) ops (mempool s)"
  "currentlyHandlingBlock (fold (replaceSubmittedOp env n) ops s) = currentlyHandlingBlock s"
  "unWatch (fold (replaceSubmittedOp env n) ops s) = unWatch s"
  by (induction ops arbitrary: s; simp add: replaceSubmittedOp_fields)+

lemma removeMissingOp_fields:
  "trace (removeMissingOp env a b opInfo s) =
     trace s @ [MempoolRemoveSubmitted (userOperationHash opInfo), Log Warn ''missing op in new tx'' [a, b]]"
  "heap (removeMissingOp env a b opInfo s) = heap s"
  "mempool (removeMissingOp env a b opInfo s) =
     mempoolRemoveSubmitted env (userOperationHash opInfo) (mempool s)"
  "currentlyHandlingBlock (removeMissingOp env a b opInfo s) = currentlyHandlingBlock s"
  "unWatch (removeMissingOp env a b opInfo s) = unWatch s"
  by (simp_all add: removeMissingOp_def emit_fields removeSubmittedOp_fields)

lemma fold_removeMissingOp_fields:
  "trace (fold (removeMissingOp env a b) ops s) =
     trace s @ concat (map (\<lambda>opInfo. [MempoolRemoveSubmitted (userOperationHash opInfo),
                                        Log Warn ''missing op in new tx'' [a, b]]) ops)"
  "heap (fold (removeMissingOp env a b) ops s) = heap s"
  "mempool (fold (removeMissingOp env a b) ops s) =
     fold (\<lambda>opInfo. mempoolRemoveSubmitted env (userOperationHash opInfo)) ops (mempool s)"
  "currentlyHandlingBlock (fold (removeMissingOp env a b) ops s) = currentlyHandlingBlock s"
  "unWatch (fold (removeMissingOp env a b) ops s) = unWatch s"
  by (induction ops arbitrary: s; simp add: removeMissingOp_fields)+

lemma bumpGasAndNonce_fields:
  "trace (bumpGasAndNonce env r s) = trace s"
  "heap (bumpGasAndNonce env r s) =
     (heap s)(r := (heap s r)\<lparr>transactionRequest :=
        (transactionRequest (heap s r))
          \<lparr>gas := bigintDiv (gas (transactionRequest (heap s r)) * aa95ResubmitMultiplier env) 100,
           nonce := numberAdd (nonce (transactionRequest (heap s r))) 1\<rparr>\<rparr>)"
  "mempool (bumpGasAndNonce env r s) = mempool s"
  "currentlyHandlingBlock (bumpGasAndNonce env r s) = currentlyHandlingBlock s"
  "unWatch (bumpGasAndNonce env r s) = unWatch s"
  by (simp_all add: bumpGasAndNonce_def Let_def)

lemmas step_fields =
  emit_fields removeSubmittedOp_fields removeSubmittedOps_fields markWalletProcessed_fields
  incTimesPotentiallyIncluded_fields replaceSubmittedOp_fields fold_replaceSubmittedOp_fields
  removeMissingOp_fields fold_removeMissingOp_fields bumpGasAndNonce_fields

lemmas replaceTransaction_defs =
  replaceTransaction_def resumeReplaceTransaction_def callExecutorReplace_def

lemmas demo_defs =
  demoEnv_def demoState_def demoHeap_def demoMempool_def demoTx_def demoOp_def
  simpleProcess_def simpleMarkSubmitted_def simpleRemoveProcessing_def simpleRemoveSubmitted_def
  simpleReplaceSubmitted_def simpleAdd_def

section \<open>Replacement policy: the three outcomes\<close>

lemma ops_partition:
  "set (matchingOps old new) \<union> set (missingOps old new) = set (userOperationInfos old)"
  "set (matchingOps old new) \<inter> set (missingOps old new) = {}"
  by (auto simp: matchingOps_def missingOps_def)

lemma replaceTransaction_trace_starts:
  "\<exists>st rest. trace (snd (replaceTransaction env txInfo reason s)) =
     trace s @ ExecutorReplaceTransaction txInfo # MetricInc ''replacedTransactions'' [reason, st] 1 # rest"
  by (auto simp: replaceTransaction_defs Let_def step_fields
        split: sum.splits ReplaceTransactionResult.splits prod.splits)

text \<open>
  Claim C5. When the executor answers \<^verbatim>\<open>potentially_already_included\<close>, the counter
  \<open>timesPotentiallyIncluded\<close> of the transaction grows by exactly one. When the new value
  is at least 3 (the third answer for a counter that started at 0), every operation of
  the transaction is removed from the submitted set and the executor wallet is marked
  processed. Otherwise nothing but the counter changes: the mempool, the guard and the
  subscription are untouched and only the executor call, the metric and the info log are
  recorded.
\<close>

theorem replaceTransaction_potentially_already_included:
  assumes ex: "executorReplaceTransaction env (heap s) txInfo = Inr (PotentiallyAlreadyIncluded, h)"
  shows "\<exists>s'. replaceTransaction env txInfo reason s = (None, s') \<and>
      currentlyHandlingBlock s' = currentlyHandlingBlock s \<and> unWatch s' = unWatch s \<and>
      heap s' = h(txInfo := (h txInfo)\<lparr>timesPotentiallyIncluded := timesPotentiallyIncluded (h txInfo) + 1\<rparr>) \<and>
      (if timesPotentiallyIncluded (h txInfo) + 1 \<ge> 3
       then mempool s' = fold (\<lambda>opInfo. mempoolRemoveSubmitted env (userOperationHash opInfo))
                           (userOperationInfos (h txInfo)) (mempool s) \<and>
            trace s' = trace s @
              [ExecutorReplaceTransaction txInfo,
               MetricInc ''replacedTransactions'' [reason, ''potentially_already_included''] 1,
               Log Info ''transaction potentially already included'' [transactionHash (h txInfo)]] @
              map (\<lambda>opInfo. MempoolRemoveSubmitted (userOperationHash opInfo)) (userOperationInfos (h txInfo)) @
              [ExecutorMarkWalletProcessed (executor (h txInfo)),
               Log Warn ''transaction potentially already included too many times, removing''
                 [transactionHash (h txInfo)]]
       else mempool s' = mempool s \<and>
            trace s' = trace s @
              [ExecutorReplaceTransaction txInfo,
               MetricInc ''replacedTransactions'' [reason, ''potentially_already_included''] 1,
               Log Info ''transaction potentially already included'' [transactionHash (h txInfo)]])"
  using ex
  by (simp add: replaceTransaction_defs Let_def resultStatus_def step_fields)

theorem replaceTransaction_potentially_already_included_witness:
  "fst (replaceTransaction includedEnv 0 ''stuck'' demoState) = None \<and>
   timesPotentiallyIncluded (heap (snd (replaceTransaction includedEnv 0 ''stuck'' demoState)) 0) = 1 \<and>
   mempool (snd (replaceTransaction includedEnv 0 ''stuck'' demoState)) = demoMempool \<and>
   fst (replaceTransaction includedEnv 0 ''stuck'' twiceState) = None \<and>
   timesPotentiallyIncluded (heap (snd (replaceTransaction includedEnv 0 ''stuck'' twiceState)) 0) = 3 \<and>
   submittedOps (mempool (snd (replaceTransaction includedEnv 0 ''stuck'' twiceState))) = []"
proof -
  have e1: "executorReplaceTransaction includedEnv (heap demoState) 0 =
      Inr (PotentiallyAlreadyIncluded, heap demoState)"
    by (simp add: includedEnv_def demoEnv_def)
  have e2: "executorReplaceTransaction includedEnv (heap twiceState) 0 =
      Inr (PotentiallyAlreadyIncluded, heap twiceState)"
    by (simp add: includedEnv_def demoEnv_def)
  from replaceTransaction_potentially_already_included[OF e1, of "''stuck''"]
  have first: "fst (replaceTransaction includedEnv 0 ''stuck'' demoState) = None \<and>
     timesPotentiallyIncluded (heap (snd (replaceTransaction includedEnv 0 ''stuck'' demoState)) 0) = 1 \<and>
     mempool (snd (replaceTransaction includedEnv 0 ''stuck'' demoState)) = demoMempool"
    by (auto simp: demoState_def demoHeap_def demoTx_def)
  from replaceTransaction_potentially_already_included[OF e2, of "''stuck''"]
  have third: "fst (replaceTransaction includedEnv 0 ''stuck'' twiceState) = None \<and>
     timesPotentiallyIncluded (heap (snd (replaceTransaction includedEnv 0 ''stuck'' twiceState)) 0) = 3 \<and>
     submittedOps (mempool (snd (replaceTransaction includedEnv 0 ''stuck'' twiceState))) = []"
    by (auto simp: twiceState_def includedEnv_def demo_defs)
  from first third show ?thesis by simp
qed

text \<open>
  Claim C4. When the executor answers \<^verbatim>\<open>replaced\<close> with a new transaction info, the
  operations of the old transaction are split by membership of their hash among the
  hashes of the new transaction's operations: matching and missing together are the old
  operations and share no element. Each matching operation is handed to
  \<^verbatim>\<open>mempool.replaceSubmitted\<close> with the new transaction info, and each missing operation
  to \<^verbatim>\<open>mempool.removeSubmitted\<close>, in this order.
\<close>

theorem replaceTransaction_replaced_partition:
  assumes ex: "executorReplaceTransaction env (heap s) txInfo = Inr (Replaced newTxInfo, h)"
  shows "set (matchingOps (h txInfo) (h newTxInfo)) \<union> set (missingOps (h txInfo) (h newTxInfo))
           = set (userOperationInfos (h txInfo)) \<and>
         set (matchingOps (h txInfo) (h newTxInfo)) \<inter> set (missingOps (h txInfo) (h newTxInfo)) = {} \<and>
         (\<forall>opInfo \<in> set (userOperationInfos (h txInfo)).
            (opInfo \<in> set (matchingOps (h txInfo) (h newTxInfo))) =
            (userOperationHash opInfo \<in> userOperationHash ` set (userOperationInfos (h newTxInfo)))) \<and>
         (\<exists>s'. replaceTransaction env txInfo reason s = (None, s') \<and>
            heap s' = h \<and>
            mempool s' =
              fold (\<lambda>opInfo. mempoolRemoveSubmitted env (userOperationHash opInfo))
                (missingOps (h txInfo) (h newTxInfo))
                (fold (\<lambda>opInfo. mempoolReplaceSubmitted env opInfo newTxInfo)
                   (matchingOps (h txInfo) (h newTxInfo)) (mempool s)) \<and>
            trace s' = trace s @
              [ExecutorReplaceTransaction txInfo,
               MetricInc ''replacedTransactions'' [reason, ''replaced''] 1] @
              map (\<lambda>opInfo. MempoolReplaceSubmitted opInfo newTxInfo) (matchingOps (h txInfo) (h newTxInfo)) @
              concat (map (\<lambda>opInfo. [MempoolRemoveSubmitted (userOperationHash opInfo),
                                      Log Warn ''missing op in new tx''
                                        [transactionHash (h txInfo), transactionHash (h newTxInfo)]])
                        (missingOps (h txInfo) (h newTxInfo))) @
              [Log Info ''replaced transaction'' [transactionHash (h txInfo), transactionHash (h newTxInfo)]])"
proof -
  have part: "set (matchingOps (h txInfo) (h newTxInfo)) \<union> set (missingOps (h txInfo) (h newTxInfo))
           = set (userOperationInfos (h txInfo))"
     "set (matchingOps (h txInfo) (h newTxInfo)) \<inter> set (missingOps (h txInfo) (h newTxInfo)) = {}"
    by (rule ops_partition)+
  have mem: "\<forall>opInfo \<in> set (userOperationInfos (h txInfo)).
            (opInfo \<in> set (matchingOps (h txInfo) (h newTxInfo))) =
            (userOperationHash opInfo \<in> userOperationHash ` set (userOperationInfos (h newTxInfo)))"
    by (simp add: matchingOps_def)
  have run: "\<exists>s'. replaceTransaction env txInfo reason s = (None, s') \<and>
            heap s' = h \<and>
            mempool s' =
              fold (\<lambda>opInfo. mempoolRemoveSubmitted env (userOperationHash opInfo))
                (missingOps (h txInfo) (h newTxInfo))
                (fold (\<lambda>opInfo. mempoolReplaceSubmitted env opInfo newTxInfo)
                   (matchingOps (h txInfo) (h newTxInfo)) (mempool s)) \<and>
            trace s' = trace s @
              [ExecutorReplaceTransaction txInfo,
               MetricInc ''replacedTransactions'' [reason, ''replaced''] 1] @
              map (\<lambda>opInfo. MempoolReplaceSubmitted opInfo newTxInfo) (matchingOps (h txInfo) (h newTxInfo)) @
              concat (map (\<lambda>opInfo. [MempoolRemoveSubmitted (userOperationHash opInfo),
                                      Log Warn ''missing op in new tx''
                                        [transactionHash (h txInfo), transactionHash (h newTxInfo)]])
                        (missingOps (h txInfo) (h newTxInfo))) @
              [Log Info ''replaced transaction'' [transactionHash (h txInfo), transactionHash (h newTxInfo)]]"
    using ex
    by (simp add: replaceTransaction_defs Let_def resultStatus_def step_fields)
  from part mem run show ?thesis by blast
qed

theorem replaceTransaction_replaced_partition_witness:
  "matchingOps (heap pairState 0) (heap pairState 1) = [demoOp ''0xA1'' ''0xE1''] \<and>
   missingOps (heap pairState 0) (heap pairState 1) = [demoOp ''0xA2'' ''0xE1''] \<and>
   fst (replaceTransaction replacingEnv 0 ''gas_price'' pairState) = None \<and>
   submittedOps (mempool (snd (replaceTransaction replacingEnv 0 ''gas_price'' pairState))) =
     [\<lparr>userOperation = demoOp ''0xA1'' ''0xE1'', transactionInfo = 1\<rparr>]"
proof -
  have ex: "executorReplaceTransaction replacingEnv (heap pairState) 0 = Inr (Replaced 1, heap pairState)"
    by (simp add: replacingEnv_def demoEnv_def)
  have m: "matchingOps (heap pairState 0) (heap pairState 1) = [demoOp ''0xA1'' ''0xE1'']"
     "missingOps (heap pairState 0) (heap pairState 1) = [demoOp ''0xA2'' ''0xE1'']"
    by (simp_all add: matchingOps_def missingOps_def pairState_def demo_defs)
  from replaceTransaction_replaced_partition[OF ex, of "''gas_price''"]
  obtain s' where r: "replaceTransaction replacingEnv 0 ''gas_price'' pairState = (None, s')"
    and mp: "mempool s' =
              fold (\<lambda>opInfo. mempoolRemoveSubmitted replacingEnv (userOperationHash opInfo))
                (missingOps (heap pairState 0) (heap pairState 1))
                (fold (\<lambda>opInfo. mempoolReplaceSubmitted replacingEnv opInfo 1)
                   (matchingOps (heap pairState 0) (heap pairState 1)) (mempool pairState))"
    by blast
  have "submittedOps (mempool s') = [\<lparr>userOperation = demoOp ''0xA1'' ''0xE1'', transactionInfo = 1\<rparr>]"
    unfolding mp m by (simp add: replacingEnv_def pairState_def demo_defs)
  with r m show ?thesis by simp
qed

section \<open>Transaction status resolver\<close>

lemma bigintDiv_nonneg: "0 \<le> a \<Longrightarrow> 0 < b \<Longrightarrow> bigintDiv a b = a div b"
  by (cases "a = 0") (simp_all add: bigintDiv_def)

lemma ulp_below: "n < 2 ^ 53 \<Longrightarrow> ulp n = 1"
  by (subst ulp.simps) simp

lemma ulp_at_limit: "ulp (2 ^ 53) = 2"
  by (subst ulp.simps) (simp add: ulp_below)

lemma roundToDouble_exact:
  assumes "\<bar>x\<bar> \<le> 2 ^ 53"
  shows "roundToDouble x = x"
proof (cases "\<bar>x\<bar> < 2 ^ 53")
  case True
  then have "nat \<bar>x\<bar> < 2 ^ 53" by simp
  then have "ulp (nat \<bar>x\<bar>) = 1" by (rule ulp_below)
  then show ?thesis by (simp add: roundToDouble_def Let_def mult_sgn_abs)
next
  case False
  with assms have a: "\<bar>x\<bar> = 2 ^ 53" by simp
  then have n: "nat \<bar>x\<bar> = 2 ^ 53" by simp
  have "sgn x * \<bar>x\<bar> = x" by (rule mult_sgn_abs)
  with a have x: "sgn x * 2 ^ 53 = x" by simp
  have "roundToDouble x = sgn x * 2 ^ 53"
    unfolding roundToDouble_def Let_def n ulp_at_limit by simp
  with x show ?thesis by simp
qed

lemma numberAdd_safe: "isSafeInteger n \<Longrightarrow> numberAdd n 1 = n + 1"
  unfolding numberAdd_def isSafeInteger_def by (rule roundToDouble_exact) simp

text \<open>Beyond the safe integers the increment is no longer exact: at \<open>2 ^ 53\<close> it is lost.\<close>

lemma numberAdd_at_limit: "numberAdd (2 ^ 53) 1 = 2 ^ 53"
proof -
  have u: "ulp 9007199254740993 = 2"
    by (subst ulp.simps) (simp add: ulp_below)
  show ?thesis
    unfolding numberAdd_def roundToDouble_def Let_def by (simp add: u)
qed

text \<open>
  Claim C3. When the status selected for a transaction is reverted with \<open>isAA95\<close>, the
  refresh continues as \<^verbatim>\<open>replaceTransaction(transactionInfo, "AA95")\<close> from a state in
  which the transaction info has been changed in place: its gas is the old gas times
  \<open>aa95ResubmitMultiplier\<close> divided by 100 in integer arithmetic, its nonce is the result
  of the number addition \<^verbatim>\<open>nonce += 1\<close>, which is the old nonce plus one whenever the old
  nonce is a safe integer, nothing else in the store differs, and every bundled operation
  has been handed to \<^verbatim>\<open>mempool.removeSubmitted\<close>. The executor is called only after that.
\<close>

theorem refreshTransactionStatus_AA95:
  assumes res: "resolveStatuses env (isVersion06 (heap s txInfo)) ep (txHashesToCheck (heap s txInfo)) = Inr ds"
    and fin: "finalizedTransaction ds = Some fin"
    and st: "detailBundlingStatus fin = Reverted True reason"
  shows "\<exists>s'. refreshTransactionStatus env ep txInfo s = replaceTransaction env txInfo ''AA95'' s' \<and>
      gas (transactionRequest (heap s' txInfo)) =
        bigintDiv (gas (transactionRequest (heap s txInfo)) * aa95ResubmitMultiplier env) 100 \<and>
      (0 \<le> gas (transactionRequest (heap s txInfo)) * aa95ResubmitMultiplier env \<longrightarrow>
         gas (transactionRequest (heap s' txInfo)) =
           (gas (transactionRequest (heap s txInfo)) * aa95ResubmitMultiplier env) div 100) \<and>
      nonce (transactionRequest (heap s' txInfo)) = numberAdd (nonce (transactionRequest (heap s txInfo))) 1 \<and>
      (isSafeInteger (nonce (transactionRequest (heap s txInfo))) \<longrightarrow>
         nonce (transactionRequest (heap s' txInfo)) = nonce (transactionRequest (heap s txInfo)) + 1) \<and>
      heap s' = (heap s)(txInfo := (heap s txInfo)\<lparr>transactionRequest := transactionRequest (heap s' txInfo)\<rparr>) \<and>
      maxFeePerGas (transactionRequest (heap s' txInfo)) = maxFeePerGas (transactionRequest (heap s txInfo)) \<and>
      maxPriorityFeePerGas (transactionRequest (heap s' txInfo)) =
        maxPriorityFeePerGas (transactionRequest (heap s txInfo)) \<and>
      mempool s' = fold (\<lambda>opInfo. mempoolRemoveSubmitted env (userOperationHash opInfo))
                     (userOperationInfos (heap s txInfo)) (mempool s) \<and>
      trace s' = trace s @
        [Log Info ''finalizedTransaction'' [detailHash fin],
         MetricInc ''userOperationsOnChain'' [''reverted''] (int (length (userOperationInfos (heap s txInfo))))] @
        map (\<lambda>opInfo. MempoolRemoveSubmitted (userOperationHash opInfo)) (userOperationInfos (heap s txInfo)) \<and>
      (\<exists>st rest. trace (snd (replaceTransaction env txInfo ''AA95'' s')) =
         trace s' @ ExecutorReplaceTransaction txInfo # MetricInc ''replacedTransactions'' [''AA95'', st] 1 # rest)"
proof -
  let ?s' = "removeSubmittedOps env (userOperationInfos (heap s txInfo))
      (bumpGasAndNonce env txInfo
        (emit (MetricInc ''userOperationsOnChain'' [''reverted''] (int (length (userOperationInfos (heap s txInfo)))))
           (emit (Log Info ''finalizedTransaction'' [detailHash fin]) s)))"
  have eq: "refreshTransactionStatus env ep txInfo s = replaceTransaction env txInfo ''AA95'' ?s'"
    using res fin st
    by (simp add: refreshTransactionStatus_def handleFinalizedTransaction_def Let_def statusString_def
        step_fields)
  have tr: "\<exists>st rest. trace (snd (replaceTransaction env txInfo ''AA95'' ?s')) =
         trace ?s' @ ExecutorReplaceTransaction txInfo # MetricInc ''replacedTransactions'' [''AA95'', st] 1 # rest"
    by (rule replaceTransaction_trace_starts)
  have flds: "gas (transactionRequest (heap ?s' txInfo)) =
        bigintDiv (gas (transactionRequest (heap s txInfo)) * aa95ResubmitMultiplier env) 100"
     "nonce (transactionRequest (heap ?s' txInfo)) = numberAdd (nonce (transactionRequest (heap s txInfo))) 1"
     "heap ?s' = (heap s)(txInfo := (heap s txInfo)\<lparr>transactionRequest := transactionRequest (heap ?s' txInfo)\<rparr>)"
     "maxFeePerGas (transactionRequest (heap ?s' txInfo)) = maxFeePerGas (transactionRequest (heap s txInfo))"
     "maxPriorityFeePerGas (transactionRequest (heap ?s' txInfo)) =
        maxPriorityFeePerGas (transactionRequest (heap s txInfo))"
     "mempool ?s' = fold (\<lambda>opInfo. mempoolRemoveSubmitted env (userOperationHash opInfo))
                     (userOperationInfos (heap s txInfo)) (mempool s)"
     "trace ?s' = trace s @
        [Log Info ''finalizedTransaction'' [detailHash fin],
         MetricInc ''userOperationsOnChain'' [''reverted''] (int (length (userOperationInfos (heap s txInfo))))] @
        map (\<lambda>opInfo. MempoolRemoveSubmitted (userOperationHash opInfo)) (userOperationInfos (heap s txInfo))"
    by (simp_all add: step_fields)
  have dv: "0 \<le> gas (transactionRequest (heap s txInfo)) * aa95ResubmitMultiplier env \<longrightarrow>
         gas (transactionRequest (heap ?s' txInfo)) =
           (gas (transactionRequest (heap s txInfo)) * aa95ResubmitMultiplier env) div 100"
    using flds(1) by (simp add: bigintDiv_nonneg)
  have nn: "isSafeInteger (nonce (transactionRequest (heap s txInfo))) \<longrightarrow>
         nonce (transactionRequest (heap ?s' txInfo)) = nonce (transactionRequest (heap s txInfo)) + 1"
    using flds(2) by (simp add: numberAdd_safe)
  show ?thesis
    apply (rule exI[of _ ?s'])
    using eq tr flds dv nn by blast
qed

theorem refreshTransactionStatus_AA95_witness:
  "isSafeInteger (nonce (transactionRequest (heap demoState 0))) \<and>
   gas (transactionRequest (heap (snd (refreshTransactionStatus aa95Env ''0xE1'' 0 demoState)) 0)) = 1250 \<and>
   nonce (transactionRequest (heap (snd (refreshTransactionStatus aa95Env ''0xE1'' 0 demoState)) 0)) = 8 \<and>
   submittedOps (mempool (snd (refreshTransactionStatus aa95Env ''0xE1'' 0 demoState))) = []"
proof -
  let ?d = "\<lparr>detailHash = ''0xT1'', detailBundlingStatus = Reverted True None, detailBlockNumber = Some 5\<rparr>"
  have res: "resolveStatuses aa95Env (isVersion06 (heap demoState 0)) ''0xE1''
               (txHashesToCheck (heap demoState 0)) = Inr [?d]"
    by (simp add: aa95Env_def txHashesToCheck_def demo_defs)
  have fin: "finalizedTransaction [?d] = Some ?d"
    by (simp add: finalizedTransaction_def isIncluded_def isReverted_def statusString_def)
  have st: "detailBundlingStatus ?d = Reverted True None" by simp
  have safe: "isSafeInteger (nonce (transactionRequest (heap demoState 0)))"
    by (simp add: isSafeInteger_def demo_defs)
  from refreshTransactionStatus_AA95[OF res fin st]
  obtain s' where eq: "refreshTransactionStatus aa95Env ''0xE1'' 0 demoState =
        replaceTransaction aa95Env 0 ''AA95'' s'"
    and g: "0 \<le> gas (transactionRequest (heap demoState 0)) * aa95ResubmitMultiplier aa95Env \<longrightarrow>
         gas (transactionRequest (heap s' 0)) =
           (gas (transactionRequest (heap demoState 0)) * aa95ResubmitMultiplier aa95Env) div 100"
    and n: "isSafeInteger (nonce (transactionRequest (heap demoState 0))) \<longrightarrow>
         nonce (transactionRequest (heap s' 0)) = nonce (transactionRequest (heap demoState 0)) + 1"
    and hp: "heap s' = (heap demoState)(0 := (heap demoState 0)\<lparr>transactionRequest := transactionRequest (heap s' 0)\<rparr>)"
    and mp: "mempool s' = fold (\<lambda>opInfo. mempoolRemoveSubmitted aa95Env (userOperationHash opInfo))
                     (userOperationInfos (heap demoState 0)) (mempool demoState)"
    by blast
  have g': "gas (transactionRequest (heap s' 0)) = 1250"
    using g by (simp add: aa95Env_def demo_defs)
  from n safe have "nonce (transactionRequest (heap s' 0)) = nonce (transactionRequest (heap demoState 0)) + 1"
    by blast
  then have n': "nonce (transactionRequest (heap s' 0)) = 8"
    by (simp add: demo_defs)
  have ops: "userOperationInfos (heap s' 0) = [demoOp ''0xA1'' ''0xE1'']"
    by (subst hp) (simp add: demo_defs)
  have mp': "submittedOps (mempool s') = []"
    unfolding mp by (simp add: aa95Env_def demo_defs)
  have run: "heap (snd (replaceTransaction aa95Env 0 ''AA95'' s')) = heap s' \<and>
     submittedOps (mempool (snd (replaceTransaction aa95Env 0 ''AA95'' s'))) = []"
    using mp' ops
    by (simp add: replaceTransaction_defs Let_def resultStatus_def step_fields aa95Env_def
        demoEnv_def simpleRemoveSubmitted_def)
  from eq run g' n' safe show ?thesis by simp
qed

lemma resolveStatuses_hashes:
  "resolveStatuses env v ep hs = Inr ds \<Longrightarrow> map detailHash ds = hs"
  by (induction hs arbitrary: ds) (auto split: sum.splits)

lemma resolveStatuses_status:
  "resolveStatuses env v ep hs = Inr ds \<Longrightarrow> i < length hs \<Longrightarrow>
     \<exists>r. getBundleStatus env v (hs ! i) ep = Inr r \<and> detailBundlingStatus (ds ! i) = bundlingStatus r
         \<and> detailBlockNumber (ds ! i) = blockNumber r"
proof (induction hs arbitrary: ds i)
  case Nil
  then show ?case by simp
next
  case (Cons h hs)
  then show ?case
    by (cases i) (auto split: sum.splits)
qed

lemma finalized_included:
  assumes "\<exists>d \<in> set ds. isIncluded d"
  shows "\<exists>i < length ds. finalizedTransaction ds = Some (ds ! i) \<and> isIncluded (ds ! i) \<and>
           (\<forall>j < i. \<not> isIncluded (ds ! j))"
proof -
  from assms obtain m where m: "find isIncluded ds = Some m"
    by (cases "find isIncluded ds") (auto simp: find_None_iff)
  then have "finalizedTransaction ds = Some m" by (simp add: finalizedTransaction_def)
  with m show ?thesis by (auto simp: find_Some_iff)
qed

lemma finalized_reverted:
  assumes "\<forall>d \<in> set ds. \<not> isIncluded d" "\<exists>d \<in> set ds. isReverted d"
  shows "\<exists>i < length ds. finalizedTransaction ds = Some (ds ! i) \<and> isReverted (ds ! i) \<and>
           (\<forall>j < i. \<not> isReverted (ds ! j))"
proof -
  from assms(1) have n: "find isIncluded ds = None" by (simp add: find_None_iff)
  from assms(2) obtain m where m: "find isReverted ds = Some m"
    by (cases "find isReverted ds") (auto simp: find_None_iff)
  with n have "finalizedTransaction ds = Some m" by (simp add: finalizedTransaction_def)
  with m show ?thesis by (auto simp: find_Some_iff)
qed

lemma finalized_none:
  assumes "\<forall>d \<in> set ds. \<not> isIncluded d \<and> \<not> isReverted d"
  shows "finalizedTransaction ds = None"
proof -
  from assms have "find isIncluded ds = None" "find isReverted ds = None"
    by (simp_all add: find_None_iff)
  then show ?thesis by (simp add: finalizedTransaction_def)
qed

lemma fold_logPending:
  "fold (logPending c) ops s =
     s\<lparr>trace := trace s @ map (\<lambda>opInfo. Log Trace ''user op still pending'' [userOperationHash opInfo, c]) ops\<rparr>"
  by (induction ops arbitrary: s) (simp_all add: logPending_def emit_def)

text \<open>Every step taken for a selected candidate only adds to the trace.\<close>

lemma handleIncludedOp_trace:
  "\<exists>rest. trace (snd (handleIncludedOp env d h b opInfo s)) = trace s @ rest"
  by (simp add: handleIncludedOp_def Let_def step_fields split: option.splits)

lemma forEachSync_handleIncludedOp_trace:
  "\<exists>rest. trace (snd (forEachSync (handleIncludedOp env d h b) ops s)) = trace s @ rest"
proof (induction ops arbitrary: s)
  case Nil
  then show ?case by simp
next
  case (Cons x xs)
  obtain e s' where st: "handleIncludedOp env d h b x s = (e, s')"
    by (cases "handleIncludedOp env d h b x s")
  from handleIncludedOp_trace[of env d h b x s] st
  obtain r1 where r1: "trace s' = trace s @ r1" by auto
  show ?case
  proof (cases e)
    case None
    from Cons.IH[of s'] obtain r2 where
      "trace (snd (forEachSync (handleIncludedOp env d h b) xs s')) = trace s' @ r2" by blast
    with st None r1 show ?thesis by simp
  next
    case (Some err)
    with st r1 show ?thesis by simp
  qed
qed

lemma fold_rejectOp_trace:
  "\<exists>rest. trace (fold (rejectOp env h b) ops s) = trace s @ rest"
proof (induction ops arbitrary: s)
  case Nil
  then show ?case by simp
next
  case (Cons x xs)
  from Cons.IH[of "rejectOp env h b x s"] show ?case
    by (auto simp: rejectOp_def Let_def step_fields)
qed

lemma failedOnChain_trace:
  "\<exists>rest. trace (failedOnChain env txInfo h b ops s) = trace s @ rest"
  using fold_rejectOp_trace[of env h b ops s]
  by (auto simp: failedOnChain_def Let_def step_fields)

lemma fold_startFrontrunWatcher_trace:
  "trace (fold (startFrontrunWatcher h b) ops s) =
     trace s @ map (\<lambda>opInfo. WatchBlockNumber (userOperationHash opInfo) h b) ops"
  by (induction ops arbitrary: s) (simp_all add: startFrontrunWatcher_def step_fields)

lemma handleFinalizedTransaction_trace_starts:
  "\<exists>rest. trace (snd (handleFinalizedTransaction env txInfo fin s)) =
     trace s @ Log Info ''finalizedTransaction'' [detailHash fin] #
       MetricInc ''userOperationsOnChain'' [statusString (detailBundlingStatus fin)]
         (int (length (userOperationInfos (heap s txInfo)))) # rest"
proof -
  let ?ops = "userOperationInfos (heap s txInfo)"
  let ?s1 = "emit (MetricInc ''userOperationsOnChain'' [statusString (detailBundlingStatus fin)]
                       (int (length ?ops)))
                 (emit (Log Info ''finalizedTransaction'' [detailHash fin]) s)"
  have s1: "trace ?s1 = trace s @ [Log Info ''finalizedTransaction'' [detailHash fin],
       MetricInc ''userOperationsOnChain'' [statusString (detailBundlingStatus fin)] (int (length ?ops))]"
    by (simp add: step_fields)
  have failed: "\<exists>rest. trace (failedOnChain env txInfo (detailHash fin) (detailBlockNumber fin) ?ops ?s1) =
      trace ?s1 @ rest"
    by (rule failedOnChain_trace)
  show ?thesis
  proof (cases "detailBundlingStatus fin")
    case NotFound
    with failed s1 show ?thesis
      by (auto simp: handleFinalizedTransaction_def Let_def)
  next
    case (Included details)
    obtain e s2 where run: "forEachSync (handleIncludedOp env details (detailHash fin) (detailBlockNumber fin))
        ?ops ?s1 = (e, s2)"
      by (cases "forEachSync (handleIncludedOp env details (detailHash fin) (detailBlockNumber fin)) ?ops ?s1")
    from forEachSync_handleIncludedOp_trace[of env details "detailHash fin" "detailBlockNumber fin" ?ops ?s1] run
    obtain r where "trace s2 = trace ?s1 @ r" by auto
    with s1 have "trace s2 = trace s @ Log Info ''finalizedTransaction'' [detailHash fin] #
       MetricInc ''userOperationsOnChain'' [statusString (detailBundlingStatus fin)] (int (length ?ops)) # r"
      by simp
    with Included run show ?thesis
      by (cases e) (simp_all add: handleFinalizedTransaction_def Let_def step_fields)
  next
    case (Reverted isAA95 reason)
    show ?thesis
    proof (cases isAA95)
      case True
      let ?s2 = "removeSubmittedOps env ?ops (bumpGasAndNonce env txInfo ?s1)"
      from replaceTransaction_trace_starts[of env txInfo "''AA95''" ?s2]
      obtain st rest where "trace (snd (replaceTransaction env txInfo ''AA95'' ?s2)) =
          trace ?s2 @ ExecutorReplaceTransaction txInfo # MetricInc ''replacedTransactions'' [''AA95'', st] 1 # rest"
        by blast
      then have "trace (snd (replaceTransaction env txInfo ''AA95'' ?s2)) =
          trace s @ Log Info ''finalizedTransaction'' [detailHash fin] #
            MetricInc ''userOperationsOnChain'' [statusString (detailBundlingStatus fin)] (int (length ?ops)) #
            (map (\<lambda>opInfo. MempoolRemoveSubmitted (userOperationHash opInfo)) ?ops @
             ExecutorReplaceTransaction txInfo # MetricInc ''replacedTransactions'' [''AA95'', st] 1 # rest)"
        by (simp add: step_fields)
      with Reverted True show ?thesis
        by (simp add: handleFinalizedTransaction_def Let_def)
    next
      case False
      with Reverted failed s1 show ?thesis
        by (auto simp: handleFinalizedTransaction_def Let_def fold_startFrontrunWatcher_trace)
    qed
  qed
qed

text \<open>
  Claim C7. The candidates of a refresh are the current transaction hash followed by the
  previous hashes, and their statuses are classified in that order. If some candidate is
  included, the refresh proceeds with the first included candidate, whatever the others
  are: it logs that candidate's hash as the finalized transaction, counts the operations
  under the status \<^verbatim>\<open>included\<close> and goes on as \<open>handleFinalizedTransaction\<close> does with that
  candidate. Otherwise, if some candidate is reverted, it proceeds in the same way with
  the first reverted one, under the status \<^verbatim>\<open>reverted\<close>. If none is included or reverted,
  nothing is selected and the refresh returns normally, having only logged each operation
  as still pending: the store, the mempool, the guard and the subscription are unchanged.
\<close>

theorem refreshTransactionStatus_classification:
  assumes res: "resolveStatuses env (isVersion06 (heap s txInfo)) ep (txHashesToCheck (heap s txInfo)) = Inr ds"
  shows "txHashesToCheck (heap s txInfo) =
           transactionHash (heap s txInfo) # previousTransactionHashes (heap s txInfo) \<and>
         map detailHash ds = txHashesToCheck (heap s txInfo) \<and>
         (\<forall>i < length ds. \<exists>r.
            getBundleStatus env (isVersion06 (heap s txInfo)) (txHashesToCheck (heap s txInfo) ! i) ep = Inr r \<and>
            detailBundlingStatus (ds ! i) = bundlingStatus r) \<and>
         ((\<exists>d \<in> set ds. isIncluded d) \<longrightarrow>
            (\<exists>i < length ds. finalizedTransaction ds = Some (ds ! i) \<and> isIncluded (ds ! i) \<and>
               (\<forall>j < i. \<not> isIncluded (ds ! j)) \<and>
               refreshTransactionStatus env ep txInfo s = handleFinalizedTransaction env txInfo (ds ! i) s \<and>
               (\<exists>rest. trace (snd (refreshTransactionStatus env ep txInfo s)) =
                  trace s @ Log Info ''finalizedTransaction'' [txHashesToCheck (heap s txInfo) ! i] #
                    MetricInc ''userOperationsOnChain'' [''included'']
                      (int (length (userOperationInfos (heap s txInfo)))) # rest))) \<and>
         ((\<forall>d \<in> set ds. \<not> isIncluded d) \<and> (\<exists>d \<in> set ds. isReverted d) \<longrightarrow>
            (\<exists>i < length ds. finalizedTransaction ds = Some (ds ! i) \<and> isReverted (ds ! i) \<and>
               (\<forall>j < i. \<not> isReverted (ds ! j)) \<and>
               refreshTransactionStatus env ep txInfo s = handleFinalizedTransaction env txInfo (ds ! i) s \<and>
               (\<exists>rest. trace (snd (refreshTransactionStatus env ep txInfo s)) =
                  trace s @ Log Info ''finalizedTransaction'' [txHashesToCheck (heap s txInfo) ! i] #
                    MetricInc ''userOperationsOnChain'' [''reverted'']
                      (int (length (userOperationInfos (heap s txInfo)))) # rest))) \<and>
         ((\<forall>d \<in> set ds. \<not> isIncluded d \<and> \<not> isReverted d) \<longrightarrow>
            finalizedTransaction ds = None \<and>
            refreshTransactionStatus env ep txInfo s =
              (None, s\<lparr>trace := trace s @
                 map (\<lambda>opInfo. Log Trace ''user op still pending''
                        [userOperationHash opInfo, transactionHash (heap s txInfo)])
                   (userOperationInfos (heap s txInfo))\<rparr>))"
proof -
  let ?hs = "txHashesToCheck (heap s txInfo)"
  let ?n = "int (length (userOperationInfos (heap s txInfo)))"
  have hashes: "map detailHash ds = ?hs"
    by (rule resolveStatuses_hashes[OF res])
  have len: "length ds = length ?hs"
    using hashes by (metis length_map)
  have nth: "detailHash (ds ! i) = ?hs ! i" if "i < length ds" for i
    using that hashes by (metis nth_map)
  have stat: "\<forall>i < length ds. \<exists>r.
            getBundleStatus env (isVersion06 (heap s txInfo)) (?hs ! i) ep = Inr r \<and>
            detailBundlingStatus (ds ! i) = bundlingStatus r"
    using resolveStatuses_status[OF res] len by metis
  have proceed: "refreshTransactionStatus env ep txInfo s = handleFinalizedTransaction env txInfo (ds ! i) s \<and>
      (\<exists>rest. trace (snd (refreshTransactionStatus env ep txInfo s)) =
         trace s @ Log Info ''finalizedTransaction'' [?hs ! i] #
           MetricInc ''userOperationsOnChain'' [statusString (detailBundlingStatus (ds ! i))] ?n # rest)"
    if sel: "finalizedTransaction ds = Some (ds ! i)" and i: "i < length ds" for i
  proof -
    have eq: "refreshTransactionStatus env ep txInfo s = handleFinalizedTransaction env txInfo (ds ! i) s"
      using res sel by (simp add: refreshTransactionStatus_def Let_def)
    from handleFinalizedTransaction_trace_starts[of env txInfo "ds ! i" s]
    have "\<exists>rest. trace (snd (refreshTransactionStatus env ep txInfo s)) =
         trace s @ Log Info ''finalizedTransaction'' [?hs ! i] #
           MetricInc ''userOperationsOnChain'' [statusString (detailBundlingStatus (ds ! i))] ?n # rest"
      unfolding eq nth[OF i] .
    with eq show ?thesis by (rule conjI)
  qed
  have inc: "(\<exists>d \<in> set ds. isIncluded d) \<longrightarrow>
            (\<exists>i < length ds. finalizedTransaction ds = Some (ds ! i) \<and> isIncluded (ds ! i) \<and>
               (\<forall>j < i. \<not> isIncluded (ds ! j)) \<and>
               refreshTransactionStatus env ep txInfo s = handleFinalizedTransaction env txInfo (ds ! i) s \<and>
               (\<exists>rest. trace (snd (refreshTransactionStatus env ep txInfo s)) =
                  trace s @ Log Info ''finalizedTransaction'' [?hs ! i] #
                    MetricInc ''userOperationsOnChain'' [''included''] ?n # rest))"
  proof
    assume "\<exists>d \<in> set ds. isIncluded d"
    from finalized_included[OF this] obtain i where i: "i < length ds"
      and sel: "finalizedTransaction ds = Some (ds ! i)" and chosen: "isIncluded (ds ! i)"
      and first: "\<forall>j < i. \<not> isIncluded (ds ! j)" by blast
    from chosen have ss: "statusString (detailBundlingStatus (ds ! i)) = ''included''"
      by (simp add: isIncluded_def)
    note eq = proceed[OF sel i, THEN conjunct1]
    from proceed[OF sel i, THEN conjunct2] obtain rest where
      "trace (snd (refreshTransactionStatus env ep txInfo s)) =
         trace s @ Log Info ''finalizedTransaction'' [?hs ! i] #
           MetricInc ''userOperationsOnChain'' [statusString (detailBundlingStatus (ds ! i))] ?n # rest"
      by blast
    then have tr: "trace (snd (refreshTransactionStatus env ep txInfo s)) =
         trace s @ Log Info ''finalizedTransaction'' [?hs ! i] #
           MetricInc ''userOperationsOnChain'' [''included''] ?n # rest"
      unfolding ss .
    from i sel chosen first eq tr
    show "\<exists>i < length ds. finalizedTransaction ds = Some (ds ! i) \<and> isIncluded (ds ! i) \<and>
               (\<forall>j < i. \<not> isIncluded (ds ! j)) \<and>
               refreshTransactionStatus env ep txInfo s = handleFinalizedTransaction env txInfo (ds ! i) s \<and>
               (\<exists>rest. trace (snd (refreshTransactionStatus env ep txInfo s)) =
                  trace s @ Log Info ''finalizedTransaction'' [?hs ! i] #
                    MetricInc ''userOperationsOnChain'' [''included''] ?n # rest)"
      by blast
  qed
  have rev: "(\<forall>d \<in> set ds. \<not> isIncluded d) \<and> (\<exists>d \<in> set ds. isReverted d) \<longrightarrow>
            (\<exists>i < length ds. finalizedTransaction ds = Some (ds ! i) \<and> isReverted (ds ! i) \<and>
               (\<forall>j < i. \<not> isReverted (ds ! j)) \<and>
               refreshTransactionStatus env ep txInfo s = handleFinalizedTransaction env txInfo (ds ! i) s \<and>
               (\<exists>rest. trace (snd (refreshTransactionStatus env ep txInfo s)) =
                  trace s @ Log Info ''finalizedTransaction'' [?hs ! i] #
                    MetricInc ''userOperationsOnChain'' [''reverted''] ?n # rest))"
  proof
    assume a: "(\<forall>d \<in> set ds. \<not> isIncluded d) \<and> (\<exists>d \<in> set ds. isReverted d)"
    from finalized_reverted[OF a[THEN conjunct1] a[THEN conjunct2]] obtain i where i: "i < length ds"
      and sel: "finalizedTransaction ds = Some (ds ! i)" and chosen: "isReverted (ds ! i)"
      and first: "\<forall>j < i. \<not> isReverted (ds ! j)" by blast
    from chosen have ss: "statusString (detailBundlingStatus (ds ! i)) = ''reverted''"
      by (simp add: isReverted_def)
    note eq = proceed[OF sel i, THEN conjunct1]
    from proceed[OF sel i, THEN conjunct2] obtain rest where
      "trace (snd (refreshTransactionStatus env ep txInfo s)) =
         trace s @ Log Info ''finalizedTransaction'' [?hs ! i] #
           MetricInc ''userOperationsOnChain'' [statusString (detailBundlingStatus (ds ! i))] ?n # rest"
      by blast
    then have tr: "trace (snd (refreshTransactionStatus env ep txInfo s)) =
         trace s @ Log Info ''finalizedTransaction'' [?hs ! i] #
           MetricInc ''userOperationsOnChain'' [''reverted''] ?n # rest"
      unfolding ss .
    from i sel chosen first eq tr
    show "\<exists>i < length ds. finalizedTransaction ds = Some (ds ! i) \<and> isReverted (ds ! i) \<and>
               (\<forall>j < i. \<not> isReverted (ds ! j)) \<and>
               refreshTransactionStatus env ep txInfo s = handleFinalizedTransaction env txInfo (ds ! i) s \<and>
               (\<exists>rest. trace (snd (refreshTransactionStatus env ep txInfo s)) =
                  trace s @ Log Info ''finalizedTransaction'' [?hs ! i] #
                    MetricInc ''userOperationsOnChain'' [''reverted''] ?n # rest)"
      by blast
  qed
  have none: "(\<forall>d \<in> set ds. \<not> isIncluded d \<and> \<not> isReverted d) \<longrightarrow>
            finalizedTransaction ds = None \<and>
            refreshTransactionStatus env ep txInfo s =
              (None, s\<lparr>trace := trace s @
                 map (\<lambda>opInfo. Log Trace ''user op still pending''
                        [userOperationHash opInfo, transactionHash (heap s txInfo)])
                   (userOperationInfos (heap s txInfo))\<rparr>)"
    using res by (auto simp: refreshTransactionStatus_def Let_def finalized_none fold_logPending)
  have cand: "?hs = transactionHash (heap s txInfo) # previousTransactionHashes (heap s txInfo)"
    by (simp add: txHashesToCheck_def)
  from cand hashes stat inc rev none show ?thesis by (intro conjI)
qed

text \<open>With the current hash \<open>0xT1\<close> reverted and the previous hash \<open>0xT0\<close> included, the
  refresh reports the operation as included in \<open>0xT0\<close>; with both reverted with AA95 it
  proceeds with the current hash; with neither known it only logs.\<close>

theorem refreshTransactionStatus_classification_witness:
  "refreshTransactionStatus mixedEnv ''0xE1'' 0 replacedOnceState =
     (None, replacedOnceState
        \<lparr>mempool := demoMempool\<lparr>submittedOps := []\<rparr>,
         trace := [Log Info ''finalizedTransaction'' [''0xT0''],
                   MetricInc ''userOperationsOnChain'' [''included''] 1,
                   MetricObserve ''userOperationInclusionDuration'' 1000,
                   MempoolRemoveSubmitted ''0xA1'',
                   ReputationUpdateIncluded \<lparr>isCompressedType = False, opData = ''0xA1''\<rparr> ''0xE1'' False,
                   EmitIncludedOnChain ''0xA1'' ''0xT0'' (Some 4),
                   MonitorSetUserOperationStatus ''0xA1'' ''included'' (Some ''0xT0''),
                   Log Info ''user op included'' [''0xA1'', ''0xT0''],
                   ExecutorMarkWalletProcessed ''0xW1'']\<rparr>) \<and>
   take 2 (trace (snd (refreshTransactionStatus aa95Env ''0xE1'' 0 replacedOnceState))) =
     [Log Info ''finalizedTransaction'' [''0xT1''], MetricInc ''userOperationsOnChain'' [''reverted''] 1] \<and>
   refreshTransactionStatus demoEnv ''0xE1'' 0 demoState =
     (None, demoState\<lparr>trace := [Log Trace ''user op still pending'' [''0xA1'', ''0xT1'']]\<rparr>)"
proof -
  let ?d1 = "\<lparr>detailHash = ''0xT1'', detailBundlingStatus = Reverted False None, detailBlockNumber = Some 5\<rparr>"
  let ?d0 = "\<lparr>detailHash = ''0xT0'', detailBundlingStatus = Included includedDetails, detailBlockNumber = Some 4\<rparr>"
  let ?a1 = "\<lparr>detailHash = ''0xT1'', detailBundlingStatus = Reverted True None, detailBlockNumber = Some 5\<rparr>"
  let ?a0 = "\<lparr>detailHash = ''0xT0'', detailBundlingStatus = Reverted True None, detailBlockNumber = Some 5\<rparr>"
  let ?p = "\<lparr>detailHash = ''0xT1'', detailBundlingStatus = NotFound, detailBlockNumber = None\<rparr>"
  have r1: "resolveStatuses mixedEnv (isVersion06 (heap replacedOnceState 0)) ''0xE1''
              (txHashesToCheck (heap replacedOnceState 0)) = Inr [?d1, ?d0]"
    by (simp add: mixedEnv_def replacedOnceState_def txHashesToCheck_def demo_defs)
  have inc: "\<not> isIncluded ?d1" "isIncluded ?d0"
    by (simp_all add: isIncluded_def statusString_def)
  then have some: "\<exists>d \<in> set [?d1, ?d0]. isIncluded d" by simp
  from refreshTransactionStatus_classification[OF r1, THEN conjunct2, THEN conjunct2, THEN conjunct2,
      THEN conjunct1, THEN mp, OF some]
  obtain i where i: "i < length [?d1, ?d0]" "isIncluded ([?d1, ?d0] ! i)"
    and run: "refreshTransactionStatus mixedEnv ''0xE1'' 0 replacedOnceState =
        handleFinalizedTransaction mixedEnv 0 ([?d1, ?d0] ! i) replacedOnceState"
    by blast
  from i(1) have "i = 0 \<or> i = 1" by auto
  then have "i = 1"
  proof
    assume "i = 0"
    with i(2) inc(1) show ?thesis by simp
  qed
  with run have "refreshTransactionStatus mixedEnv ''0xE1'' 0 replacedOnceState =
        handleFinalizedTransaction mixedEnv 0 ?d0 replacedOnceState" by simp
  then have first: "refreshTransactionStatus mixedEnv ''0xE1'' 0 replacedOnceState =
     (None, replacedOnceState
        \<lparr>mempool := demoMempool\<lparr>submittedOps := []\<rparr>,
         trace := [Log Info ''finalizedTransaction'' [''0xT0''],
                   MetricInc ''userOperationsOnChain'' [''included''] 1,
                   MetricObserve ''userOperationInclusionDuration'' 1000,
                   MempoolRemoveSubmitted ''0xA1'',
                   ReputationUpdateIncluded \<lparr>isCompressedType = False, opData = ''0xA1''\<rparr> ''0xE1'' False,
                   EmitIncludedOnChain ''0xA1'' ''0xT0'' (Some 4),
                   MonitorSetUserOperationStatus ''0xA1'' ''included'' (Some ''0xT0''),
                   Log Info ''user op included'' [''0xA1'', ''0xT0''],
                   ExecutorMarkWalletProcessed ''0xW1'']\<rparr>)"
    by (simp add: handleFinalizedTransaction_def handleIncludedOp_def Let_def statusString_def
        includedDetails_def mixedEnv_def replacedOnceState_def demo_defs removeSubmittedOp_def
        markWalletProcessed_def emit_def)
  have r3: "resolveStatuses aa95Env (isVersion06 (heap replacedOnceState 0)) ''0xE1''
              (txHashesToCheck (heap replacedOnceState 0)) = Inr [?a1, ?a0]"
    by (simp add: aa95Env_def replacedOnceState_def txHashesToCheck_def demo_defs)
  have rv: "(\<forall>d \<in> set [?a1, ?a0]. \<not> isIncluded d) \<and> (\<exists>d \<in> set [?a1, ?a0]. isReverted d)"
    by (simp add: isIncluded_def isReverted_def statusString_def)
  from refreshTransactionStatus_classification[OF r3, THEN conjunct2, THEN conjunct2, THEN conjunct2,
      THEN conjunct2, THEN conjunct1, THEN mp, OF rv]
  obtain k rest where k: "k < length [?a1, ?a0]" "\<forall>j < k. \<not> isReverted ([?a1, ?a0] ! j)"
    and tr: "trace (snd (refreshTransactionStatus aa95Env ''0xE1'' 0 replacedOnceState)) =
        trace replacedOnceState @
          Log Info ''finalizedTransaction'' [txHashesToCheck (heap replacedOnceState 0) ! k] #
          MetricInc ''userOperationsOnChain'' [''reverted'']
            (int (length (userOperationInfos (heap replacedOnceState 0)))) # rest"
    by blast
  have "k = 0"
  proof (rule ccontr)
    assume "k \<noteq> 0"
    then have "0 < k" by simp
    with k(2) have "\<not> isReverted ([?a1, ?a0] ! 0)" by blast
    then show False by (simp add: isReverted_def statusString_def)
  qed
  with tr have second: "take 2 (trace (snd (refreshTransactionStatus aa95Env ''0xE1'' 0 replacedOnceState))) =
     [Log Info ''finalizedTransaction'' [''0xT1''], MetricInc ''userOperationsOnChain'' [''reverted''] 1]"
    by (simp add: replacedOnceState_def txHashesToCheck_def demo_defs)
  have r2: "resolveStatuses demoEnv (isVersion06 (heap demoState 0)) ''0xE1''
              (txHashesToCheck (heap demoState 0)) = Inr [?p]"
    by (simp add: txHashesToCheck_def demo_defs)
  have pend: "\<forall>d \<in> set [?p]. \<not> isIncluded d \<and> \<not> isReverted d"
    by (simp add: isIncluded_def isReverted_def statusString_def)
  from refreshTransactionStatus_classification[OF r2, THEN conjunct2, THEN conjunct2, THEN conjunct2,
      THEN conjunct2, THEN conjunct2, THEN mp, OF pend]
  have "refreshTransactionStatus demoEnv ''0xE1'' 0 demoState =
     (None, demoState\<lparr>trace := trace demoState @
        map (\<lambda>opInfo. Log Trace ''user op still pending''
               [userOperationHash opInfo, transactionHash (heap demoState 0)])
          (userOperationInfos (heap demoState 0))\<rparr>)"
    by (rule conjunct2)
  then have third: "refreshTransactionStatus demoEnv ''0xE1'' 0 demoState =
     (None, demoState\<lparr>trace := [Log Trace ''user op still pending'' [''0xA1'', ''0xT1'']]\<rparr>)"
    by (simp add: demo_defs)
  from first second third show ?thesis by simp
qed


section \<open>Block handler\<close>

lemma fold_setAdd_set: "set (fold setAdd xs acc) = set acc \<union> set xs"
  by (induction xs arbitrary: acc) (auto simp: setAdd_def)

lemma fold_setAdd_distinct: "distinct acc \<Longrightarrow> distinct (fold setAdd xs acc)"
  by (induction xs arbitrary: acc) (auto simp: setAdd_def)

lemma getTransactions_set:
  "set (getTransactionsFromUserOperationEntries entries) = transactionInfo ` set entries"
  by (simp add: getTransactionsFromUserOperationEntries_def fold_setAdd_set)

lemma getTransactions_distinct:
  "distinct (getTransactionsFromUserOperationEntries entries)"
  by (simp add: getTransactionsFromUserOperationEntries_def fold_setAdd_distinct)

text \<open>What the replacement steps leave in the trace.\<close>

lemma replaceCalls_simps:
  "replaceCalls [] = []"
  "replaceCalls (a @ b) = replaceCalls a @ replaceCalls b"
  "replaceCalls (ExecutorReplaceTransaction r # evs) = r # replaceCalls evs"
  "replaceCalls (MetricInc name labels n # evs) = replaceCalls evs"
  "replaceCalls (Log l msg hs # evs) = replaceCalls evs"
  "replaceCalls (MempoolRemoveSubmitted h # evs) = replaceCalls evs"
  "replaceCalls (MempoolReplaceSubmitted opInfo t # evs) = replaceCalls evs"
  "replaceCalls (ExecutorMarkWalletProcessed w # evs) = replaceCalls evs"
  by (simp_all add: replaceCalls_def)

lemma replacementReasons_simps:
  "replacementReasons [] = []"
  "replacementReasons (a @ b) = replacementReasons a @ replacementReasons b"
  "replacementReasons (ExecutorReplaceTransaction r # evs) = replacementReasons evs"
  "replacementReasons (MetricInc ''replacedTransactions'' (reason # labels) n # evs) =
     reason # replacementReasons evs"
  "replacementReasons (Log l msg hs # evs) = replacementReasons evs"
  "replacementReasons (MempoolRemoveSubmitted h # evs) = replacementReasons evs"
  "replacementReasons (MempoolReplaceSubmitted opInfo t # evs) = replacementReasons evs"
  "replacementReasons (ExecutorMarkWalletProcessed w # evs) = replacementReasons evs"
  by (simp_all add: replacementReasons_def)

lemma replaceCalls_calls: "replaceCalls (map ExecutorReplaceTransaction rs) = rs"
  by (induction rs) (simp_all add: replaceCalls_simps)

lemma replacementReasons_calls: "replacementReasons (map ExecutorReplaceTransaction rs) = []"
  by (induction rs) (simp_all add: replacementReasons_simps)

lemma removals_quiet:
  "replaceCalls (map (\<lambda>opInfo. MempoolRemoveSubmitted (userOperationHash opInfo)) ops) = []"
  "replacementReasons (map (\<lambda>opInfo. MempoolRemoveSubmitted (userOperationHash opInfo)) ops) = []"
  by (induction ops) (simp_all add: replaceCalls_simps replacementReasons_simps)

lemma replacements_quiet:
  "replaceCalls (map (\<lambda>opInfo. MempoolReplaceSubmitted opInfo t) ops) = []"
  "replacementReasons (map (\<lambda>opInfo. MempoolReplaceSubmitted opInfo t) ops) = []"
  by (induction ops) (simp_all add: replaceCalls_simps replacementReasons_simps)

lemma missing_quiet:
  "replaceCalls (concat (map (\<lambda>opInfo. [MempoolRemoveSubmitted (userOperationHash opInfo),
                                         Log Warn ''missing op in new tx'' [a, b]]) ops)) = []"
  "replacementReasons (concat (map (\<lambda>opInfo. [MempoolRemoveSubmitted (userOperationHash opInfo),
                                         Log Warn ''missing op in new tx'' [a, b]]) ops)) = []"
  by (induction ops) (simp_all add: replaceCalls_simps replacementReasons_simps)

lemmas quiet = replaceCalls_simps replacementReasons_simps removals_quiet replacements_quiet missing_quiet

lemma resumeReplaceTransaction_trace:
  "\<exists>st rest. trace (snd (resumeReplaceTransaction env r reason s)) =
       trace s @ MetricInc ''replacedTransactions'' [reason, st] 1 # rest \<and>
     replaceCalls rest = [] \<and> replacementReasons rest = []"
proof (cases "executorReplaceTransaction env (heap s) r")
  case (Inl e)
  then have "trace (snd (resumeReplaceTransaction env r reason s)) =
       trace s @ MetricInc ''replacedTransactions'' [reason, ''failed''] 1 # []"
    by (simp add: resumeReplaceTransaction_def step_fields)
  then show ?thesis by (intro exI conjI) (assumption, simp_all add: quiet)
next
  case (Inr p)
  obtain res h where p: "p = (res, h)" by (cases p)
  show ?thesis
  proof (cases res)
    case Failed
    with Inr p have "trace (snd (resumeReplaceTransaction env r reason s)) =
       trace s @ MetricInc ''replacedTransactions'' [reason, ''failed''] 1 #
         (map (\<lambda>opInfo. MempoolRemoveSubmitted (userOperationHash opInfo)) (userOperationInfos (h r)) @
          [Log Warn ''failed to replace transaction'' [transactionHash (h r)]])"
      by (simp add: resumeReplaceTransaction_def Let_def resultStatus_def step_fields)
    then show ?thesis by (intro exI conjI) (assumption, simp_all add: quiet)
  next
    case PotentiallyAlreadyIncluded
    show ?thesis
    proof (cases "timesPotentiallyIncluded (h r) + 1 \<ge> 3")
      case True
      with Inr p PotentiallyAlreadyIncluded
      have "trace (snd (resumeReplaceTransaction env r reason s)) =
         trace s @ MetricInc ''replacedTransactions'' [reason, ''potentially_already_included''] 1 #
           (Log Info ''transaction potentially already included'' [transactionHash (h r)] #
            map (\<lambda>opInfo. MempoolRemoveSubmitted (userOperationHash opInfo)) (userOperationInfos (h r)) @
            [ExecutorMarkWalletProcessed (executor (h r)),
             Log Warn ''transaction potentially already included too many times, removing''
               [transactionHash (h r)]])"
        by (simp add: resumeReplaceTransaction_def Let_def resultStatus_def step_fields)
      then show ?thesis by (intro exI conjI) (assumption, simp_all add: quiet)
    next
      case False
      with Inr p PotentiallyAlreadyIncluded
      have "trace (snd (resumeReplaceTransaction env r reason s)) =
         trace s @ MetricInc ''replacedTransactions'' [reason, ''potentially_already_included''] 1 #
           [Log Info ''transaction potentially already included'' [transactionHash (h r)]]"
        by (simp add: resumeReplaceTransaction_def Let_def resultStatus_def step_fields)
      then show ?thesis by (intro exI conjI) (assumption, simp_all add: quiet)
    qed
  next
    case (Replaced newTxInfo)
    with Inr p have "trace (snd (resumeReplaceTransaction env r reason s)) =
       trace s @ MetricInc ''replacedTransactions'' [reason, ''replaced''] 1 #
         (map (\<lambda>opInfo. MempoolReplaceSubmitted opInfo newTxInfo) (matchingOps (h r) (h newTxInfo)) @
          concat (map (\<lambda>opInfo. [MempoolRemoveSubmitted (userOperationHash opInfo),
                                  Log Warn ''missing op in new tx''
                                    [transactionHash (h r), transactionHash (h newTxInfo)]])
                    (missingOps (h r) (h newTxInfo))) @
          [Log Info ''replaced transaction'' [transactionHash (h r), transactionHash (h newTxInfo)]])"
      by (simp add: resumeReplaceTransaction_def Let_def resultStatus_def step_fields)
    then show ?thesis by (intro exI conjI) (assumption, simp_all add: quiet)
  qed
qed

lemma promiseAll_resume_trace:
  "\<exists>conts. trace (snd (promiseAll (\<lambda>r. resumeReplaceTransaction env r reason) ps s)) = trace s @ conts \<and>
     replaceCalls conts = [] \<and> replacementReasons conts = replicate (length ps) reason"
proof (induction ps arbitrary: s)
  case Nil
  then show ?case by (simp add: quiet)
next
  case (Cons p ps)
  obtain e s' where st: "resumeReplaceTransaction env p reason s = (e, s')"
    by (cases "resumeReplaceTransaction env p reason s")
  from resumeReplaceTransaction_trace[of env p reason s] st
  obtain status rest where t1: "trace s' = trace s @ MetricInc ''replacedTransactions'' [reason, status] 1 # rest"
    and q1: "replaceCalls rest = []" "replacementReasons rest = []"
    by auto
  from Cons.IH[of s'] obtain conts where
    t2: "trace (snd (promiseAll (\<lambda>r. resumeReplaceTransaction env r reason) ps s')) = trace s' @ conts"
    and q2: "replaceCalls conts = []" "replacementReasons conts = replicate (length ps) reason"
    by blast
  obtain e' s'' where pa: "promiseAll (\<lambda>r. resumeReplaceTransaction env r reason) ps s' = (e', s'')"
    by (cases "promiseAll (\<lambda>r. resumeReplaceTransaction env r reason) ps s'")
  with t2 have "trace s'' = trace s' @ conts" by simp
  with t1 st pa
  have "trace (snd (promiseAll (\<lambda>r. resumeReplaceTransaction env r reason) (p # ps) s)) =
      trace s @ (MetricInc ''replacedTransactions'' [reason, status] 1 # rest @ conts)"
    by simp
  moreover have "replaceCalls (MetricInc ''replacedTransactions'' [reason, status] 1 # rest @ conts) = []"
    using q1 q2 by (simp add: quiet)
  moreover have "replacementReasons (MetricInc ''replacedTransactions'' [reason, status] 1 # rest @ conts) =
      replicate (length (p # ps)) reason"
    using q1 q2 by (simp add: quiet)
  ultimately show ?case by blast
qed

text \<open>The tests of a pass all read the store as it is when the pass begins, and the
  executor has been called for every transaction that fails its test before any
  replacement goes on.\<close>

lemma startAll_gasPriceStart:
  "startAll (gasPriceStart gp) txs s =
     (filter (\<lambda>r. \<not> feesSufficient gp (heap s r)) txs,
      s\<lparr>trace := trace s @ map ExecutorReplaceTransaction (filter (\<lambda>r. \<not> feesSufficient gp (heap s r)) txs)\<rparr>)"
  by (induction txs arbitrary: s) (simp_all add: gasPriceStart_def callExecutorReplace_def emit_def)

lemma startAll_stuckStart:
  "startAll (stuckStart env) txs s =
     (filter (\<lambda>r. \<not> dateNow env - lastReplaced (heap s r) < 5 * 60 * 1000) txs,
      s\<lparr>trace := trace s @ map ExecutorReplaceTransaction
          (filter (\<lambda>r. \<not> dateNow env - lastReplaced (heap s r) < 5 * 60 * 1000) txs)\<rparr>)"
  by (induction txs arbitrary: s) (simp_all add: stuckStart_def callExecutorReplace_def emit_def)

lemma fees_lower:
  "(\<not> feesSufficient gp ti) =
     (maxFeePerGas (transactionRequest ti) < oracleMaxFeePerGas gp \<or>
      maxPriorityFeePerGas (transactionRequest ti) < oracleMaxPriorityFeePerGas gp)"
  by (auto simp: feesSufficient_def)

lemma gasPricePass_trace:
  "\<exists>conts. trace (snd (gasPricePass env gp s)) =
       trace s @ map ExecutorReplaceTransaction
         (filter (\<lambda>r. maxFeePerGas (transactionRequest (heap s r)) < oracleMaxFeePerGas gp \<or>
                      maxPriorityFeePerGas (transactionRequest (heap s r)) < oracleMaxPriorityFeePerGas gp)
            (getTransactionsFromUserOperationEntries (mempoolDumpSubmittedOps env (mempool s)))) @ conts \<and>
     replaceCalls conts = [] \<and>
     replacementReasons conts =
       replicate (length
         (filter (\<lambda>r. maxFeePerGas (transactionRequest (heap s r)) < oracleMaxFeePerGas gp \<or>
                      maxPriorityFeePerGas (transactionRequest (heap s r)) < oracleMaxPriorityFeePerGas gp)
            (getTransactionsFromUserOperationEntries (mempoolDumpSubmittedOps env (mempool s))))) ''gas_price''"
proof -
  let ?started = "filter (\<lambda>r. maxFeePerGas (transactionRequest (heap s r)) < oracleMaxFeePerGas gp \<or>
                      maxPriorityFeePerGas (transactionRequest (heap s r)) < oracleMaxPriorityFeePerGas gp)
      (getTransactionsFromUserOperationEntries (mempoolDumpSubmittedOps env (mempool s)))"
  let ?s1 = "s\<lparr>trace := trace s @ map ExecutorReplaceTransaction ?started\<rparr>"
  have pass: "gasPricePass env gp s =
      promiseAll (\<lambda>r. resumeReplaceTransaction env r ''gas_price'') ?started ?s1"
    by (simp add: gasPricePass_def startAll_gasPriceStart fees_lower)
  from promiseAll_resume_trace[of env "''gas_price''" ?started ?s1]
  obtain conts where "trace (snd (promiseAll (\<lambda>r. resumeReplaceTransaction env r ''gas_price'') ?started ?s1)) =
       trace ?s1 @ conts"
     and q: "replaceCalls conts = []" "replacementReasons conts = replicate (length ?started) ''gas_price''"
    by blast
  with pass have t: "trace (snd (gasPricePass env gp s)) =
      trace s @ map ExecutorReplaceTransaction ?started @ conts"
    by simp
  show ?thesis
    by (intro exI[of _ conts] conjI t q)
qed

lemma stuckPass_trace:
  "\<exists>later. trace (snd (stuckPass env s)) = trace s @ later \<and>
     replacementReasons later = replicate (length (replaceCalls later)) ''stuck''"
proof -
  let ?started = "filter (\<lambda>r. \<not> dateNow env - lastReplaced (heap s r) < 5 * 60 * 1000)
      (getTransactionsFromUserOperationEntries (mempoolDumpSubmittedOps env (mempool s)))"
  let ?s1 = "s\<lparr>trace := trace s @ map ExecutorReplaceTransaction ?started\<rparr>"
  have pass: "stuckPass env s =
      promiseAll (\<lambda>r. resumeReplaceTransaction env r ''stuck'') ?started ?s1"
    by (simp add: stuckPass_def startAll_stuckStart)
  from promiseAll_resume_trace[of env "''stuck''" ?started ?s1]
  obtain conts where "trace (snd (promiseAll (\<lambda>r. resumeReplaceTransaction env r ''stuck'') ?started ?s1)) =
       trace ?s1 @ conts"
     and q: "replaceCalls conts = []" "replacementReasons conts = replicate (length ?started) ''stuck''"
    by blast
  with pass have t: "trace (snd (stuckPass env s)) =
      trace s @ (map ExecutorReplaceTransaction ?started @ conts)"
    by simp
  have "replacementReasons (map ExecutorReplaceTransaction ?started @ conts) =
      replicate (length (replaceCalls (map ExecutorReplaceTransaction ?started @ conts))) ''stuck''"
    using q by (simp add: quiet replaceCalls_calls replacementReasons_calls)
  with t show ?thesis by blast
qed

lemma handleBlock_passes:
  assumes idle: "\<not> currentlyHandlingBlock s"
    and entries: "mempoolDumpSubmittedOps env (mempool s) \<noteq> []"
    and refreshed: "refreshUserOperationStatuses env
        (emit (Log Debug ''handling block'' []) (s\<lparr>currentlyHandlingBlock := True\<rparr>)) = (None, s2)"
    and price: "getGasPrice env = Inr gp"
  shows "handleBlock env s =
      (case gasPricePass env gp (emit (Log Trace ''fetched gas price parameters'' []) s2) of
         (Some e, s3) \<Rightarrow> (Some e, s3)
       | (None, s3) \<Rightarrow>
           (case stuckPass env s3 of
              (Some e, s4) \<Rightarrow> (Some e, s4)
            | (None, s4) \<Rightarrow> (None, s4\<lparr>currentlyHandlingBlock := False\<rparr>)))"
proof -
  let ?s1 = "emit (Log Debug ''handling block'' []) (s\<lparr>currentlyHandlingBlock := True\<rparr>)"
  have "mempoolDumpSubmittedOps env (mempool ?s1) \<noteq> []"
    using entries by (simp add: emit_fields)
  then have l: "length (mempoolDumpSubmittedOps env (mempool ?s1)) \<noteq> 0" by simp
  show ?thesis
    unfolding handleBlock_def Let_def
    apply (simp only: idle if_False l refreshed price)
    apply (simp only: prod.case option.case sum.case)
    done
qed

text \<open>
  Claim C2. In a tick that finds submitted entries, whose status refresh returns and whose
  oracle answers, the gas-price pass reads the submitted set as the refresh left it and
  hands to \<^verbatim>\<open>replaceTransaction\<close> with reason \<^verbatim>\<open>"gas_price"\<close> exactly the transaction infos
  of that set whose \<open>maxFeePerGas\<close> is strictly lower than the oracle's or whose
  \<open>maxPriorityFeePerGas\<close> is strictly lower than the oracle's, once each; a transaction
  with both fees at least the oracle's (equality included) is left alone. In the trace of
  the tick the log of the fetched price is followed by the executor calls for these
  transactions, in the order of the set, and then by what the replacements do when the
  executor answers, which holds one increment of the metric \<^verbatim>\<open>replacedTransactions\<close> per
  call, each with the reason \<^verbatim>\<open>gas_price\<close>, and no further executor call; the replacements
  of the pass that follows carry the reason \<^verbatim>\<open>stuck\<close>.
\<close>

theorem handleBlock_gas_price_replacements:
  assumes idle: "\<not> currentlyHandlingBlock s"
    and entries: "mempoolDumpSubmittedOps env (mempool s) \<noteq> []"
    and refreshed: "refreshUserOperationStatuses env
        (emit (Log Debug ''handling block'' []) (s\<lparr>currentlyHandlingBlock := True\<rparr>)) = (None, s2)"
    and price: "getGasPrice env = Inr gp"
  shows "handleBlock env s =
      (case gasPricePass env gp (emit (Log Trace ''fetched gas price parameters'' []) s2) of
         (Some e, s3) \<Rightarrow> (Some e, s3)
       | (None, s3) \<Rightarrow>
           (case stuckPass env s3 of
              (Some e, s4) \<Rightarrow> (Some e, s4)
            | (None, s4) \<Rightarrow> (None, s4\<lparr>currentlyHandlingBlock := False\<rparr>))) \<and>
    (\<exists>started conts later.
       distinct started \<and>
       (\<forall>txInfo. (txInfo \<in> set started) =
          (txInfo \<in> transactionInfo ` set (mempoolDumpSubmittedOps env (mempool s2)) \<and>
           (maxFeePerGas (transactionRequest (heap s2 txInfo)) < oracleMaxFeePerGas gp \<or>
            maxPriorityFeePerGas (transactionRequest (heap s2 txInfo)) < oracleMaxPriorityFeePerGas gp))) \<and>
       started =
         filter (\<lambda>txInfo. maxFeePerGas (transactionRequest (heap s2 txInfo)) < oracleMaxFeePerGas gp \<or>
                   maxPriorityFeePerGas (transactionRequest (heap s2 txInfo)) < oracleMaxPriorityFeePerGas gp)
           (getTransactionsFromUserOperationEntries (mempoolDumpSubmittedOps env (mempool s2))) \<and>
       trace (snd (gasPricePass env gp (emit (Log Trace ''fetched gas price parameters'' []) s2))) =
         trace s2 @ Log Trace ''fetched gas price parameters'' [] #
           map ExecutorReplaceTransaction started @ conts \<and>
       trace (snd (handleBlock env s)) =
         trace s2 @ Log Trace ''fetched gas price parameters'' [] #
           map ExecutorReplaceTransaction started @ conts @ later \<and>
       replaceCalls conts = [] \<and>
       replacementReasons conts = replicate (length started) ''gas_price'' \<and>
       replacementReasons later = replicate (length (replaceCalls later)) ''stuck'')"
proof -
  let ?s3 = "emit (Log Trace ''fetched gas price parameters'' []) s2"
  let ?txs = "getTransactionsFromUserOperationEntries (mempoolDumpSubmittedOps env (mempool s2))"
  let ?started = "filter (\<lambda>txInfo. maxFeePerGas (transactionRequest (heap s2 txInfo)) < oracleMaxFeePerGas gp \<or>
                   maxPriorityFeePerGas (transactionRequest (heap s2 txInfo)) < oracleMaxPriorityFeePerGas gp) ?txs"
  note tick = handleBlock_passes[OF idle entries refreshed price]
  have dist: "distinct ?started"
    by (simp add: getTransactions_distinct)
  have mem: "\<forall>txInfo. (txInfo \<in> set ?started) =
          (txInfo \<in> transactionInfo ` set (mempoolDumpSubmittedOps env (mempool s2)) \<and>
           (maxFeePerGas (transactionRequest (heap s2 txInfo)) < oracleMaxFeePerGas gp \<or>
            maxPriorityFeePerGas (transactionRequest (heap s2 txInfo)) < oracleMaxPriorityFeePerGas gp))"
    by (simp add: getTransactions_set)
  have s3: "trace ?s3 = trace s2 @ [Log Trace ''fetched gas price parameters'' []]"
     "heap ?s3 = heap s2" "mempool ?s3 = mempool s2"
    by (simp_all add: emit_fields)
  from gasPricePass_trace[of env gp ?s3]
  obtain conts where "trace (snd (gasPricePass env gp ?s3)) =
       (trace s2 @ [Log Trace ''fetched gas price parameters'' []]) @
         map ExecutorReplaceTransaction ?started @ conts"
    and q: "replaceCalls conts = []" "replacementReasons conts = replicate (length ?started) ''gas_price''"
    unfolding s3 by blast
  then have gt: "trace (snd (gasPricePass env gp ?s3)) =
       trace s2 @ Log Trace ''fetched gas price parameters'' [] # map ExecutorReplaceTransaction ?started @ conts"
    by simp
  obtain e s3 where gp: "gasPricePass env gp ?s3 = (e, s3)"
    by (cases "gasPricePass env gp ?s3")
  have "\<exists>later. trace (snd (handleBlock env s)) = trace s3 @ later \<and>
      replacementReasons later = replicate (length (replaceCalls later)) ''stuck''"
  proof (cases e)
    case (Some err)
    with gp have "trace (snd (handleBlock env s)) = trace s3 @ []"
      unfolding tick by simp
    moreover have "replacementReasons [] = replicate (length (replaceCalls [])) ''stuck''"
      by (simp add: quiet)
    ultimately show ?thesis by blast
  next
    case None
    obtain e' s4 where sp: "stuckPass env s3 = (e', s4)"
      by (cases "stuckPass env s3")
    from stuckPass_trace[of env s3] sp obtain later where
      l: "trace s4 = trace s3 @ later"
         "replacementReasons later = replicate (length (replaceCalls later)) ''stuck''"
      by auto
    from gp None sp have "trace (snd (handleBlock env s)) = trace s4"
      unfolding tick by (cases e') simp_all
    with l have "trace (snd (handleBlock env s)) = trace s3 @ later" by simp
    with l(2) show ?thesis by blast
  qed
  then obtain later where hl: "trace (snd (handleBlock env s)) = trace s3 @ later"
    and ql: "replacementReasons later = replicate (length (replaceCalls later)) ''stuck''"
    by blast
  from gt gp hl have ht: "trace (snd (handleBlock env s)) =
       trace s2 @ Log Trace ''fetched gas price parameters'' [] #
         map ExecutorReplaceTransaction ?started @ conts @ later"
    by simp
  have ex: "\<exists>started conts later.
       distinct started \<and>
       (\<forall>txInfo. (txInfo \<in> set started) =
          (txInfo \<in> transactionInfo ` set (mempoolDumpSubmittedOps env (mempool s2)) \<and>
           (maxFeePerGas (transactionRequest (heap s2 txInfo)) < oracleMaxFeePerGas gp \<or>
            maxPriorityFeePerGas (transactionRequest (heap s2 txInfo)) < oracleMaxPriorityFeePerGas gp))) \<and>
       started = ?started \<and>
       trace (snd (gasPricePass env gp ?s3)) =
         trace s2 @ Log Trace ''fetched gas price parameters'' [] #
           map ExecutorReplaceTransaction started @ conts \<and>
       trace (snd (handleBlock env s)) =
         trace s2 @ Log Trace ''fetched gas price parameters'' [] #
           map ExecutorReplaceTransaction started @ conts @ later \<and>
       replaceCalls conts = [] \<and>
       replacementReasons conts = replicate (length started) ''gas_price'' \<and>
       replacementReasons later = replicate (length (replaceCalls later)) ''stuck''"
    by (intro exI[of _ ?started] exI[of _ conts] exI[of _ later] conjI dist mem refl gt ht q ql)
  from tick ex show ?thesis by (rule conjI)
qed

text \<open>With the oracle at the fees of the only submitted transaction the tick replaces
  nothing; with the oracle's \<open>maxFeePerGas\<close> at 11 and two submitted transactions paying
  10 and 12, it replaces the first one only.\<close>

theorem handleBlock_gas_price_replacements_witness:
  "handleBlock demoEnv demoState =
     (None, demoState\<lparr>trace :=
        [Log Debug ''handling block'' [],
         Log Trace ''user op still pending'' [''0xA1'', ''0xT1''],
         Log Trace ''fetched gas price parameters'' []]\<rparr>) \<and>
   fst (handleBlock risingEnv twoTxState) = None \<and>
   trace (snd (handleBlock risingEnv twoTxState)) =
     [Log Debug ''handling block'' [],
      Log Trace ''user op still pending'' [''0xA1'', ''0xT1''],
      Log Trace ''user op still pending'' [''0xA2'', ''0xT2''],
      Log Trace ''fetched gas price parameters'' [],
      ExecutorReplaceTransaction 0,
      MetricInc ''replacedTransactions'' [''gas_price'', ''failed''] 1,
      MempoolRemoveSubmitted ''0xA1'',
      Log Warn ''failed to replace transaction'' [''0xT1'']] \<and>
   submittedOps (mempool (snd (handleBlock risingEnv twoTxState))) =
     [\<lparr>userOperation = demoOp ''0xA2'' ''0xE1'', transactionInfo = 1\<rparr>]"
proof -
  define sa where "sa = demoState\<lparr>currentlyHandlingBlock := True, trace :=
        [Log Debug ''handling block'' [], Log Trace ''user op still pending'' [''0xA1'', ''0xT1'']]\<rparr>"
  define sb where "sb = twoTxState\<lparr>currentlyHandlingBlock := True, trace :=
        [Log Debug ''handling block'' [], Log Trace ''user op still pending'' [''0xA1'', ''0xT1''],
         Log Trace ''user op still pending'' [''0xA2'', ''0xT2'']]\<rparr>"
  have idle: "\<not> currentlyHandlingBlock demoState" "\<not> currentlyHandlingBlock twoTxState"
    by (simp_all add: twoTxState_def demoState_def)
  have entries: "mempoolDumpSubmittedOps demoEnv (mempool demoState) \<noteq> []"
     "mempoolDumpSubmittedOps risingEnv (mempool twoTxState) \<noteq> []"
    by (simp_all add: risingEnv_def twoTxState_def demo_defs)
  have ra: "refreshUserOperationStatuses demoEnv
        (emit (Log Debug ''handling block'' []) (demoState\<lparr>currentlyHandlingBlock := True\<rparr>)) = (None, sa)"
    by (simp add: sa_def demo_defs emit_def Let_def refreshUserOperationStatuses_def
        mapPush_def getTransactionsFromUserOperationEntries_def setAdd_def refreshTransactionStatus_def
        txHashesToCheck_def finalizedTransaction_def isIncluded_def isReverted_def statusString_def
        logPending_def)
  have rb: "refreshUserOperationStatuses risingEnv
        (emit (Log Debug ''handling block'' []) (twoTxState\<lparr>currentlyHandlingBlock := True\<rparr>)) = (None, sb)"
    by (simp add: sb_def risingEnv_def twoTxState_def demo_defs emit_def Let_def refreshUserOperationStatuses_def
        mapPush_def getTransactionsFromUserOperationEntries_def setAdd_def refreshTransactionStatus_def
        txHashesToCheck_def finalizedTransaction_def isIncluded_def isReverted_def statusString_def
        logPending_def)
  have oa: "getGasPrice demoEnv = Inr \<lparr>oracleMaxFeePerGas = 10, oracleMaxPriorityFeePerGas = 2\<rparr>"
    by (simp add: demoEnv_def)
  have ob: "getGasPrice risingEnv = Inr \<lparr>oracleMaxFeePerGas = 11, oracleMaxPriorityFeePerGas = 2\<rparr>"
    by (simp add: risingEnv_def)
  note a = handleBlock_gas_price_replacements[OF idle(1) entries(1) ra oa, THEN conjunct1]
  note b = handleBlock_gas_price_replacements[OF idle(2) entries(2) rb ob, THEN conjunct1]
  have first: "handleBlock demoEnv demoState =
     (None, demoState\<lparr>trace :=
        [Log Debug ''handling block'' [],
         Log Trace ''user op still pending'' [''0xA1'', ''0xT1''],
         Log Trace ''fetched gas price parameters'' []]\<rparr>)"
    unfolding a
    by (simp add: sa_def gasPricePass_def stuckPass_def gasPriceStart_def stuckStart_def feesSufficient_def
        getTransactionsFromUserOperationEntries_def setAdd_def emit_def demo_defs)
  have second: "handleBlock risingEnv twoTxState =
     (None, twoTxState\<lparr>mempool := demoMempool\<lparr>submittedOps :=
          [\<lparr>userOperation = demoOp ''0xA2'' ''0xE1'', transactionInfo = 1\<rparr>]\<rparr>,
        trace :=
          [Log Debug ''handling block'' [],
           Log Trace ''user op still pending'' [''0xA1'', ''0xT1''],
           Log Trace ''user op still pending'' [''0xA2'', ''0xT2''],
           Log Trace ''fetched gas price parameters'' [],
           ExecutorReplaceTransaction 0,
           MetricInc ''replacedTransactions'' [''gas_price'', ''failed''] 1,
           MempoolRemoveSubmitted ''0xA1'',
           Log Warn ''failed to replace transaction'' [''0xT1'']]\<rparr>)"
    unfolding b
    by (simp add: sb_def gasPricePass_def stuckPass_def gasPriceStart_def stuckStart_def feesSufficient_def
        getTransactionsFromUserOperationEntries_def setAdd_def emit_def risingEnv_def twoTxState_def
        demo_defs resumeReplaceTransaction_def callExecutorReplace_def resultStatus_def Let_def
        removeSubmittedOps_def removeSubmittedOp_def)
  from first second show ?thesis by simp
qed

lemma handleBlock_busy:
  "currentlyHandlingBlock s \<Longrightarrow> handleBlock env s = (None, s)"
  by (simp add: handleBlock_def)

lemma handleBlock_returns_clears_guard:
  "fst (handleBlock env s) = None \<Longrightarrow> \<not> currentlyHandlingBlock s \<Longrightarrow>
     \<not> currentlyHandlingBlock (snd (handleBlock env s))"
  by (auto simp: handleBlock_def Let_def split: if_splits prod.splits option.splits sum.splits)

text \<open>
  Claim C1. The guard \<open>currentlyHandlingBlock\<close> should be false whenever no tick is in
  flight, and no error should leave a tick. The code has no handler around the awaited
  steps: with one operation submitted, a chain that does not know its transaction yet and
  a gas oracle that fails, the error leaves \<^verbatim>\<open>handleBlock\<close> and the guard stays true,
  so that the next tick returns at once without doing anything.
\<close>

theorem handleBlock_guard_stuck_after_error:
  "handleBlock gasFailEnv demoState =
     (Some (RpcError ''gas price unavailable''),
      demoState\<lparr>currentlyHandlingBlock := True,
        trace := [Log Debug ''handling block'' [], Log Trace ''user op still pending'' [''0xA1'', ''0xT1'']]\<rparr>) \<and>
   \<not> currentlyHandlingBlock demoState \<and>
   currentlyHandlingBlock (snd (handleBlock gasFailEnv demoState)) \<and>
   handleBlock gasFailEnv (snd (handleBlock gasFailEnv demoState)) =
     (None, snd (handleBlock gasFailEnv demoState))"
proof -
  have run: "handleBlock gasFailEnv demoState =
     (Some (RpcError ''gas price unavailable''),
      demoState\<lparr>currentlyHandlingBlock := True,
        trace := [Log Debug ''handling block'' [], Log Trace ''user op still pending'' [''0xA1'', ''0xT1'']]\<rparr>)"
    by (simp add: handleBlock_def gasFailEnv_def demo_defs emit_def Let_def refreshUserOperationStatuses_def
        mapPush_def getTransactionsFromUserOperationEntries_def setAdd_def refreshTransactionStatus_def
        txHashesToCheck_def finalizedTransaction_def isIncluded_def isReverted_def statusString_def
        logPending_def)
  have idle: "\<not> currentlyHandlingBlock demoState" by (simp add: demoState_def)
  have busy: "currentlyHandlingBlock (snd (handleBlock gasFailEnv demoState))"
    by (simp add: run)
  from run idle busy handleBlock_busy[OF busy] show ?thesis by simp
qed


section \<open>Receipt reconstructor: the receipt fetch\<close>

lemma getTransactionReceipt_retries:
  "(\<forall>j < n. receiptAttempt rpc h (k + j) = Inl TransactionReceiptNotFoundError) \<Longrightarrow>
   receiptAttempt rpc h (k + n) \<noteq> Inl TransactionReceiptNotFoundError \<Longrightarrow>
   getTransactionReceipt rpc h k = Some (receiptAttempt rpc h (k + n))"
proof (induction n arbitrary: k)
  case 0
  then show ?case by (subst getTransactionReceipt.simps) simp
next
  case (Suc n)
  from Suc.prems(1) have first: "receiptAttempt rpc h k = Inl TransactionReceiptNotFoundError"
    by (metis add.right_neutral zero_less_Suc)
  have rest: "\<forall>j < n. receiptAttempt rpc h (Suc k + j) = Inl TransactionReceiptNotFoundError"
    using Suc.prems(1) by (metis Suc_less_eq add_Suc_shift)
  have last: "receiptAttempt rpc h (Suc k + n) \<noteq> Inl TransactionReceiptNotFoundError"
    using Suc.prems(2) by simp
  have "getTransactionReceipt rpc h k = getTransactionReceipt rpc h (Suc k)"
    using first by (subst getTransactionReceipt.simps) simp
  also have "\<dots> = Some (receiptAttempt rpc h (Suc k + n))"
    by (rule Suc.IH[OF rest last])
  finally show ?case by simp
qed

lemma getTransactionReceipt_returns_imp:
  "getTransactionReceipt rpc h k = Some y \<Longrightarrow>
   \<exists>j. receiptAttempt rpc h (k + j) \<noteq> Inl TransactionReceiptNotFoundError"
proof (induction rpc h k y rule: getTransactionReceipt.raw_induct[rotated 1, consumes 1, case_names step])
  case (step f rpc h k y)
  show ?case
  proof (cases "receiptAttempt rpc h k = Inl TransactionReceiptNotFoundError")
    case True
    with step(2) have "f rpc h (Suc k) = Some y" by simp
    from step(1)[OF this] obtain j where
      "receiptAttempt rpc h (Suc k + j) \<noteq> Inl TransactionReceiptNotFoundError" ..
    then have "receiptAttempt rpc h (k + Suc j) \<noteq> Inl TransactionReceiptNotFoundError" by simp
    then show ?thesis by blast
  next
    case False
    then have "receiptAttempt rpc h (k + 0) \<noteq> Inl TransactionReceiptNotFoundError" by simp
    then show ?thesis by blast
  qed
qed

lemma getTransactionReceipt_never_returns:
  "(\<forall>j. receiptAttempt rpc h (k + j) = Inl TransactionReceiptNotFoundError) \<Longrightarrow>
   getTransactionReceipt rpc h k = None"
  using getTransactionReceipt_returns_imp[of rpc h k]
  by (cases "getTransactionReceipt rpc h k") auto

lemma receiptAttempt_cases:
  "getTransactionReceiptRpc rpc k h = Inl e \<Longrightarrow> receiptAttempt rpc h k = Inl e"
  "getTransactionReceiptRpc rpc k h = Inr r \<Longrightarrow> effectiveGasPrice r = None \<Longrightarrow> receiptGasPrice r = None \<Longrightarrow>
     getTransactionRpc rpc k h = Inl e \<Longrightarrow> receiptAttempt rpc h k = Inl e"
  "getTransactionReceiptRpc rpc k h = Inr r \<Longrightarrow> effectiveGasPrice r = None \<Longrightarrow> receiptGasPrice r = None \<Longrightarrow>
     getTransactionRpc rpc k h = Inr tx \<Longrightarrow> txGasPrice tx = Some p \<Longrightarrow> p \<noteq> 0 \<Longrightarrow>
     receiptAttempt rpc h k = Inr (r\<lparr>effectiveGasPrice := Some p\<rparr>)"
  "getTransactionReceiptRpc rpc k h = Inr r \<Longrightarrow> effectiveGasPrice r = None \<Longrightarrow> receiptGasPrice r = None \<Longrightarrow>
     getTransactionRpc rpc k h = Inr tx \<Longrightarrow> txGasPrice tx = None \<or> txGasPrice tx = Some 0 \<Longrightarrow>
     receiptAttempt rpc h k = Inr r"
  "getTransactionReceiptRpc rpc k h = Inr r \<Longrightarrow> effectiveGasPrice r = None \<Longrightarrow> receiptGasPrice r = Some q \<Longrightarrow>
     receiptAttempt rpc h k = Inr (if q \<noteq> 0 then r\<lparr>effectiveGasPrice := Some q\<rparr> else r)"
  "getTransactionReceiptRpc rpc k h = Inr r \<Longrightarrow> effectiveGasPrice r = Some p \<Longrightarrow>
     receiptAttempt rpc h k = Inr r"
  by (auto simp: receiptAttempt_def nullish_def setEffectiveGasPrice_def)

text \<open>
  Claim C8, as amended. The receipt fetch repeats its attempt as long as an attempt ends
  in the receipt-not-found error, and only then: the first attempt that ends otherwise
  gives the result, be it a receipt or another error of \<^verbatim>\<open>getTransactionReceipt\<close> or of
  \<^verbatim>\<open>getTransaction\<close>; if every attempt ends in receipt-not-found the fetch never returns.
  A receipt without \<open>effectiveGasPrice\<close> takes it from the receipt's own \<open>gasPrice\<close> when
  that is present, and only otherwise from the transaction's \<open>gasPrice\<close>; a price of
  zero, or none, is not written.
\<close>

theorem getTransactionReceipt_retry_and_backfill:
  "(\<forall>n. (\<forall>j < n. receiptAttempt rpc h j = Inl TransactionReceiptNotFoundError) \<and>
         receiptAttempt rpc h n \<noteq> Inl TransactionReceiptNotFoundError \<longrightarrow>
         getTransactionReceipt rpc h 0 = Some (receiptAttempt rpc h n)) \<and>
   ((\<forall>j. receiptAttempt rpc h j = Inl TransactionReceiptNotFoundError) \<longrightarrow>
      getTransactionReceipt rpc h 0 = None) \<and>
   (\<forall>k e. getTransactionReceiptRpc rpc k h = Inl e \<longrightarrow> receiptAttempt rpc h k = Inl e) \<and>
   (\<forall>k r e. getTransactionReceiptRpc rpc k h = Inr r \<and> effectiveGasPrice r = None \<and>
      receiptGasPrice r = None \<and> getTransactionRpc rpc k h = Inl e \<longrightarrow>
      receiptAttempt rpc h k = Inl e) \<and>
   (\<forall>k r tx p. getTransactionReceiptRpc rpc k h = Inr r \<and> effectiveGasPrice r = None \<and>
      receiptGasPrice r = None \<and> getTransactionRpc rpc k h = Inr tx \<and> txGasPrice tx = Some p \<and> p \<noteq> 0 \<longrightarrow>
      receiptAttempt rpc h k = Inr (r\<lparr>effectiveGasPrice := Some p\<rparr>)) \<and>
   (\<forall>k r tx. getTransactionReceiptRpc rpc k h = Inr r \<and> effectiveGasPrice r = None \<and>
      receiptGasPrice r = None \<and> getTransactionRpc rpc k h = Inr tx \<and>
      (txGasPrice tx = None \<or> txGasPrice tx = Some 0) \<longrightarrow>
      receiptAttempt rpc h k = Inr r) \<and>
   (\<forall>k r q. getTransactionReceiptRpc rpc k h = Inr r \<and> effectiveGasPrice r = None \<and>
      receiptGasPrice r = Some q \<longrightarrow>
      receiptAttempt rpc h k = Inr (if q \<noteq> 0 then r\<lparr>effectiveGasPrice := Some q\<rparr> else r)) \<and>
   (\<forall>k r p. getTransactionReceiptRpc rpc k h = Inr r \<and> effectiveGasPrice r = Some p \<longrightarrow>
      receiptAttempt rpc h k = Inr r)"
proof -
  have retry: "\<forall>n. (\<forall>j < n. receiptAttempt rpc h j = Inl TransactionReceiptNotFoundError) \<and>
         receiptAttempt rpc h n \<noteq> Inl TransactionReceiptNotFoundError \<longrightarrow>
         getTransactionReceipt rpc h 0 = Some (receiptAttempt rpc h n)"
    using getTransactionReceipt_retries[of _ rpc h 0] by simp
  have never: "(\<forall>j. receiptAttempt rpc h j = Inl TransactionReceiptNotFoundError) \<longrightarrow>
      getTransactionReceipt rpc h 0 = None"
    using getTransactionReceipt_never_returns[of rpc h 0] by simp
  show ?thesis
    using retry never receiptAttempt_cases[of rpc _ h]
    by (intro conjI allI impI; (elim conjE)?; blast)
qed

theorem getTransactionReceipt_retry_and_backfill_witness:
  "getTransactionReceipt demoRpc ''0xT1'' 0 = Some (Inr (demoReceipt\<lparr>effectiveGasPrice := Some 7\<rparr>)) \<and>
   getTransactionReceipt failingRpc ''0xT1'' 0 = Some (Inl (RpcError ''connection reset''))"
proof -
  have a: "(\<forall>j < 2. receiptAttempt demoRpc ''0xT1'' j = Inl TransactionReceiptNotFoundError) \<and>
           receiptAttempt demoRpc ''0xT1'' 2 \<noteq> Inl TransactionReceiptNotFoundError"
    by (simp add: receiptAttempt_def demoRpc_def demoReceipt_def nullish_def setEffectiveGasPrice_def)
  have a2: "receiptAttempt demoRpc ''0xT1'' 2 = Inr (demoReceipt\<lparr>effectiveGasPrice := Some 7\<rparr>)"
    by (simp add: receiptAttempt_def demoRpc_def demoReceipt_def nullish_def setEffectiveGasPrice_def)
  have b: "(\<forall>j < 1. receiptAttempt failingRpc ''0xT1'' j = Inl TransactionReceiptNotFoundError) \<and>
           receiptAttempt failingRpc ''0xT1'' 1 \<noteq> Inl TransactionReceiptNotFoundError"
    by (simp add: receiptAttempt_def failingRpc_def demoRpc_def)
  have b2: "receiptAttempt failingRpc ''0xT1'' 1 = Inl (RpcError ''connection reset'')"
    by (simp add: receiptAttempt_def failingRpc_def demoRpc_def)
  have "getTransactionReceipt demoRpc ''0xT1'' 0 = Some (receiptAttempt demoRpc ''0xT1'' 2)"
    by (rule getTransactionReceipt_retry_and_backfill[of demoRpc "''0xT1''", THEN conjunct1, THEN spec,
          of 2, THEN mp, OF a])
  moreover
  have "getTransactionReceipt failingRpc ''0xT1'' 0 = Some (receiptAttempt failingRpc ''0xT1'' 1)"
    by (rule getTransactionReceipt_retry_and_backfill[of failingRpc "''0xT1''", THEN conjunct1, THEN spec,
          of 1, THEN mp, OF b])
  ultimately show ?thesis by (simp only: a2 b2)
qed

text \<open>The claim as stated fails where the receipt has a gas price of its own: the
  transaction's price is 7, and the receipt is completed with its own price 5.\<close>

theorem backfill_prefers_receipt_gasPrice:
  "effectiveGasPrice (demoReceipt\<lparr>receiptGasPrice := Some 5\<rparr>) = None \<and>
   getTransactionReceiptRpc pricedRpc 0 ''0xT1'' = Inr (demoReceipt\<lparr>receiptGasPrice := Some 5\<rparr>) \<and>
   getTransactionRpc pricedRpc 0 ''0xT1'' = Inr \<lparr>txGasPrice = Some 7\<rparr> \<and>
   getTransactionReceipt pricedRpc ''0xT1'' 0 =
     Some (Inr (demoReceipt\<lparr>receiptGasPrice := Some 5, effectiveGasPrice := Some 5\<rparr>)) \<and>
   getTransactionReceipt pricedRpc ''0xT1'' 0 \<noteq>
     Some (Inr (demoReceipt\<lparr>receiptGasPrice := Some 5, effectiveGasPrice := Some 7\<rparr>))"
proof -
  have att: "receiptAttempt pricedRpc ''0xT1'' 0 =
      Inr (demoReceipt\<lparr>receiptGasPrice := Some 5, effectiveGasPrice := Some 5\<rparr>)"
    by (simp add: receiptAttempt_def pricedRpc_def demoRpc_def demoReceipt_def nullish_def
        setEffectiveGasPrice_def)
  have run: "getTransactionReceipt pricedRpc ''0xT1'' 0 =
      Some (Inr (demoReceipt\<lparr>receiptGasPrice := Some 5, effectiveGasPrice := Some 5\<rparr>))"
    by (subst getTransactionReceipt.simps) (simp add: att)
  have ne: "demoReceipt\<lparr>receiptGasPrice := Some 5, effectiveGasPrice := Some 5\<rparr> \<noteq>
            demoReceipt\<lparr>receiptGasPrice := Some 5, effectiveGasPrice := Some 7\<rparr>"
    by (simp add: demoReceipt_def)
  show ?thesis
    using run ne by (simp add: pricedRpc_def demoRpc_def demoReceipt_def)
qed


section \<open>Receipt reconstructor: the logs of the operation\<close>

lemma revertStep_indices:
  "revertStep rpc ev l st = Inr st' \<Longrightarrow>
     startIndex st' = startIndex st \<and> endIndex st' = endIndex st \<and> scanEntryPoint st' = scanEntryPoint st"
  by (auto simp: revertStep_def split: if_splits sum.splits)

lemma scanLogs_append:
  "scanLogs rpc ev i (xs @ ys) st =
     (case scanLogs rpc ev i xs st of Inl e \<Rightarrow> Inl e | Inr st1 \<Rightarrow> scanLogs rpc ev (i + length xs) ys st1)"
  by (induction xs arbitrary: i st) (auto split: sum.splits)

lemma scanLogs_after:
  "scanLogs rpc ev i ls st = Inr st' \<Longrightarrow> \<forall>l \<in> set ls. \<not> ourEvent ev l \<Longrightarrow> endIndex st \<noteq> -1 \<Longrightarrow>
     startIndex st' = startIndex st \<and> endIndex st' = endIndex st \<and> scanEntryPoint st' = scanEntryPoint st"
proof (induction ls arbitrary: i st)
  case Nil
  then show ?case by simp
next
  case (Cons l ls)
  from Cons.prems(1) obtain st1 where r: "revertStep rpc ev l (indexStep ev i l st) = Inr st1"
    and rest: "scanLogs rpc ev (Suc i) ls st1 = Inr st'"
    by (auto split: sum.splits)
  have ix: "startIndex (indexStep ev i l st) = startIndex st \<and> endIndex (indexStep ev i l st) = endIndex st
      \<and> scanEntryPoint (indexStep ev i l st) = scanEntryPoint st"
    using Cons.prems(2,3) by (simp add: indexStep_def ourEvent_def)
  with revertStep_indices[OF r] have st1: "startIndex st1 = startIndex st" "endIndex st1 = endIndex st"
     "scanEntryPoint st1 = scanEntryPoint st" by simp_all
  from Cons.IH[OF rest] Cons.prems(2,3) st1 show ?case by simp
qed

lemma scanLogs_before:
  "scanLogs rpc ev i ls st = Inr st' \<Longrightarrow> \<forall>l \<in> set ls. \<not> ourEvent ev l \<Longrightarrow> endIndex st = -1 \<Longrightarrow>
     endIndex st' = -1 \<and>
     (((\<forall>l \<in> set ls. \<not> otherEvent ev l) \<and> startIndex st' = startIndex st) \<or>
      (\<exists>j < length ls. otherEvent ev (ls ! j) \<and> startIndex st' = int (i + j) \<and>
          (\<forall>k. j < k \<and> k < length ls \<longrightarrow> \<not> otherEvent ev (ls ! k))))"
proof (induction ls arbitrary: i st)
  case Nil
  then show ?case by simp
next
  case (Cons l ls)
  from Cons.prems(1) obtain st1 where r: "revertStep rpc ev l (indexStep ev i l st) = Inr st1"
    and rest: "scanLogs rpc ev (Suc i) ls st1 = Inr st'"
    by (auto split: sum.splits)
  have notours: "\<not> ourEvent ev l" "\<forall>l \<in> set ls. \<not> ourEvent ev l" using Cons.prems(2) by simp_all
  have ix: "endIndex (indexStep ev i l st) = -1"
       "startIndex (indexStep ev i l st) = (if otherEvent ev l then int i else startIndex st)"
    using notours(1) Cons.prems(3) by (auto simp: indexStep_def ourEvent_def otherEvent_def)
  with revertStep_indices[OF r] have st1: "endIndex st1 = -1"
    "startIndex st1 = (if otherEvent ev l then int i else startIndex st)" by simp_all
  from Cons.IH[OF rest notours(2) st1(1)]
  have e': "endIndex st' = -1"
    and alt: "((\<forall>l \<in> set ls. \<not> otherEvent ev l) \<and> startIndex st' = startIndex st1) \<or>
      (\<exists>j < length ls. otherEvent ev (ls ! j) \<and> startIndex st' = int (Suc i + j) \<and>
          (\<forall>k. j < k \<and> k < length ls \<longrightarrow> \<not> otherEvent ev (ls ! k)))"
    by simp_all
  from alt show ?case
  proof
    assume a: "(\<forall>l \<in> set ls. \<not> otherEvent ev l) \<and> startIndex st' = startIndex st1"
    show ?thesis
    proof (cases "otherEvent ev l")
      case True
      have "otherEvent ev ((l # ls) ! 0) \<and> startIndex st' = int (i + 0) \<and>
          (\<forall>k. 0 < k \<and> k < length (l # ls) \<longrightarrow> \<not> otherEvent ev ((l # ls) ! k))"
        using True a st1(2) by (auto simp: nth_Cons split: nat.splits)
      then have "\<exists>j < length (l # ls). otherEvent ev ((l # ls) ! j) \<and> startIndex st' = int (i + j) \<and>
          (\<forall>k. j < k \<and> k < length (l # ls) \<longrightarrow> \<not> otherEvent ev ((l # ls) ! k))"
        by (intro exI[of _ 0]) simp
      with e' show ?thesis by blast
    next
      case False
      with a st1(2) e' show ?thesis by simp
    qed
  next
    assume "\<exists>j < length ls. otherEvent ev (ls ! j) \<and> startIndex st' = int (Suc i + j) \<and>
          (\<forall>k. j < k \<and> k < length ls \<longrightarrow> \<not> otherEvent ev (ls ! k))"
    then obtain j where j: "j < length ls" "otherEvent ev (ls ! j)" "startIndex st' = int (Suc i + j)"
       "\<forall>k. j < k \<and> k < length ls \<longrightarrow> \<not> otherEvent ev (ls ! k)" by blast
    have "Suc j < length (l # ls) \<and> otherEvent ev ((l # ls) ! Suc j) \<and> startIndex st' = int (i + Suc j) \<and>
          (\<forall>k. Suc j < k \<and> k < length (l # ls) \<longrightarrow> \<not> otherEvent ev ((l # ls) ! k))"
      using j by (auto simp: nth_Cons split: nat.splits)
    then have "\<exists>j < length (l # ls). otherEvent ev ((l # ls) ! j) \<and> startIndex st' = int (i + j) \<and>
          (\<forall>k. j < k \<and> k < length (l # ls) \<longrightarrow> \<not> otherEvent ev ((l # ls) ! k))"
      by blast
    with e' show ?thesis by blast
  qed
qed

lemma slice_between:
  "0 \<le> a \<Longrightarrow> nat a \<le> length pre \<Longrightarrow> slice (pre @ x # post) a (int (length pre)) = drop (nat a) pre"
  by (simp add: slice_def sliceIndex_def min_def)

text \<open>
  Claim C6, as amended. Let the logs of the receipt hold exactly one
  \<^verbatim>\<open>UserOperationEvent\<close> whose second topic is the queried hash. After the scan,
  \<open>endIndex\<close> is the index of that event and \<open>startIndex\<close> is the index of the last
  \<^verbatim>\<open>UserOperationEvent\<close> of another operation before it, or \<open>-1\<close> when there is none. The
  logs given to the operation are the logs strictly between the two indices. When no
  event of another operation precedes it (the operation is the first of the transaction),
  these are all the logs before its own event, so the slice is empty only when its
  event is the first log of the receipt.
\<close>

theorem filteredLogs_between_events:
  assumes scan: "scanLogs rpc ev 0 (pre @ x # post) initialScan = Inr st"
    and ours: "ourEvent ev x"
    and uniq: "\<forall>l \<in> set pre \<union> set post. \<not> ourEvent ev l"
  shows "endIndex st = int (length pre) \<and> scanEntryPoint st = logAddress x \<and>
     (((\<forall>l \<in> set pre. \<not> otherEvent ev l) \<and> startIndex st = -1) \<or>
      (\<exists>j < length pre. otherEvent ev (pre ! j) \<and> startIndex st = int j \<and>
          (\<forall>k. j < k \<and> k < length pre \<longrightarrow> \<not> otherEvent ev (pre ! k)))) \<and>
     filteredLogs (pre @ x # post) st = drop (nat (startIndex st + 1)) pre \<and>
     ((\<forall>l \<in> set pre. \<not> otherEvent ev l) \<longrightarrow>
        filteredLogs (pre @ x # post) st = pre \<and>
        (filteredLogs (pre @ x # post) st = [] \<longleftrightarrow> pre = []))"
proof -
  from scan obtain st1 where a: "scanLogs rpc ev 0 pre initialScan = Inr st1"
    and b: "scanLogs rpc ev (length pre) (x # post) st1 = Inr st"
    by (auto simp: scanLogs_append split: sum.splits)
  from b obtain st2 where r: "revertStep rpc ev x (indexStep ev (length pre) x st1) = Inr st2"
    and c: "scanLogs rpc ev (Suc (length pre)) post st2 = Inr st"
    by (auto split: sum.splits)
  from uniq have np: "\<forall>l \<in> set pre. \<not> ourEvent ev l" and nq: "\<forall>l \<in> set post. \<not> ourEvent ev l"
    by simp_all
  have e0: "endIndex initialScan = -1" "startIndex initialScan = -1"
    by (simp_all add: initialScan_def)
  from scanLogs_before[OF a np e0(1)] e0(2)
  have s1: "((\<forall>l \<in> set pre. \<not> otherEvent ev l) \<and> startIndex st1 = -1) \<or>
      (\<exists>j < length pre. otherEvent ev (pre ! j) \<and> startIndex st1 = int j \<and>
          (\<forall>k. j < k \<and> k < length pre \<longrightarrow> \<not> otherEvent ev (pre ! k)))"
    by simp
  have ix: "endIndex (indexStep ev (length pre) x st1) = int (length pre)"
      "startIndex (indexStep ev (length pre) x st1) = startIndex st1"
      "scanEntryPoint (indexStep ev (length pre) x st1) = logAddress x"
    using ours by (simp_all add: indexStep_def ourEvent_def)
  with revertStep_indices[OF r] have s2: "endIndex st2 = int (length pre)"
      "startIndex st2 = startIndex st1" "scanEntryPoint st2 = logAddress x"
    by simp_all
  have ne: "endIndex st2 \<noteq> -1" using s2(1) by simp
  from scanLogs_after[OF c nq ne] s2 have fin: "endIndex st = int (length pre)"
      "startIndex st = startIndex st1" "scanEntryPoint st = logAddress x"
    by simp_all
  from s1 fin(2) have start: "((\<forall>l \<in> set pre. \<not> otherEvent ev l) \<and> startIndex st = -1) \<or>
      (\<exists>j < length pre. otherEvent ev (pre ! j) \<and> startIndex st = int j \<and>
          (\<forall>k. j < k \<and> k < length pre \<longrightarrow> \<not> otherEvent ev (pre ! k)))"
    by simp
  then have bounds: "0 \<le> startIndex st + 1" "nat (startIndex st + 1) \<le> length pre"
    by auto
  have sl: "filteredLogs (pre @ x # post) st = drop (nat (startIndex st + 1)) pre"
    unfolding filteredLogs_def fin(1) by (rule slice_between[OF bounds])
  have first: "(\<forall>l \<in> set pre. \<not> otherEvent ev l) \<longrightarrow>
        filteredLogs (pre @ x # post) st = pre \<and>
        (filteredLogs (pre @ x # post) st = [] \<longleftrightarrow> pre = [])"
  proof
    assume no: "\<forall>l \<in> set pre. \<not> otherEvent ev l"
    with start have "startIndex st = -1" by (metis nth_mem)
    with sl show "filteredLogs (pre @ x # post) st = pre \<and>
        (filteredLogs (pre @ x # post) st = [] \<longleftrightarrow> pre = [])" by simp
  qed
  from fin(1,3) start sl first show ?thesis by blast
qed

theorem filteredLogs_between_events_witness:
  "scanLogs demoRpc demoTopics 0 threeOpLogs initialScan =
     Inr \<lparr>startIndex = 0, endIndex = 2, scanEntryPoint = ''0xE1'', scanRevertReason = None\<rparr> \<and>
   filteredLogs threeOpLogs
     \<lparr>startIndex = 0, endIndex = 2, scanEntryPoint = ''0xE1'', scanRevertReason = None\<rparr> = [transferLog]"
proof -
  let ?st = "\<lparr>startIndex = 0, endIndex = 2, scanEntryPoint = ''0xE1'', scanRevertReason = None\<rparr>"
  let ?pre = "[demoLog ''0xE1'' [''0xUSEROPEVENT'', ''0xA0''] 0, transferLog]"
  let ?post = "[demoLog ''0xE1'' [''0xUSEROPEVENT'', ''0xA2''] 3]"
  have split: "threeOpLogs = ?pre @ ourLog # ?post" by (simp add: threeOpLogs_def)
  have scan: "scanLogs demoRpc demoTopics 0 (?pre @ ourLog # ?post) initialScan = Inr ?st"
    by (simp add: initialScan_def indexStep_def revertStep_def isUserOperationEvent_def hasOurHash_def
        topicAt_def demoRpc_def demoTopics_def demoLog_def transferLog_def ourLog_def)
  have ours: "ourEvent demoTopics ourLog"
    by (simp add: ourEvent_def isUserOperationEvent_def hasOurHash_def topicAt_def ourLog_def demoLog_def)
  have uniq: "\<forall>l \<in> set ?pre \<union> set ?post. \<not> ourEvent demoTopics l"
    by (simp add: ourEvent_def isUserOperationEvent_def hasOurHash_def topicAt_def demoTopics_def
        demoLog_def transferLog_def)
  from filteredLogs_between_events[OF scan ours uniq]
  have "filteredLogs (?pre @ ourLog # ?post) ?st = drop (nat (startIndex ?st + 1)) ?pre"
    by blast
  then have fl: "filteredLogs threeOpLogs ?st = [transferLog]" by (simp add: split)
  from scan have sc: "scanLogs demoRpc demoTopics 0 threeOpLogs initialScan = Inr ?st"
    by (simp only: split)
  from sc fl show ?thesis by (rule conjI)
qed

text \<open>The claim as stated fails for an operation that is the first and only one of its
  transaction when a log precedes its event: the receipt built for \<open>0xA1\<close> from the
  receipt with a transfer log and the operation's event holds the transfer log.\<close>

theorem first_and_only_op_logs_not_empty:
  "map (isUserOperationEvent demoTopics) (receiptLogs demoReceipt) = [False, True] \<and>
   getUserOperationReceipt demoRpc ''0xA1'' =
     Some (Inr (Some
       \<lparr>resUserOpHash = ''0xA1'', resEntryPoint = ''0xE1'', resSender = ''0xS1'', resNonce = 0,
        resPaymaster = None, resActualGasUsed = 3, resActualGasCost = 21, resSuccess = True,
        resReason = None, resLogs = [transferLog],
        resReceipt = demoReceipt\<lparr>effectiveGasPrice := Some 7\<rparr>\<rparr>)) \<and>
   [transferLog] \<noteq> []"
proof -
  have a: "(\<forall>j < 2. receiptAttempt demoRpc ''0xT1'' j = Inl TransactionReceiptNotFoundError) \<and>
           receiptAttempt demoRpc ''0xT1'' 2 \<noteq> Inl TransactionReceiptNotFoundError"
    by (simp add: receiptAttempt_def demoRpc_def demoReceipt_def nullish_def setEffectiveGasPrice_def)
  have a2: "receiptAttempt demoRpc ''0xT1'' 2 = Inr (demoReceipt\<lparr>effectiveGasPrice := Some 7\<rparr>)"
    by (simp add: receiptAttempt_def demoRpc_def demoReceipt_def nullish_def setEffectiveGasPrice_def)
  have "getTransactionReceipt demoRpc ''0xT1'' 0 = Some (receiptAttempt demoRpc ''0xT1'' (0 + 2))"
    by (rule getTransactionReceipt_retries[of 2 demoRpc "''0xT1''" 0])
       (use a in \<open>simp_all add: numeral_2_eq_2\<close>)
  with a2 have fetch: "getTransactionReceipt demoRpc ''0xT1'' 0 =
      Some (Inr (demoReceipt\<lparr>effectiveGasPrice := Some 7\<rparr>))" by (simp add: numeral_2_eq_2)
  have build: "buildReceipt demoRpc ''0xA1'' demoTopics
      \<lparr>decSender = ''0xS1'', decPaymaster = zeroAddress, decNonce = 0, decSuccess = True,
       decActualGasCost = 21, decActualGasUsed = 3\<rparr> (demoReceipt\<lparr>effectiveGasPrice := Some 7\<rparr>) =
     Inr (Some
       \<lparr>resUserOpHash = ''0xA1'', resEntryPoint = ''0xE1'', resSender = ''0xS1'', resNonce = 0,
        resPaymaster = None, resActualGasUsed = 3, resActualGasCost = 21, resSuccess = True,
        resReason = None, resLogs = [transferLog],
        resReceipt = demoReceipt\<lparr>effectiveGasPrice := Some 7\<rparr>\<rparr>)"
    by (simp add: buildReceipt_def Let_def isPendingLog_def initialScan_def indexStep_def revertStep_def
        isUserOperationEvent_def hasOurHash_def topicAt_def filteredLogs_def slice_def sliceIndex_def
        demoRpc_def demoTopics_def demoLog_def transferLog_def ourLog_def demoReceipt_def)
  have flds: "rpcMaxBlockRange demoRpc = None" "getLogs demoRpc addrs fromBlock toLatest h = Inr [demoEvent]"
    for addrs fromBlock toLatest h
    by (simp_all add: demoRpc_def)
  have run: "getUserOperationReceipt demoRpc ''0xA1'' =
      Some (buildReceipt demoRpc ''0xA1'' demoTopics
      \<lparr>decSender = ''0xS1'', decPaymaster = zeroAddress, decNonce = 0, decSuccess = True,
       decActualGasCost = 21, decActualGasUsed = 3\<rparr> (demoReceipt\<lparr>effectiveGasPrice := Some 7\<rparr>))"
    by (simp add: getUserOperationReceipt_def blockRange_def definedArgs_def fetch flds demoEvent_def)
  have uoe: "map (isUserOperationEvent demoTopics) (receiptLogs demoReceipt) = [False, True]"
    by (simp add: isUserOperationEvent_def topicAt_def demoReceipt_def demoTopics_def demoLog_def
        transferLog_def ourLog_def)
  from uoe run build show ?thesis by simp
qed


section \<open>Bundling loop\<close>

lemma startWatchingBlocks_fields:
  "heap (startWatchingBlocks s) = heap s"
  "mempool (startWatchingBlocks s) = mempool s"
  "trace (startWatchingBlocks s) =
     trace s @ (if unWatch s then [] else [WatchBlocks, Log Debug ''started watching blocks'' []])"
  by (simp_all add: startWatchingBlocks_def emit_def)

lemma handleResult_heap:
  "heap (snd (handleResult env r (t, s))) = heap s"
  by (cases r) (simp_all add: handleResult_def Let_def emit_fields startWatchingBlocks_fields)


lemma fold_handleResult_heap:
  "heap (snd (fold (handleResult env) rs (t, s))) = heap s"
proof (induction rs arbitrary: t s)
  case Nil
  then show ?case by simp
next
  case (Cons r rs)
  obtain t' s' where step: "handleResult env r (t, s) = (t', s')" by (cases "handleResult env r (t, s)")
  from handleResult_heap[of env r t s] step have "heap s' = heap s" by simp
  with Cons.IH[of t' s'] step show ?case by simp
qed















lemma mapPush_apply:
  "mapPush k v m key =
     (if key = k then Some ((case m k of None \<Rightarrow> [] | Some ys \<Rightarrow> ys) @ [v]) else m key)"
  by (simp add: mapPush_def split: option.splits)

lemma fold_mapPush:
  "fold (\<lambda>opn. mapPush (kf opn) (vf opn)) ops m key =
     (if filter (\<lambda>opn. kf opn = key) ops = [] then m key
      else Some ((case m key of None \<Rightarrow> [] | Some ys \<Rightarrow> ys) @ map vf (filter (\<lambda>opn. kf opn = key) ops)))"
proof (induction ops arbitrary: m)
  case Nil
  then show ?case by simp
next
  case (Cons a ops)
  show ?case
  proof (cases "kf a = key")
    case True
    have mk: "mapPush key (vf a) m key = Some ((case m key of None \<Rightarrow> [] | Some ys \<Rightarrow> ys) @ [vf a])"
      by (simp add: mapPush_apply)
    from True show ?thesis
      by (simp add: Cons.IH mk)
  next
    case False
    then have mk: "mapPush (kf a) (vf a) m key = m key" by (auto simp: mapPush_apply)
    from False show ?thesis by (simp add: Cons.IH mk)
  qed
qed

lemma groupByEntryPoint_filter:
  "groupByEntryPoint ops ep =
     (if filter (\<lambda>opn. entryPoint opn = ep) ops = [] then None
      else Some (map mempoolUserOperation (filter (\<lambda>opn. entryPoint opn = ep) ops)))"
  by (simp add: groupByEntryPoint_def fold_mapPush)

lemma groupByEntryPoint_configured:
  assumes "ep \<in> set (entryPoints env)"
  shows "groupByEntryPoint (filter (configured env) ops) ep = groupByEntryPoint ops ep"
proof -
  have "filter (\<lambda>opn. entryPoint opn = ep) (filter (configured env) ops) =
        filter (\<lambda>opn. entryPoint opn = ep) ops"
  proof -
    have "filter (\<lambda>opn. configured env opn \<and> entryPoint opn = ep) ops =
          filter (\<lambda>opn. entryPoint opn = ep) ops"
    proof (rule filter_cong)
      show "ops = ops" by (rule refl)
    next
      fix x assume "x \<in> set ops"
      show "(configured env x \<and> entryPoint x = ep) = (entryPoint x = ep)"
        using assms by (auto simp: configured_def)
    qed
    then show ?thesis by (simp only: filter_filter)
  qed
  then show ?thesis by (simp only: groupByEntryPoint_filter)
qed

lemma promiseAll_cong:
  "(\<forall>x \<in> set xs. \<forall>s. f x s = g x s) \<Longrightarrow> promiseAll f xs s = promiseAll g xs s"
  by (induction xs arbitrary: s) simp_all

lemma promiseAll_quiet:
  "(\<forall>x \<in> set xs. \<forall>s. f x s = (None, g x s)) \<Longrightarrow> promiseAll f xs s = (None, fold g xs s)"
  by (induction xs arbitrary: s) simp_all

lemma dispatchNow_map:
  "m ep = m' ep \<Longrightarrow> dispatchNow env m ep acc = dispatchNow env m' ep acc"
  by (simp add: dispatchNow_def)

lemma dispatchEntryPoint_map:
  "m ep = m' ep \<Longrightarrow> dispatchEntryPoint env m ep s = dispatchEntryPoint env m' ep s"
  by (simp add: dispatchEntryPoint_def)

lemma bundleNowBatch_configured:
  "bundleNowBatch env ops s = bundleNowBatch env (filter (configured env) ops) s"
proof -
  have "promiseAll (dispatchNow env (groupByEntryPoint ops)) (entryPoints env) ([], s) =
        promiseAll (dispatchNow env (groupByEntryPoint (filter (configured env) ops))) (entryPoints env) ([], s)"
  proof (rule promiseAll_cong, intro ballI allI)
    fix x and acc :: "Hex list \<times> 'a State"
    assume "x \<in> set (entryPoints env)"
    then have "groupByEntryPoint ops x = groupByEntryPoint (filter (configured env) ops) x"
      by (simp add: groupByEntryPoint_configured)
    then show "dispatchNow env (groupByEntryPoint ops) x acc =
               dispatchNow env (groupByEntryPoint (filter (configured env) ops)) x acc"
      by (rule dispatchNow_map)
  qed
  then show ?thesis by (simp add: bundleNowBatch_def)
qed

lemma bundleBatch_configured:
  "bundleBatch env ops s = bundleBatch env (filter (configured env) ops) s"
  unfolding bundleBatch_def
proof (rule promiseAll_cong, intro ballI allI)
  fix x and st :: "'a State"
  assume "x \<in> set (entryPoints env)"
  then have "groupByEntryPoint ops x = groupByEntryPoint (filter (configured env) ops) x"
    by (simp add: groupByEntryPoint_configured)
  then show "dispatchEntryPoint env (groupByEntryPoint ops) x st =
             dispatchEntryPoint env (groupByEntryPoint (filter (configured env) ops)) x st"
    by (rule dispatchEntryPoint_map)
qed

lemma groupByEntryPoint_none:
  "\<forall>opn \<in> set ops. \<not> configured env opn \<Longrightarrow> ep \<in> set (entryPoints env) \<Longrightarrow>
     groupByEntryPoint ops ep = None"
  by (auto simp: groupByEntryPoint_filter configured_def filter_empty_conv)

lemma bundleBatch_all_stray:
  assumes "\<forall>opn \<in> set ops. \<not> configured env opn"
  shows "bundleBatch env ops s = (None, fold warnNoOps (entryPoints env) s)"
  unfolding bundleBatch_def
  by (rule promiseAll_quiet)
     (simp add: groupByEntryPoint_none[OF assms] dispatchEntryPoint_def warnNoOps_def)

lemma promiseAll_quiet_acc:
  "(\<forall>x \<in> set xs. \<forall>t s. f x (t, s) = (None, (t, g x s))) \<Longrightarrow>
     promiseAll f xs (t, s) = (None, (t, fold g xs s))"
  by (induction xs arbitrary: s) simp_all

lemma bundleNowBatch_all_stray:
  assumes "\<forall>opn \<in> set ops. \<not> configured env opn"
  shows "bundleNowBatch env ops s = (Inr [], fold warnNoOps (entryPoints env) s)"
proof -
  have "promiseAll (dispatchNow env (groupByEntryPoint ops)) (entryPoints env) ([], s) =
        (None, ([], fold warnNoOps (entryPoints env) s))"
    by (rule promiseAll_quiet_acc)
       (simp add: groupByEntryPoint_none[OF assms] dispatchNow_def warnNoOps_def)
  then show ?thesis by (simp add: bundleNowBatch_def)
qed



text \<open>
  Claim C10. Both \<^verbatim>\<open>bundle()\<close> and \<^verbatim>\<open>bundleNow()\<close> look the batch up by configured entry
  point only: what is dispatched for a configured entry point are the operations of the
  batch with that entry point, in order. An operation whose entry point is not
  configured has no influence on the dispatch at all: the result, the state and the
  trace are those of the batch without it, so it is not sent to the executor, not removed
  from processing, raises no error and is named by no log entry. A batch of such
  operations only yields the warning that each configured entry point has no operations.
\<close>

theorem bundle_ignores_unconfigured_entry_points:
  "bundleNowBatch env ops s = bundleNowBatch env (filter (configured env) ops) s \<and>
   bundleBatch env ops s = bundleBatch env (filter (configured env) ops) s \<and>
   (\<forall>ep \<in> set (entryPoints env). groupByEntryPoint ops ep =
      (if filter (\<lambda>opn. entryPoint opn = ep) ops = [] then None
       else Some (map mempoolUserOperation (filter (\<lambda>opn. entryPoint opn = ep) ops)))) \<and>
   ((\<forall>opn \<in> set ops. \<not> configured env opn) \<longrightarrow>
      bundleNowBatch env ops s = (Inr [], fold warnNoOps (entryPoints env) s) \<and>
      bundleBatch env ops s = (None, fold warnNoOps (entryPoints env) s)) \<and>
   bundleNow env s =
     (case mempoolProcess env (maxGasLimitPerBundle env) 1 (mempool s) of
        (batch, m) \<Rightarrow>
          if length batch = 0 then (Inl (Error ''no ops to bundle''), s\<lparr>mempool := m\<rparr>)
          else bundleNowBatch env (filter (configured env) batch) (s\<lparr>mempool := m\<rparr>)) \<and>
   bundleLoop env s =
     (case drainMempool env [] (mempool s) of
        None \<Rightarrow> None
      | Some (opsToBundle, m) \<Rightarrow>
          Some (if length opsToBundle = 0 then (None, s\<lparr>mempool := m\<rparr>)
                else promiseAll (\<lambda>batch. bundleBatch env (filter (configured env) batch))
                       opsToBundle (s\<lparr>mempool := m\<rparr>)))"
proof -
  have now: "bundleNow env s =
     (case mempoolProcess env (maxGasLimitPerBundle env) 1 (mempool s) of
        (batch, m) \<Rightarrow>
          if length batch = 0 then (Inl (Error ''no ops to bundle''), s\<lparr>mempool := m\<rparr>)
          else bundleNowBatch env (filter (configured env) batch) (s\<lparr>mempool := m\<rparr>))"
  proof -
    obtain batch m where p: "mempoolProcess env (maxGasLimitPerBundle env) 1 (mempool s) = (batch, m)"
      by (cases "mempoolProcess env (maxGasLimitPerBundle env) 1 (mempool s)")
    show ?thesis
      unfolding bundleNow_def p
      by (simp add: bundleNowBatch_configured[of env batch "s\<lparr>mempool := m\<rparr>", symmetric])
  qed
  have batches: "promiseAll (bundleBatch env) bs st =
      promiseAll (\<lambda>batch. bundleBatch env (filter (configured env) batch)) bs st" for bs st
  proof (rule promiseAll_cong, intro ballI allI)
    fix x and s' :: "'a State"
    show "bundleBatch env x s' = bundleBatch env (filter (configured env) x) s'"
      by (rule bundleBatch_configured)
  qed
  have loop: "bundleLoop env s =
     (case drainMempool env [] (mempool s) of
        None \<Rightarrow> None
      | Some (opsToBundle, m) \<Rightarrow>
          Some (if length opsToBundle = 0 then (None, s\<lparr>mempool := m\<rparr>)
                else promiseAll (\<lambda>batch. bundleBatch env (filter (configured env) batch))
                       opsToBundle (s\<lparr>mempool := m\<rparr>)))"
    unfolding bundleLoop_def
    by (simp add: batches split: option.splits prod.splits)
  have stray: "(\<forall>opn \<in> set ops. \<not> configured env opn) \<longrightarrow>
      bundleNowBatch env ops s = (Inr [], fold warnNoOps (entryPoints env) s) \<and>
      bundleBatch env ops s = (None, fold warnNoOps (entryPoints env) s)"
    using bundleNowBatch_all_stray bundleBatch_all_stray by blast
  have grp: "\<forall>ep \<in> set (entryPoints env). groupByEntryPoint ops ep =
      (if filter (\<lambda>opn. entryPoint opn = ep) ops = [] then None
       else Some (map mempoolUserOperation (filter (\<lambda>opn. entryPoint opn = ep) ops)))"
    by (simp add: groupByEntryPoint_filter)
  from bundleNowBatch_configured[of env ops s] bundleBatch_configured[of env ops s] grp stray now loop
  show ?thesis by (intro conjI)
qed

theorem bundle_ignores_unconfigured_entry_points_witness:
  "bundleNowBatch demoEnv strayBatch demoState =
     bundleNowBatch demoEnv [demoOp ''0xA1'' ''0xE1''] demoState \<and>
   bundleNowBatch demoEnv [demoOp ''0xA9'' ''0xE9''] demoState =
     (Inr [], demoState\<lparr>trace := [Log Warn ''no user operations for entry point'' [''0xE1'']]\<rparr>)"
proof -
  have flt: "filter (configured demoEnv) strayBatch = [demoOp ''0xA1'' ''0xE1'']"
    by (simp add: configured_def strayBatch_def demoEnv_def demoOp_def)
  have "bundleNowBatch demoEnv strayBatch demoState =
      bundleNowBatch demoEnv (filter (configured demoEnv) strayBatch) demoState"
    by (rule bundle_ignores_unconfigured_entry_points[of demoEnv strayBatch demoState, THEN conjunct1])
  then have first: "bundleNowBatch demoEnv strayBatch demoState =
     bundleNowBatch demoEnv [demoOp ''0xA1'' ''0xE1''] demoState"
    by (simp only: flt)
  have stray: "\<forall>opn \<in> set [demoOp ''0xA9'' ''0xE9'']. \<not> configured demoEnv opn"
    by (simp add: configured_def demoEnv_def demoOp_def)
  note c4 = bundle_ignores_unconfigured_entry_points[of demoEnv "[demoOp ''0xA9'' ''0xE9'']" demoState,
      THEN conjunct2, THEN conjunct2, THEN conjunct2, THEN conjunct1, THEN mp, OF stray, THEN conjunct1]
  have warn: "fold warnNoOps (entryPoints demoEnv) demoState =
      demoState\<lparr>trace := [Log Warn ''no user operations for entry point'' [''0xE1'']]\<rparr>"
    by (simp add: warnNoOps_def emit_def demoEnv_def demoState_def)
  from c4 warn have second: "bundleNowBatch demoEnv [demoOp ''0xA9'' ''0xE9''] demoState =
     (Inr [], demoState\<lparr>trace := [Log Warn ''no user operations for entry point'' [''0xE1'']]\<rparr>)"
    by simp
  from first second show ?thesis by (rule conjI)
qed


end
